(* ===== verification/Prelude.thy ===== *)
theory Prelude
  imports Main "HOL-Library.AList" "HOL-Library.Sublist" "HOL-Library.Word"
begin

text \<open>
  Shared vocabulary of the development: the collections that the component theories feed, the
  result type of fallible Go functions, the machine types, and generic facts on lists and on the
  association lists that stand for Go maps.

  A Go map is an association list with distinct keys. The order of the list is the iteration order
  of one particular run; Go leaves that order open, so no property may depend on it.
\<close>

named_theorems wf_intros \<open>introduction rules for the well-formedness invariants\<close>
named_theorems ns_simps \<open>equations of the namespace view of the directory tree\<close>

subsection \<open>Results, times and machine integers\<close>

text \<open>Errors are the Go error texts themselves: callers of the program inspect the text.\<close>

type_synonym error = string
type_synonym 'a result = "error + 'a"

type_synonym time = int          \<comment> \<open>nanoseconds; \<^verbatim>\<open>time.Time\<close>\<close>
type_synonym duration = int      \<comment> \<open>nanoseconds; \<^verbatim>\<open>time.Duration\<close>\<close>
type_synonym int64 = "64 word"
type_synonym uint32 = "32 word"
type_synonym uint64 = "64 word"
type_synonym byte = "8 word"

definition second :: duration where
  "second = 1000000000"

definition minute :: duration where
  "minute = 60 * second"

fun is_ok :: "'a result \<Rightarrow> bool" where
  "is_ok (Inr _) = True"
| "is_ok (Inl _) = False"

lemma is_ok_iff: "is_ok r \<longleftrightarrow> (\<exists>x. r = Inr x)"
  by (cases r) auto

subsection \<open>Machine integers\<close>

lemma sint_of_int64: "- (2 ^ 63) \<le> k \<Longrightarrow> k < 2 ^ 63 \<Longrightarrow> sint (word_of_int k :: int64) = k"
  by (simp add: sint_sbintrunc' signed_take_bit_int_eq_self)

lemma sint_of_nat64: "n < 2 ^ 63 \<Longrightarrow> sint (of_nat n :: int64) = int n"
proof -
  assume "n < 2 ^ 63"
  then have "int n < 2 ^ 63" by (metis of_nat_less_iff of_nat_numeral of_nat_power)
  with sint_of_int64 [of "int n"] show ?thesis by simp
qed

lemma sint_bounds64: "- (2 ^ 63) \<le> sint (x :: int64)" "sint (x :: int64) < 2 ^ 63"
  using sint_ge [of x] sint_lt [of x] by simp_all

subsection \<open>Lists\<close>

lemma butlast_last_decomp: "xs \<noteq> [] \<Longrightarrow> xs = butlast xs @ [last xs]"
  by simp

lemma prefix_butlast: "prefix (butlast xs) xs"
  by (simp add: prefixeq_butlast)

lemma strict_prefix_butlast: "xs \<noteq> [] \<Longrightarrow> strict_prefix q xs \<longleftrightarrow> prefix q (butlast xs)"
  by (metis append_butlast_last_id prefix_snoc strict_prefix_def prefix_order.less_le
      not_Cons_self2 append_self_conv prefix_length_le length_append_singleton Suc_n_not_le_n)

lemma not_prefix_butlast [simp]: "q \<noteq> [] \<Longrightarrow> \<not> prefix q (butlast q)"
  by (metis length_butlast prefix_length_le diff_Suc_less length_greater_0_conv not_le One_nat_def)

lemma butlast_neq [simp]: "q \<noteq> [] \<Longrightarrow> q \<noteq> butlast q" "q \<noteq> [] \<Longrightarrow> butlast q \<noteq> q"
  using not_prefix_butlast [of q] by (metis prefix_order.refl)+

lemma prefix_drop_eq: "prefix p q \<Longrightarrow> p @ drop (length p) q = q"
  by (auto simp: prefix_def)

subsection \<open>Go maps as association lists\<close>

definition keys :: "('k \<times> 'v) list \<Rightarrow> 'k list" where
  "keys m = map fst m"

lemma keys_update: "set (keys (AList.update k v m)) = insert k (set (keys m))"
  by (simp add: keys_def dom_update)

lemma keys_delete: "set (keys (AList.delete k m)) = set (keys m) - {k}"
  by (simp add: keys_def delete_keys)

lemma distinct_keys_update: "distinct (keys m) \<Longrightarrow> distinct (keys (AList.update k v m))"
  by (simp add: keys_def distinct_update)

lemma distinct_keys_delete: "distinct (keys m) \<Longrightarrow> distinct (keys (AList.delete k m))"
  by (simp add: keys_def distinct_delete)

lemma set_update_subset: "set (AList.update k v m) \<subseteq> insert (k, v) (set m)"
  by (induction m) auto

lemma set_delete_subset: "set (AList.delete k m) \<subseteq> set m"
  by (induction m) auto

lemma map_of_update_eq [simp]: "map_of (AList.update k v m) = (map_of m)(k \<mapsto> v)"
  by (rule update_conv')

lemma map_of_delete_eq [simp]: "map_of (AList.delete k m) = (map_of m)(k := None)"
  by (rule delete_conv')

lemma map_of_Some_iff_set: "distinct (keys m) \<Longrightarrow> map_of m k = Some v \<longleftrightarrow> (k, v) \<in> set m"
  by (simp add: keys_def)

lemma map_of_None_iff_keys: "map_of m k = None \<longleftrightarrow> k \<notin> set (keys m)"
  by (simp add: keys_def map_of_eq_None_iff)

end
