(* ===== verification/Go_Strings.thy ===== *)
theory Go_Strings
  imports Prelude
begin

text \<open>
  The functions of Go's \<^verbatim>\<open>strings\<close> package that the program calls, on byte strings
  (\<^typ>\<open>string\<close>, a list of 8-bit characters, as Go's strings are), decimal printing for
  \<^verbatim>\<open>%d\<close>, and the decoding of a string into runes that a \<^verbatim>\<open>range\<close> loop performs.
\<close>

definition HasPrefix :: "string \<Rightarrow> string \<Rightarrow> bool" where
  "HasPrefix s p = prefix p s"

definition HasSuffix :: "string \<Rightarrow> string \<Rightarrow> bool" where
  "HasSuffix s p = suffix p s"

definition TrimPrefix :: "string \<Rightarrow> string \<Rightarrow> string" where
  "TrimPrefix s p = (if HasPrefix s p then drop (length p) s else s)"

definition TrimSuffix :: "string \<Rightarrow> string \<Rightarrow> string" where
  "TrimSuffix s p = (if HasSuffix s p then take (length s - length p) s else s)"

text \<open>\<^verbatim>\<open>strings.Split(s, sep)\<close> for a separator of one byte: never the empty list.\<close>

fun Split :: "char \<Rightarrow> string \<Rightarrow> string list" where
  "Split sep [] = [[]]"
| "Split sep (c # s) =
     (if c = sep then [] # Split sep s
      else (case Split sep s of [] \<Rightarrow> [[c]] | w # ws \<Rightarrow> (c # w) # ws))"

text \<open>\<^verbatim>\<open>strings.Index\<close>: \<^const>\<open>None\<close> stands for -1.\<close>

fun Index :: "string \<Rightarrow> string \<Rightarrow> nat option" where
  "Index [] sub = (if sub = [] then Some 0 else None)"
| "Index (c # s) sub = (if HasPrefix (c # s) sub then Some 0 else map_option Suc (Index s sub))"

definition Contains :: "string \<Rightarrow> string \<Rightarrow> bool" where
  "Contains s sub = (Index s sub \<noteq> None)"

subsection \<open>Decimal numbers\<close>

fun show_nat :: "nat \<Rightarrow> string" where
  "show_nat n =
     (if n < 10 then [char_of (48 + n)] else show_nat (n div 10) @ [char_of (48 + n mod 10)])"

declare show_nat.simps [simp del]

subsection \<open>Runes\<close>

text \<open>
  \<^verbatim>\<open>for _, c := range s\<close> decodes UTF-8: a malformed byte yields U+FFFD and is skipped
  alone. \<open>cont b\<close> tests for a continuation byte; the bounds on the second byte exclude overlong
  forms, surrogates and values above U+10FFFF.
\<close>

definition cont_byte :: "nat \<Rightarrow> bool" where
  "cont_byte b \<longleftrightarrow> 128 \<le> b \<and> b < 192"

definition second_ok :: "nat \<Rightarrow> nat \<Rightarrow> bool" where
  "second_ok b0 b1 \<longleftrightarrow>
     (if b0 = 224 then 160 else if b0 = 240 then 144 else 128) \<le> b1 \<and>
     b1 < (if b0 = 237 then 160 else if b0 = 244 then 144 else 192)"

text \<open>The first rune of a non-empty byte list, and the number of bytes it takes.\<close>

fun decode_rune :: "nat list \<Rightarrow> nat \<times> nat" where
  "decode_rune [] = (65533, 0)"
| "decode_rune (b0 # bs) =
     (if b0 < 128 then (b0, 1)
      else if 194 \<le> b0 \<and> b0 < 224 then
        (case bs of b1 # _ \<Rightarrow>
            if cont_byte b1 then ((b0 - 192) * 64 + (b1 - 128), 2) else (65533, 1)
          | [] \<Rightarrow> (65533, 1))
      else if 224 \<le> b0 \<and> b0 < 240 then
        (case bs of b1 # b2 # _ \<Rightarrow>
            if second_ok b0 b1 \<and> cont_byte b2
            then ((b0 - 224) * 4096 + (b1 - 128) * 64 + (b2 - 128), 3) else (65533, 1)
          | _ \<Rightarrow> (65533, 1))
      else if 240 \<le> b0 \<and> b0 < 245 then
        (case bs of b1 # b2 # b3 # _ \<Rightarrow>
            if second_ok b0 b1 \<and> cont_byte b2 \<and> cont_byte b3
            then ((b0 - 240) * 262144 + (b1 - 128) * 4096 + (b2 - 128) * 64 + (b3 - 128), 4)
            else (65533, 1)
          | _ \<Rightarrow> (65533, 1))
      else (65533, 1))"

lemma decode_rune_width: "bs \<noteq> [] \<Longrightarrow> 1 \<le> snd (decode_rune bs)"
  by (cases bs) (auto split: list.splits)

function runes_of_bytes :: "nat list \<Rightarrow> nat list" where
  "runes_of_bytes bs =
     (if bs = [] then []
      else fst (decode_rune bs) # runes_of_bytes (drop (snd (decode_rune bs)) bs))"
  by pat_completeness auto
termination
proof (relation "measure length")
  fix bs :: "nat list"
  assume "bs \<noteq> []"
  moreover from this have "1 \<le> snd (decode_rune bs)" by (rule decode_rune_width)
  ultimately show "(drop (snd (decode_rune bs)) bs, bs) \<in> measure length"
    by (simp add: diff_less)
qed simp

declare runes_of_bytes.simps [simp del]

definition runes :: "string \<Rightarrow> nat list" where
  "runes s = runes_of_bytes (map of_char s)"

lemma runes_of_bytes_ascii: "\<forall>b \<in> set bs. b < 128 \<Longrightarrow> runes_of_bytes bs = bs"
proof (induction bs)
  case Nil
  show ?case by (simp add: runes_of_bytes.simps)
next
  case (Cons b bs)
  then have "runes_of_bytes bs = bs" and "b < 128" by auto
  then show ?case by (subst runes_of_bytes.simps) simp
qed

text \<open>On ASCII strings, runes are the bytes.\<close>

lemma runes_ascii: "\<forall>c \<in> set s. of_char c < (128::nat) \<Longrightarrow> runes s = map of_char s"
  by (simp add: runes_def runes_of_bytes_ascii)

subsection \<open>Facts on the string functions\<close>

lemma Split_not_Nil [simp]: "Split sep s \<noteq> []"
  by (cases s) (auto split: list.splits)

lemma Split_no_sep: "w \<in> set (Split sep s) \<Longrightarrow> sep \<notin> set w"
proof (induction s arbitrary: w)
  case Nil
  then show ?case by simp
next
  case (Cons c s)
  show ?case
  proof (cases "c = sep")
    case True
    with Cons show ?thesis by auto
  next
    case False
    obtain v vs where v: "Split sep s = v # vs" by (cases "Split sep s") auto
    with Cons False show ?thesis by auto
  qed
qed

lemma Split_single: "sep \<notin> set w \<Longrightarrow> Split sep w = [w]"
  by (induction w) auto

lemma Split_append: "Split sep (s @ sep # t) = Split sep s @ Split sep t"
proof (induction s)
  case Nil
  show ?case by simp
next
  case (Cons c s)
  obtain v vs where "Split sep s = v # vs" by (cases "Split sep s") auto
  with Cons show ?case by auto
qed

lemma Index_Some_decomp: "Index s sub = Some i \<Longrightarrow> \<exists>u v. s = u @ sub @ v \<and> length u = i"
proof (induction s sub arbitrary: i rule: Index.induct)
  case (1 sub)
  then show ?case by (auto split: if_splits)
next
  case (2 c s sub)
  show ?case
  proof (cases "HasPrefix (c # s) sub")
    case True
    with 2 show ?thesis by (auto simp: HasPrefix_def prefix_def)
  next
    case False
    with "2.prems" obtain j where j: "Index s sub = Some j" and i: "i = Suc j" by auto
    from "2.IH" [OF False j] obtain u v where "s = u @ sub @ v" "length u = j" by blast
    with i show ?thesis by (intro exI [of _ "c # u"] exI [of _ v]) simp
  qed
qed

lemma Index_infix: "Index (u @ sub @ v) sub \<noteq> None"
proof (induction u)
  case Nil
  show ?case
  proof (cases "sub @ v")
    case Nil
    then show ?thesis by simp
  next
    case (Cons c w)
    then have "prefix sub (c # w)" by (metis prefixI)
    with Cons show ?thesis by (simp add: HasPrefix_def)
  qed
next
  case (Cons c u)
  then show ?case by auto
qed

lemma Contains_iff: "Contains s sub \<longleftrightarrow> (\<exists>u v. s = u @ sub @ v)"
proof
  assume "Contains s sub"
  then obtain i where "Index s sub = Some i" by (auto simp: Contains_def)
  from Index_Some_decomp [OF this] show "\<exists>u v. s = u @ sub @ v" by blast
next
  assume "\<exists>u v. s = u @ sub @ v"
  then show "Contains s sub" using Index_infix by (auto simp: Contains_def)
qed

end
