(* ===== verification/Paths.thy ===== *)
theory Paths
  imports Go_Strings
begin

text \<open>
  Path handling: \<^verbatim>\<open>splitPath\<close> of the metadata server, \<^verbatim>\<open>joinPath\<close> of the
  replicator, and the functions of Go's \<^verbatim>\<open>path/filepath\<close> (Unix flavour) that the program
  calls. A component of a path is \<^emph>\<open>valid\<close> when it is not empty and holds no slash.
\<close>

definition slash :: char where
  "slash = CHR ''/''"

definition valid_name :: "string \<Rightarrow> bool" where
  "valid_name n \<longleftrightarrow> n \<noteq> [] \<and> slash \<notin> set n"

definition splitPath :: "string \<Rightarrow> string list" where
  "splitPath path =
     (let path = TrimPrefix path ''/'';
          path = TrimSuffix path ''/''
      in if path = [] then [] else filter (\<lambda>p. p \<noteq> []) (Split slash path))"

definition joinPath :: "string \<Rightarrow> string \<Rightarrow> string" where
  "joinPath parent name = (if parent = ''/'' then ''/'' @ name else parent @ ''/'' @ name)"

text \<open>Where data nodes keep the data of files: \<^verbatim>\<open>/data/{FileID}\<close>.\<close>

definition data_dir :: string where
  "data_dir = ''/data/''"

text \<open>The absolute path with the given components.\<close>

fun join_slash :: "string list \<Rightarrow> string" where
  "join_slash [] = []"
| "join_slash [w] = w"
| "join_slash (w # v # ws) = w @ slash # join_slash (v # ws)"

definition abs_path :: "string list \<Rightarrow> string" where
  "abs_path ws = slash # join_slash ws"

subsection \<open>\<^verbatim>\<open>filepath.Clean\<close> and \<^verbatim>\<open>filepath.Join\<close>\<close>

definition dot :: string where
  "dot = ''.''"

definition dotdot :: string where
  "dotdot = ''..''"

fun clean_elems :: "bool \<Rightarrow> string list \<Rightarrow> string list \<Rightarrow> string list" where
  "clean_elems rooted out [] = rev out"
| "clean_elems rooted out (e # es) =
     (if e = [] \<or> e = dot then clean_elems rooted out es
      else if e = dotdot then
        (case out of
           [] \<Rightarrow> clean_elems rooted (if rooted then [] else [dotdot]) es
         | w # ws \<Rightarrow> if w = dotdot then clean_elems rooted (dotdot # out) es
                    else clean_elems rooted ws es)
      else clean_elems rooted (e # out) es)"

definition Clean :: "string \<Rightarrow> string" where
  "Clean path =
     (if path = [] then dot
      else let rooted = (hd path = slash);
               es = clean_elems rooted [] (Split slash path)
           in if rooted then slash # join_slash es
              else if es = [] then dot else join_slash es)"

definition FilepathJoin :: "string \<Rightarrow> string \<Rightarrow> string" where
  "FilepathJoin a b =
     (if a \<noteq> [] then Clean (a @ ''/'' @ b) else if b \<noteq> [] then Clean b else [])"

subsection \<open>splitPath\<close>

lemma slash_lit [simp]: "''/'' = [slash]"
  by (simp add: slash_def)

lemma filter_Split_prepend: "filter (\<lambda>p. p \<noteq> []) (Split slash (slash # s)) =
    filter (\<lambda>p. p \<noteq> []) (Split slash s)"
  by simp

lemma filter_Split_append_slash: "filter (\<lambda>p. p \<noteq> []) (Split slash (s @ [slash])) =
    filter (\<lambda>p. p \<noteq> []) (Split slash s)"
  using Split_append [of slash s "[]"] by simp

text \<open>Trimming one slash at either end never changes the components.\<close>

lemma splitPath_filter: "splitPath path = filter (\<lambda>p. p \<noteq> []) (Split slash path)"
proof -
  define p1 where "p1 = TrimPrefix path ''/''"
  define p2 where "p2 = TrimSuffix p1 ''/''"
  have 1: "filter (\<lambda>p. p \<noteq> []) (Split slash path) = filter (\<lambda>p. p \<noteq> []) (Split slash p1)"
    by (auto simp: p1_def TrimPrefix_def HasPrefix_def prefix_def)
  have 2: "filter (\<lambda>p. p \<noteq> []) (Split slash p1) = filter (\<lambda>p. p \<noteq> []) (Split slash p2)"
    by (auto simp: p2_def TrimSuffix_def HasSuffix_def suffix_def filter_Split_append_slash)
  have "splitPath path = filter (\<lambda>p. p \<noteq> []) (Split slash p2)"
    by (simp add: splitPath_def p1_def p2_def Let_def)
  with 1 2 show ?thesis by simp
qed

lemma splitPath_valid: "w \<in> set (splitPath path) \<Longrightarrow> valid_name w"
  by (auto simp: splitPath_filter valid_name_def dest: Split_no_sep)

lemma splitPath_join_slash: "\<forall>w \<in> set ws. valid_name w \<Longrightarrow> splitPath (join_slash ws) = ws"
proof (induction ws rule: join_slash.induct)
  case 1
  show ?case by (simp add: splitPath_filter)
next
  case (2 w)
  then show ?case by (simp add: splitPath_filter valid_name_def Split_single)
next
  case (3 w v ws)
  then show ?case by (simp add: splitPath_filter valid_name_def Split_append Split_single)
qed

lemma splitPath_abs_path: "\<forall>w \<in> set ws. valid_name w \<Longrightarrow> splitPath (abs_path ws) = ws"
  using splitPath_join_slash [of ws] by (simp add: abs_path_def splitPath_filter)

lemma splitPath_root [simp]: "splitPath [slash] = []"
  by (simp add: splitPath_filter)

lemma splitPath_Nil [simp]: "splitPath [] = []"
  by (simp add: splitPath_filter)

text \<open>Appending a valid component to a path appends it to the components.\<close>

lemma splitPath_joinPath: "valid_name n \<Longrightarrow> splitPath (joinPath p n) = splitPath p @ [n]"
  by (simp add: joinPath_def splitPath_filter Split_append Split_single valid_name_def)

lemma joinPath_abs_path:
  assumes "\<forall>w \<in> set ws. valid_name w"
  shows "joinPath (abs_path ws) n = abs_path (ws @ [n])"
proof -
  have app: "join_slash (vs @ [n]) = (if vs = [] then n else join_slash vs @ slash # n)" for vs
    by (induction vs rule: join_slash.induct) auto
  show ?thesis
  proof (cases "ws = []")
    case True
    then show ?thesis by (simp add: abs_path_def joinPath_def)
  next
    case False
    with assms have "join_slash ws \<noteq> []"
      by (cases ws rule: join_slash.cases) (auto simp: valid_name_def)
    with False show ?thesis by (simp add: abs_path_def joinPath_def app)
  qed
qed

subsection \<open>Cleaned rooted paths\<close>

lemma clean_elems_rooted:
  assumes "\<forall>w \<in> set out. valid_name w \<and> w \<noteq> dot \<and> w \<noteq> dotdot"
    and "\<forall>w \<in> set es. slash \<notin> set w"
  shows "\<forall>w \<in> set (clean_elems True out es). valid_name w \<and> w \<noteq> dot \<and> w \<noteq> dotdot"
  using assms
proof (induction es arbitrary: out)
  case Nil
  then show ?case by simp
next
  case (Cons e es)
  from Cons.prems have es: "\<forall>w \<in> set es. slash \<notin> set w" by simp
  show ?case
  proof (cases "e = [] \<or> e = dot")
    case True
    with Cons.IH [OF Cons.prems(1) es] show ?thesis by simp
  next
    case False
    show ?thesis
    proof (cases "e = dotdot")
      case True
      from Cons.prems(1) have "\<forall>w \<in> set (tl out). valid_name w \<and> w \<noteq> dot \<and> w \<noteq> dotdot"
        by (cases out) auto
      from Cons.IH [OF this es] Cons.prems(1) True False show ?thesis by (cases out) auto
    next
      case nodd: False
      with False Cons.prems
      have "\<forall>w \<in> set (e # out). valid_name w \<and> w \<noteq> dot \<and> w \<noteq> dotdot"
        by (simp add: valid_name_def)
      from Cons.IH [OF this es] False nodd show ?thesis by simp
    qed
  qed
qed

text \<open>A rooted path cleans to an absolute path whose components climb nowhere.\<close>

lemma Clean_rooted:
  obtains ws where "Clean (slash # p) = abs_path ws"
    and "\<forall>w \<in> set ws. valid_name w \<and> w \<noteq> dot \<and> w \<noteq> dotdot"
proof
  define ws where "ws = clean_elems True [] (Split slash (slash # p))"
  show "Clean (slash # p) = abs_path ws"
    by (simp add: Clean_def Let_def abs_path_def ws_def)
  have "\<forall>w \<in> set (Split slash (slash # p)). slash \<notin> set w"
    by (blast dest: Split_no_sep)
  then show "\<forall>w \<in> set ws. valid_name w \<and> w \<noteq> dot \<and> w \<noteq> dotdot"
    using clean_elems_rooted [of "[]"] unfolding ws_def by simp
qed

end
