(* ===== verification/Fs_Types.thy ===== *)
theory Fs_Types
  imports Prelude
begin

text \<open>
  The data exchanged between the components (\<^verbatim>\<open>internal/types/types.go\<close>): one record per
  struct, field by field. Go's exported field names carry a short prefix here, because several
  structs share names such as \<^verbatim>\<open>Path\<close> or \<^verbatim>\<open>Size\<close>.
\<close>

record FileInfo =
  fi_Name :: string
  fi_Path :: string
  fi_IsDir :: bool
  fi_Size :: int64
  fi_Mode :: uint32
  fi_CreatedAt :: time
  fi_ModTime :: time
  fi_FileID :: string

record Replica =
  r_Addr :: string
  r_RemotePath :: string

record FileLocation =
  fl_FileID :: string
  fl_Replicas :: "Replica list"
  fl_Status :: string

record NodeFile =
  nf_Path :: string
  nf_ModTime :: time

text \<open>\<^verbatim>\<open>type CreateMode uint32\<close>: an open enumeration, two values of which are named.\<close>

type_synonym CreateMode = uint32

definition CreateIfNotExist :: CreateMode where
  "CreateIfNotExist = 0"

definition OverwriteIfExists :: CreateMode where
  "OverwriteIfExists = 1"

record CreateFileArgs =
  cf_Path :: string
  cf_Size :: int64
  cf_CreateMode :: CreateMode

record HeartbeatReply =
  hb_IsLeader :: bool
  hb_Leader :: string

record CreateFileReply =
  cfr_Replicas :: "Replica list"

record DeleteReply =
  dr_Replicas :: "Replica list"
  dr_IsDir :: bool

record RenameArgs =
  ra_SrcPath :: string
  ra_DstPath :: string

record UpdateSizeArgs =
  us_Path :: string
  us_Size :: int64

record StoreArgs =
  sa_Path :: string
  sa_Content :: "byte list"

record RangeReadArgs =
  rr_Path :: string
  rr_Offset :: int64
  rr_Length :: int64

record RangeReadReply =
  rrr_Data :: "byte list"
  rrr_EOF :: bool

record PartialWriteArgs =
  pw_Path :: string
  pw_Offset :: int64
  pw_Data :: "byte list"

record TruncateArgs =
  ta_Path :: string
  ta_Size :: int64

record SyncArgs =
  sy_Path :: string

record ReplicateFileArgs =
  rf_SourceAddr :: string
  rf_SourceRemotePath :: string
  rf_TargetRemotePath :: string
  rf_FileSize :: int64

end
