(* ===== verification/Entry_Tree.thy ===== *)
theory Entry_Tree
  imports Paths Fs_Types
begin

text \<open>
  The directory tree of the metadata server: \<^verbatim>\<open>type entry struct\<close> and the walks over it.
  The Go struct is recursive through its map of children, so its scalar fields form the record
  \<open>entry_attr\<close> and the tree is a datatype over it. A node the Go code reaches by a pointer and
  mutates in place is named here by its path: \<open>update_at\<close> rewrites the node at a path and leaves
  the rest of the tree alone. The nodes form a tree (each has one parent), so two pointers are
  equal exactly when the paths that reach them are.

  The view \<open>ns\<close> of a tree is the partial map from paths to attributes; the functional
  properties of the operations are stated on it.
\<close>

record entry_attr =
  e_name :: string
  e_isDir :: bool
  e_size :: int64
  e_mode :: uint32
  e_createdAt :: time
  e_modTime :: time
  e_status :: string
  e_fileID :: string
  e_replicas :: "Replica list"

datatype entry = Entry (attr: entry_attr) (children: "(string \<times> entry) list")

abbreviation isDir :: "entry \<Rightarrow> bool" where
  "isDir e \<equiv> e_isDir (attr e)"

subsection \<open>Walks\<close>

text \<open>The loop of \<^verbatim>\<open>lookup\<close>: it does not look at \<^verbatim>\<open>isDir\<close>, files have no children.\<close>

fun lookup_entry :: "entry \<Rightarrow> string list \<Rightarrow> entry option" where
  "lookup_entry current [] = Some current"
| "lookup_entry current (part # parts) =
     (case map_of (children current) part of
        None \<Rightarrow> None
      | Some child \<Rightarrow> lookup_entry child parts)"

text \<open>
  The walk over the parent directories that the write operations share: it stops at a component
  that is missing or not a directory. The level and the component it stopped at are reported
  (\<^verbatim>\<open>applyMkdir\<close> prints them).
\<close>

fun walk_dirs :: "nat \<Rightarrow> entry \<Rightarrow> string list \<Rightarrow> (nat \<times> string) + entry" where
  "walk_dirs i current [] = Inr current"
| "walk_dirs i current (part # parts) =
     (case map_of (children current) part of
        None \<Rightarrow> Inl (i, part)
      | Some child \<Rightarrow> if \<not> isDir child then Inl (i, part) else walk_dirs (Suc i) child parts)"

subsection \<open>In-place mutation\<close>

fun update_at :: "string list \<Rightarrow> (entry \<Rightarrow> entry) \<Rightarrow> entry \<Rightarrow> entry" where
  "update_at [] f e = f e"
| "update_at (part # parts) f e =
     (case map_of (children e) part of
        None \<Rightarrow> e
      | Some child \<Rightarrow>
          Entry (attr e) (AList.update part (update_at parts f child) (children e)))"

definition set_attr :: "(entry_attr \<Rightarrow> entry_attr) \<Rightarrow> entry \<Rightarrow> entry" where
  "set_attr f e = Entry (f (attr e)) (children e)"

definition touch :: "time \<Rightarrow> entry \<Rightarrow> entry" where
  "touch now = set_attr (\<lambda>a. a\<lparr>e_modTime := now\<rparr>)"

definition set_child :: "string \<Rightarrow> entry \<Rightarrow> entry \<Rightarrow> entry" where
  "set_child k c e = Entry (attr e) (AList.update k c (children e))"

definition del_child :: "string \<Rightarrow> entry \<Rightarrow> entry" where
  "del_child k e = Entry (attr e) (AList.delete k (children e))"

lemma attr_simps [simp]:
  "attr (set_attr f e) = f (attr e)" "children (set_attr f e) = children e"
  "attr (touch now e) = (attr e)\<lparr>e_modTime := now\<rparr>" "children (touch now e) = children e"
  "attr (set_child k c e) = attr e" "children (set_child k c e) = AList.update k c (children e)"
  "attr (del_child k e) = attr e" "children (del_child k e) = AList.delete k (children e)"
  by (simp_all add: set_attr_def touch_def set_child_def del_child_def)

subsection \<open>Well-formed trees\<close>

text \<open>
  Keys are distinct valid names, a node's name is the key it is stored under, and only
  directories have children.
\<close>

fun wf_entry :: "entry \<Rightarrow> bool" where
  "wf_entry (Entry a cs) \<longleftrightarrow>
     distinct (keys cs) \<and> (\<not> e_isDir a \<longrightarrow> cs = []) \<and>
     (\<forall>kc \<in> set cs. valid_name (fst kc) \<and> e_name (attr (snd kc)) = fst kc \<and> wf_entry (snd kc))"

definition wf_root :: "entry \<Rightarrow> bool" where
  "wf_root e \<longleftrightarrow> wf_entry e \<and> isDir e"

text \<open>All nodes of a tree, the root included.\<close>

fun entries :: "entry \<Rightarrow> entry_attr list" where
  "entries (Entry a cs) = a # concat (map (\<lambda>kc. entries (snd kc)) cs)"

definition ns :: "entry \<Rightarrow> string list \<Rightarrow> entry_attr option" where
  "ns e q = map_option attr (lookup_entry e q)"

subsection \<open>Laws of the walks\<close>

lemma lookup_entry_append:
  "lookup_entry e (ps @ qs) = Option.bind (lookup_entry e ps) (\<lambda>d. lookup_entry d qs)"
  by (induction ps arbitrary: e) (auto split: option.split)

lemma walk_dirs_lookup: "walk_dirs i e ps = Inr d \<Longrightarrow> lookup_entry e ps = Some d"
  by (induction ps arbitrary: i e) (auto split: option.splits if_splits)

lemma walk_dirs_isDir: "walk_dirs i e ps = Inr d \<Longrightarrow> isDir e \<Longrightarrow> isDir d"
  by (induction ps arbitrary: i e) (auto split: option.splits if_splits)

lemma wf_entry_child:
  "wf_entry e \<Longrightarrow> map_of (children e) k = Some c \<Longrightarrow>
     wf_entry c \<and> valid_name k \<and> e_name (attr c) = k \<and> isDir e"
  by (cases e) (auto dest!: map_of_SomeD)

lemma wf_entry_lookup: "wf_entry e \<Longrightarrow> lookup_entry e q = Some d \<Longrightarrow> wf_entry d"
  by (induction q arbitrary: e) (auto split: option.splits dest: wf_entry_child)

lemma wf_entry_lookup_valid:
  "wf_entry e \<Longrightarrow> lookup_entry e q = Some d \<Longrightarrow> \<forall>w \<in> set q. valid_name w"
  by (induction q arbitrary: e) (auto split: option.splits dest: wf_entry_child)

lemma wf_entry_lookup_name:
  "wf_entry e \<Longrightarrow> lookup_entry e q = Some d \<Longrightarrow> q \<noteq> [] \<Longrightarrow> e_name (attr d) = last q"
  by (induction q arbitrary: e) (auto split: option.splits if_splits dest: wf_entry_child)

lemma wf_entry_file_child: "wf_entry e \<Longrightarrow> \<not> isDir e \<Longrightarrow> children e = []"
  by (cases e) auto

text \<open>In a well-formed tree the walk succeeds exactly on the directories.\<close>

lemma walk_dirs_Inr_iff:
  assumes "wf_entry e" "isDir e"
  shows "walk_dirs i e ps = Inr d \<longleftrightarrow> lookup_entry e ps = Some d \<and> isDir d"
  using assms
proof (induction ps arbitrary: i e)
  case Nil
  then show ?case by auto
next
  case (Cons p ps)
  show ?case
  proof (cases "map_of (children e) p")
    case None
    then show ?thesis by simp
  next
    case (Some c)
    with Cons.prems have wf: "wf_entry c" by (blast dest: wf_entry_child)
    show ?thesis
    proof (cases "isDir c")
      case True
      with Cons.IH [OF wf] Some show ?thesis by simp
    next
      case False
      with wf have "children c = []" by (rule wf_entry_file_child)
      with False Some show ?thesis by (cases ps) auto
    qed
  qed
qed

lemma walk_dirs_total:
  "(\<exists>x. walk_dirs i e ps = Inl x) \<or> (\<exists>d. walk_dirs i e ps = Inr d)"
  by (cases "walk_dirs i e ps") auto

subsection \<open>Laws of the mutation\<close>

lemma update_at_missing: "lookup_entry e ps = None \<Longrightarrow> update_at ps f e = e"
proof (induction ps arbitrary: e)
  case Nil
  then show ?case by simp
next
  case (Cons p ps)
  show ?case
  proof (cases "map_of (children e) p")
    case None
    then show ?thesis by simp
  next
    case (Some c)
    with Cons have "update_at ps f c = c" by simp
    with Some show ?thesis by (cases e) (simp add: update_triv)
  qed
qed

lemma attr_update_at: "ps \<noteq> [] \<Longrightarrow> attr (update_at ps f e) = attr e"
  by (cases ps) (auto split: option.split)

lemma lookup_update_at_prefix:
  "lookup_entry e ps = Some d \<Longrightarrow> lookup_entry (update_at ps f e) (ps @ q) = lookup_entry (f d) q"
  by (induction ps arbitrary: e) (auto split: option.splits simp: update_conv')

lemma lookup_update_at_other:
  "\<not> prefix ps q \<Longrightarrow> \<not> prefix q ps \<Longrightarrow> lookup_entry (update_at ps f e) q = lookup_entry e q"
proof (induction ps arbitrary: e q)
  case Nil
  then show ?case by simp
next
  case (Cons p ps)
  from Cons.prems obtain x xs where q: "q = x # xs" by (cases q) auto
  with Cons show ?case by (auto simp: update_conv' split: option.splits)
qed

lemma lookup_update_at_above:
  "lookup_entry e q = Some c \<Longrightarrow>
     lookup_entry (update_at (q @ ps) f e) q = Some (update_at ps f c)"
  by (induction q arbitrary: e) (auto split: option.splits simp: update_conv')

text \<open>The namespace after a mutation at \<open>ps\<close>: below \<open>ps\<close> the new node's, elsewhere unchanged.\<close>

lemma ns_Nil [simp]: "ns e [] = Some (attr e)"
  by (simp add: ns_def)

lemma ns_Cons [simp]: "ns e (k # q) = Option.bind (map_of (children e) k) (\<lambda>c. ns c q)"
  by (auto simp: ns_def split: option.split)

lemma ns_leaf [simp]: "ns (Entry a []) q = (if q = [] then Some a else None)"
  by (cases q) simp_all

lemma ns_append: "lookup_entry e ps = Some d \<Longrightarrow> ns e (ps @ q) = ns d q"
  by (simp add: ns_def lookup_entry_append)

lemma ns_update_at:
  assumes "lookup_entry e ps = Some d"
  shows "ns (update_at ps f e) q =
    (if prefix ps q then ns (f d) (drop (length ps) q) else ns e q)"
proof (cases "prefix ps q")
  case True
  then obtain r where "q = ps @ r" by (auto simp: prefix_def)
  with lookup_update_at_prefix [OF assms] show ?thesis by (simp add: ns_def)
next
  case notbelow: False
  show ?thesis
  proof (cases "prefix q ps")
    case True
    then obtain r where r: "ps = q @ r" by (auto simp: prefix_def)
    with notbelow have "r \<noteq> []" by auto
    from assms r obtain c where c: "lookup_entry e q = Some c"
      by (auto simp: lookup_entry_append bind_eq_Some_conv)
    from lookup_update_at_above [OF c] r notbelow \<open>r \<noteq> []\<close> c show ?thesis
      by (simp add: ns_def attr_update_at)
  next
    case False
    with notbelow show ?thesis by (simp add: ns_def lookup_update_at_other)
  qed
qed

lemma ns_set_attr: "ns (set_attr f e) q = (if q = [] then Some (f (attr e)) else ns e q)"
  by (cases q) simp_all

lemma ns_set_child:
  "ns (set_child k c e) q =
    (case q of x # r \<Rightarrow> if x = k then ns c r else ns e q | [] \<Rightarrow> Some (attr e))"
  by (cases q) (simp_all add: update_conv')

lemma ns_del_child:
  "ns (del_child k e) q =
    (case q of x # r \<Rightarrow> if x = k then None else ns e q | [] \<Rightarrow> Some (attr e))"
  by (cases q) (simp_all add: delete_conv')

lemma ns_touch: "ns (touch now e) q =
    (if q = [] then Some ((attr e)\<lparr>e_modTime := now\<rparr>) else ns e q)"
  by (simp add: touch_def ns_set_attr)

subsection \<open>Well-formedness is kept\<close>

lemma wf_entry_set_child:
  assumes "wf_entry e" "isDir e" "wf_entry c" "valid_name k" "e_name (attr c) = k"
  shows "wf_entry (set_child k c e)"
proof (cases e)
  case (Entry a cs)
  have sub: "kc = (k, c) \<or> kc \<in> set cs" if "kc \<in> set (AList.update k c cs)" for kc
    using that set_update_subset [of k c cs] by auto
  have "valid_name (fst kc) \<and> e_name (attr (snd kc)) = fst kc \<and> wf_entry (snd kc)"
    if "kc \<in> set (AList.update k c cs)" for kc
    using sub [OF that] assms Entry by auto
  with assms(1,2) Entry show ?thesis by (simp add: set_child_def distinct_keys_update)
qed

lemma wf_entry_del_child: "wf_entry e \<Longrightarrow> wf_entry (del_child k e)"
  using set_delete_subset [of k "children e"]
  by (cases e) (auto simp: del_child_def distinct_keys_delete)

lemma wf_entry_set_attr:
  "wf_entry e \<Longrightarrow> e_isDir (f (attr e)) = isDir e \<Longrightarrow> wf_entry (set_attr f e)"
  by (cases e) (auto simp: set_attr_def)

lemma wf_entry_touch: "wf_entry e \<Longrightarrow> wf_entry (touch now e)"
  by (simp add: touch_def wf_entry_set_attr)

lemma wf_entry_update_at:
  assumes "wf_entry e" "lookup_entry e ps = Some d"
    and "wf_entry (f d)" "e_name (attr (f d)) = e_name (attr d)"
  shows "wf_entry (update_at ps f e)"
  using assms(1,2)
proof (induction ps arbitrary: e)
  case Nil
  with assms(3) show ?case by simp
next
  case (Cons p ps)
  from Cons.prems(2) obtain c where c: "map_of (children e) p = Some c"
    and d: "lookup_entry c ps = Some d"
    by (auto split: option.splits)
  from wf_entry_child [OF Cons.prems(1) c]
  have wfc: "wf_entry c" "valid_name p" "e_name (attr c) = p" "isDir e" by auto
  have "e_name (attr (update_at ps f c)) = p"
    using wfc(3) d assms(4) by (cases ps) (auto simp: attr_update_at simp del: update_at.simps(2))
  with Cons.IH [OF wfc(1) d] wfc Cons.prems(1)
  have "wf_entry (set_child p (update_at ps f c) e)" by (simp add: wf_entry_set_child)
  with c show ?case by (simp add: set_child_def)
qed

lemma wf_root_update_at:
  assumes "wf_root e" "lookup_entry e ps = Some d"
    and "wf_entry (f d)" "e_name (attr (f d)) = e_name (attr d)" "isDir (f d) = isDir d"
  shows "wf_root (update_at ps f e)"
proof -
  have "isDir (update_at ps f e)"
    using assms by (cases ps) (auto simp: wf_root_def attr_update_at simp del: update_at.simps(2))
  moreover have "wf_entry (update_at ps f e)"
    using assms(1) by (intro wf_entry_update_at [where d = d] assms) (simp add: wf_root_def)
  ultimately show ?thesis by (simp add: wf_root_def)
qed

subsection \<open>Nodes and paths\<close>

lemma set_entries_ns: "wf_entry e \<Longrightarrow> a \<in> set (entries e) \<longleftrightarrow> (\<exists>q. ns e q = Some a)"
proof (induction e arbitrary: a rule: entries.induct)
  case (1 b cs)
  have dist: "distinct (keys cs)" using "1.prems" by simp
  have child: "a \<in> set (entries (snd kc)) \<longleftrightarrow> (\<exists>q. ns (snd kc) q = Some a)"
    if "kc \<in> set cs" for kc a
    using 1 that by auto
  show ?case
  proof
    assume "a \<in> set (entries (Entry b cs))"
    then consider "a = b" | kc where "kc \<in> set cs" "a \<in> set (entries (snd kc))" by auto
    then show "\<exists>q. ns (Entry b cs) q = Some a"
    proof cases
      case 1
      then show ?thesis by (intro exI [of _ "[]"]) simp
    next
      case 2
      then obtain q where q: "ns (snd kc) q = Some a" using child by blast
      have "map_of cs (fst kc) = Some (snd kc)"
        using map_of_Some_iff_set [OF dist, of "fst kc" "snd kc"] 2(1) by simp
      with q show ?thesis by (intro exI [of _ "fst kc # q"]) simp
    qed
  next
    assume "\<exists>q. ns (Entry b cs) q = Some a"
    then obtain q where q: "ns (Entry b cs) q = Some a" ..
    show "a \<in> set (entries (Entry b cs))"
    proof (cases q)
      case Nil
      with q show ?thesis by simp
    next
      case (Cons k r)
      with q obtain c where "map_of cs k = Some c" and c: "ns c r = Some a"
        by (auto simp: bind_eq_Some_conv)
      then have "(k, c) \<in> set cs" by (simp add: map_of_SomeD)
      with c child [of "(k, c)" a] show ?thesis by fastforce
    qed
  qed
qed

text \<open>The namespace is used through its laws from here on.\<close>

declare ns_Cons [simp del, ns_simps]
declare ns_set_attr [ns_simps] ns_set_child [ns_simps] ns_del_child [ns_simps] ns_touch [ns_simps]

end
