(* ===== verification/Mds_State.thy ===== *)
theory Mds_State
  imports Entry_Tree
begin

text \<open>
  The state of one metadata server and the command payload carried in a Raft log entry
  (\<^verbatim>\<open>internal/metadata/mds.go\<close>). The logger, the locks and the Raft handle are not part of
  the state: every operation modelled on it runs under \<^verbatim>\<open>mds.mu\<close>, so operations are atomic.
\<close>

subsection \<open>Operation names and file states\<close>

definition OpHeartbeat :: string where "OpHeartbeat = ''heartbeat''"
definition OpRemoveDataNode :: string where "OpRemoveDataNode = ''remove_dn''"
definition OpMkdir :: string where "OpMkdir = ''mkdir''"
definition OpCreateFile :: string where "OpCreateFile = ''create_file''"
definition OpCompleteFile :: string where "OpCompleteFile = ''complete_file''"
definition OpDelete :: string where "OpDelete = ''delete''"
definition OpRename :: string where "OpRename = ''rename''"
definition OpUpdateSize :: string where "OpUpdateSize = ''update_size''"
definition OpUpdateReplicas :: string where "OpUpdateReplicas = ''update_replicas''"
definition OpUpdateStatus :: string where "OpUpdateStatus = ''update_status''"

lemmas op_names = OpHeartbeat_def OpRemoveDataNode_def OpMkdir_def OpCreateFile_def
  OpCompleteFile_def OpDelete_def OpRename_def OpUpdateSize_def OpUpdateReplicas_def
  OpUpdateStatus_def

definition StatusPending :: string where "StatusPending = ''pending''"
definition StatusComplete :: string where "StatusComplete = ''complete''"
definition StatusRecovering :: string where "StatusRecovering = ''recovering''"

lemmas status_names = StatusPending_def StatusComplete_def StatusRecovering_def

lemma status_distinct [simp]:
  "StatusPending \<noteq> StatusComplete" "StatusPending \<noteq> StatusRecovering"
  "StatusComplete \<noteq> StatusRecovering" "StatusComplete \<noteq> StatusPending"
  "StatusRecovering \<noteq> StatusPending" "StatusRecovering \<noteq> StatusComplete"
  by (simp_all add: status_names)

subsection \<open>The command payload\<close>

record commandPayload =
  p_Op :: string
  p_Path :: string
  p_Addr :: string
  p_Size :: int64
  p_Replicas :: "Replica list"
  p_IsDir :: bool
  p_CreateMode :: CreateMode
  p_FileID :: string
  p_DstPath :: string
  p_NewSize :: int64
  p_NewReplicas :: "Replica list"
  p_NewStatus :: string

text \<open>A composite literal sets some fields; the others are Go's zero values.\<close>

definition zero_payload :: commandPayload where
  "zero_payload = \<lparr>p_Op = [], p_Path = [], p_Addr = [], p_Size = 0, p_Replicas = [],
     p_IsDir = False, p_CreateMode = 0, p_FileID = [], p_DstPath = [], p_NewSize = 0,
     p_NewReplicas = [], p_NewStatus = []\<rparr>"

subsection \<open>The server\<close>

record mds =
  root :: entry
  dataNodes :: "string list"
  lastHeartbeat :: "(string \<times> time) list"
  replicaCount :: int
  repairing :: "(string \<times> bool) list"
  heartbeatTimeout :: duration
  replicateInterval :: duration

text \<open>
  The fresh server of \<^verbatim>\<open>NewMetadataServer\<close>; \<open>created\<close> and \<open>modified\<close> are the two clock
  readings of the root literal.
\<close>

definition new_root :: "time \<Rightarrow> time \<Rightarrow> entry" where
  "new_root created modified =
     Entry \<lparr>e_name = ''/'', e_isDir = True, e_size = 0, e_mode = 493, e_createdAt = created,
            e_modTime = modified, e_status = [], e_fileID = [], e_replicas = []\<rparr> []"

definition NewMetadataServer :: "time \<Rightarrow> time \<Rightarrow> mds" where
  "NewMetadataServer created modified =
     \<lparr>root = new_root created modified, dataNodes = [], lastHeartbeat = [], replicaCount = 3,
      repairing = [], heartbeatTimeout = 10 * minute, replicateInterval = 5 * minute\<rparr>"

definition lookup :: "mds \<Rightarrow> string \<Rightarrow> entry option" where
  "lookup s path = lookup_entry (root s) (splitPath path)"

end
