(* ===== verification/Apply_Ops.thy ===== *)
theory Apply_Ops
  imports Mds_State
begin

text \<open>
  The state machine of the metadata server: \<^verbatim>\<open>internal/metadata/apply.go\<close> and the dispatch
  of \<^verbatim>\<open>Apply\<close> (\<^verbatim>\<open>state_machine.go\<close>). Every operation takes the reading of
  \<^verbatim>\<open>time.Now()\<close> it would make as its first argument. An error return leaves the state as
  it is: in the source every error return comes before the first write.
\<close>

definition applyHeartbeat :: "time \<Rightarrow> commandPayload \<Rightarrow> mds \<Rightarrow> mds result" where
  "applyHeartbeat now p s =
     (let found = (p_Addr p \<in> set (dataNodes s));
          nodes = (if \<not> found then dataNodes s @ [p_Addr p] else dataNodes s)
      in Inr (s\<lparr>dataNodes := nodes, lastHeartbeat := AList.update (p_Addr p) now (lastHeartbeat s)\<rparr>))"

definition applyRemoveDataNode :: "commandPayload \<Rightarrow> mds \<Rightarrow> mds result" where
  "applyRemoveDataNode p s =
     Inr (s\<lparr>dataNodes := remove1 (p_Addr p) (dataNodes s),
            lastHeartbeat := AList.delete (p_Addr p) (lastHeartbeat s)\<rparr>)"

definition new_dir :: "time \<Rightarrow> string \<Rightarrow> string \<Rightarrow> entry" where
  "new_dir now name fid =
     Entry \<lparr>e_name = name, e_isDir = True, e_size = 0, e_mode = 493, e_createdAt = now,
            e_modTime = now, e_status = [], e_fileID = fid, e_replicas = []\<rparr> []"

definition applyMkdir :: "time \<Rightarrow> commandPayload \<Rightarrow> mds \<Rightarrow> mds result" where
  "applyMkdir now p s =
     (let parts = splitPath (p_Path p) in
      if parts = [] then Inl (''invalid path: '' @ p_Path p)
      else (case walk_dirs 0 (root s) (butlast parts) of
          Inl (i, part) \<Rightarrow>
            Inl (''parent directory not found: '' @ p_Path p @ '' (at level '' @ show_nat i @
                 '': '' @ part @ '')'')
        | Inr current \<Rightarrow>
            (let lastPart = last parts in
             case map_of (children current) lastPart of
               Some child \<Rightarrow>
                 if \<not> isDir child
                 then Inl (p_Path p @ '' is not a directory: '' @ p_Path p)
                 else Inr s
             | None \<Rightarrow>
                 Inr (s\<lparr>root := update_at (butlast parts)
                          (\<lambda>cur. touch now (set_child lastPart (new_dir now lastPart (p_FileID p)) cur))
                          (root s)\<rparr>))))"

definition new_file :: "time \<Rightarrow> time \<Rightarrow> string \<Rightarrow> string \<Rightarrow> commandPayload \<Rightarrow> entry" where
  "new_file now created name fid p =
     Entry \<lparr>e_name = name, e_isDir = False, e_size = p_Size p, e_mode = 420,
            e_createdAt = created, e_modTime = now, e_status = StatusPending, e_fileID = fid,
            e_replicas = p_Replicas p\<rparr> []"

definition applyCreateFile :: "time \<Rightarrow> commandPayload \<Rightarrow> mds \<Rightarrow> mds result" where
  "applyCreateFile now p s =
     (let parts = splitPath (p_Path p) in
      if parts = [] then Inl (''invalid path: '' @ p_Path p)
      else
       (let dirParts = butlast parts; fileName = last parts in
        case walk_dirs 0 (root s) dirParts of
          Inl _ \<Rightarrow> Inl (''parent directory not found: '' @ p_Path p)
        | Inr current \<Rightarrow>
           (let store = (\<lambda>created fid. Inr (s\<lparr>root := update_at dirParts
                  (\<lambda>cur. touch now (set_child fileName (new_file now created fileName fid p) cur))
                  (root s)\<rparr>))
            in case map_of (children current) fileName of
              Some existing \<Rightarrow>
                if isDir existing
                then Inl (p_Path p @ '' is a directory, cannot create file with same name'')
                else if p_CreateMode p \<noteq> OverwriteIfExists
                then Inl (''file already exists: '' @ p_Path p)
                else store (e_createdAt (attr existing)) (e_fileID (attr existing))
            | None \<Rightarrow> store now (p_FileID p))))"

definition applyCompleteFile :: "time \<Rightarrow> commandPayload \<Rightarrow> mds \<Rightarrow> mds result" where
  "applyCompleteFile now p s =
     (case lookup s (p_Path p) of
        None \<Rightarrow> Inl (''path not found: '' @ p_Path p)
      | Some e \<Rightarrow>
          if isDir e then Inl (p_Path p @ '' is a directory, cannot complete'')
          else Inr (s\<lparr>root := update_at (splitPath (p_Path p))
                 (set_attr (\<lambda>a. a\<lparr>e_status := StatusComplete, e_modTime := now\<rparr>)) (root s)\<rparr>))"

definition applyDelete :: "time \<Rightarrow> commandPayload \<Rightarrow> mds \<Rightarrow> mds result" where
  "applyDelete now p s =
     (let parts = splitPath (p_Path p) in
      if parts = [] then Inl ''cannot delete root''
      else
       (let dirParts = butlast parts; fileName = last parts in
        case walk_dirs 0 (root s) dirParts of
          Inl _ \<Rightarrow> Inl (''path not found: '' @ p_Path p)
        | Inr current \<Rightarrow>
           (case map_of (children current) fileName of
              None \<Rightarrow> Inl (''path not found: '' @ p_Path p)
            | Some _ \<Rightarrow>
                Inr (s\<lparr>root := update_at dirParts
                       (\<lambda>cur. touch now (del_child fileName cur)) (root s)\<rparr>))))"

text \<open>
  The ancestor walk of \<^verbatim>\<open>applyRename\<close>: \<open>walked\<close> is the path from the root to
  \<^verbatim>\<open>ancestor\<close>, so the pointer test \<^verbatim>\<open>ancestor == srcEntry\<close> is \<open>walked = src\<close>.
  The break out of the loop and the loop's end both run into the test behind the loop.
\<close>

fun ancestor_found :: "string list \<Rightarrow> string list \<Rightarrow> entry \<Rightarrow> string list \<Rightarrow> bool" where
  "ancestor_found src walked ancestor [] = (walked = src)"
| "ancestor_found src walked ancestor (part # parts) =
     (if walked = src then True
      else (case map_of (children ancestor) part of
              None \<Rightarrow> walked = src
            | Some child \<Rightarrow>
                if \<not> isDir child then walked = src
                else ancestor_found src (walked @ [part]) child parts))"

text \<open>The pointer surgery at the end of \<^verbatim>\<open>applyRename\<close>, one mutation after the other.\<close>

definition move_entry ::
  "time \<Rightarrow> string list \<Rightarrow> string list \<Rightarrow> entry \<Rightarrow> bool \<Rightarrow> entry \<Rightarrow> entry" where
  "move_entry now srcParts dstParts srcEntry dstExists tree =
     (let srcDir = butlast srcParts; srcName = last srcParts;
          dstDir = butlast dstParts; dstName = last dstParts;
          tree = (if dstExists then update_at dstDir (del_child dstName) tree else tree);
          tree = update_at srcDir (del_child srcName) tree;
          srcEntry = set_attr (\<lambda>a. a\<lparr>e_name := dstName\<rparr>) srcEntry;
          tree = update_at dstDir (set_child dstName srcEntry) tree;
          tree = update_at srcDir (touch now) tree;
          tree = update_at dstDir (touch now) tree
      in update_at dstParts (touch now) tree)"

definition applyRename :: "time \<Rightarrow> commandPayload \<Rightarrow> mds \<Rightarrow> mds result" where
  "applyRename now p s =
     (let srcParts = splitPath (p_Path p); dstParts = splitPath (p_DstPath p) in
      if srcParts = [] \<or> dstParts = []
      then Inl (''invalid path: src='' @ p_Path p @ '' dst='' @ p_DstPath p)
      else
       (case walk_dirs 0 (root s) (butlast srcParts) of
          Inl _ \<Rightarrow> Inl (''source path not found: '' @ p_Path p)
        | Inr srcParent \<Rightarrow>
           (case map_of (children srcParent) (last srcParts) of
              None \<Rightarrow> Inl (''source path not found: '' @ p_Path p)
            | Some srcEntry \<Rightarrow>
                if isDir srcEntry \<and> ancestor_found srcParts [] (root s) (butlast dstParts)
                then Inl (''cannot move directory into its own subtree: '' @ p_Path p @
                          '' -> '' @ p_DstPath p)
                else
                 (case walk_dirs 0 (root s) (butlast dstParts) of
                    Inl _ \<Rightarrow> Inl (''destination parent directory not found: '' @ p_DstPath p)
                  | Inr dstParent \<Rightarrow>
                     (case map_of (children dstParent) (last dstParts) of
                        Some dstEntry \<Rightarrow>
                          if isDir dstEntry
                          then Inl (''destination is an existing directory: '' @ p_DstPath p)
                          else Inr (s\<lparr>root := move_entry now srcParts dstParts srcEntry True (root s)\<rparr>)
                      | None \<Rightarrow>
                          Inr (s\<lparr>root := move_entry now srcParts dstParts srcEntry False (root s)\<rparr>))))))"

definition applyUpdateSize :: "time \<Rightarrow> commandPayload \<Rightarrow> mds \<Rightarrow> mds result" where
  "applyUpdateSize now p s =
     (case lookup s (p_Path p) of
        None \<Rightarrow> Inl (''path not found: '' @ p_Path p)
      | Some e \<Rightarrow>
          if isDir e then Inl (p_Path p @ '' is a directory, cannot update size'')
          else if e_status (attr e) = StatusRecovering
          then Inl (''file is recovering, write not allowed: '' @ p_Path p)
          else Inr (s\<lparr>root := update_at (splitPath (p_Path p))
                 (set_attr (\<lambda>a. a\<lparr>e_size := p_NewSize p, e_modTime := now\<rparr>)) (root s)\<rparr>))"

definition applyUpdateReplicas :: "time \<Rightarrow> commandPayload \<Rightarrow> mds \<Rightarrow> mds result" where
  "applyUpdateReplicas now p s =
     (case lookup s (p_Path p) of
        None \<Rightarrow> Inl (''path not found: '' @ p_Path p)
      | Some e \<Rightarrow>
          if isDir e then Inl (p_Path p @ '' is a directory, cannot update replicas'')
          else if length (p_NewReplicas p) = 0
          then Inl (''new replicas must not be empty: '' @ p_Path p)
          else Inr (s\<lparr>root := update_at (splitPath (p_Path p))
                 (set_attr (\<lambda>a. a\<lparr>e_replicas := p_NewReplicas p, e_modTime := now\<rparr>)) (root s)\<rparr>))"

definition applyUpdateStatus :: "time \<Rightarrow> commandPayload \<Rightarrow> mds \<Rightarrow> mds result" where
  "applyUpdateStatus now p s =
     (case lookup s (p_Path p) of
        None \<Rightarrow> Inl (''path not found: '' @ p_Path p)
      | Some e \<Rightarrow>
          if isDir e then Inl (p_Path p @ '' is a directory, cannot update status'')
          else if p_NewStatus p \<noteq> StatusComplete \<and> p_NewStatus p \<noteq> StatusRecovering \<and>
                  p_NewStatus p \<noteq> StatusPending
          then Inl (''invalid target status: '' @ p_NewStatus p)
          else Inr (s\<lparr>root := update_at (splitPath (p_Path p))
                 (set_attr (\<lambda>a. a\<lparr>e_status := p_NewStatus p, e_modTime := now\<rparr>)) (root s)\<rparr>))"

subsection \<open>Dispatch\<close>

definition apply_payload :: "time \<Rightarrow> string \<Rightarrow> commandPayload \<Rightarrow> mds \<Rightarrow> mds result" where
  "apply_payload now op p s =
     (if op = OpHeartbeat then applyHeartbeat now p s
      else if op = OpRemoveDataNode then applyRemoveDataNode p s
      else if op = OpMkdir then applyMkdir now p s
      else if op = OpCreateFile then applyCreateFile now p s
      else if op = OpCompleteFile then applyCompleteFile now p s
      else if op = OpDelete then applyDelete now p s
      else if op = OpRename then applyRename now p s
      else if op = OpUpdateSize then applyUpdateSize now p s
      else if op = OpUpdateReplicas then applyUpdateReplicas now p s
      else if op = OpUpdateStatus then applyUpdateStatus now p s
      else Inl (''unknown command op: '' @ op))"

text \<open>
  A log entry carries its payload as bytes. The encoding is Go's JSON; the bytes are an abstract
  type here, and the pair of functions is an argument.
\<close>

record 'd codec =
  Marshal :: "commandPayload \<Rightarrow> 'd result"
  Unmarshal :: "'d \<Rightarrow> commandPayload result"

definition Apply :: "'d codec \<Rightarrow> time \<Rightarrow> string \<Rightarrow> 'd \<Rightarrow> mds \<Rightarrow> mds result" where
  "Apply codec now op data s =
     (case Unmarshal codec data of
        Inl err \<Rightarrow> Inl (''unmarshal command payload failed: '' @ err)
      | Inr payload \<Rightarrow> apply_payload now op payload s)"

end
