(* ===== verification/Namespace_Spec.thy ===== *)
theory Namespace_Spec
  imports Apply_Ops
begin

text \<open>
  What the metadata operations promise, stated without a tree: a namespace is a partial map from
  paths to attributes, each operation a function from namespaces to namespaces that is
  \<^const>\<open>None\<close> where the operation is refused. \<open>Apply_Refines\<close> proves that the code's tree
  operations compute exactly these functions.
\<close>

type_synonym namespace = "string list \<Rightarrow> entry_attr option"

definition is_dir_at :: "namespace \<Rightarrow> string list \<Rightarrow> bool" where
  "is_dir_at m q = (case m q of Some a \<Rightarrow> e_isDir a | None \<Rightarrow> False)"

definition is_file_at :: "namespace \<Rightarrow> string list \<Rightarrow> bool" where
  "is_file_at m q = (case m q of Some a \<Rightarrow> \<not> e_isDir a | None \<Rightarrow> False)"

definition touched :: "time \<Rightarrow> entry_attr option \<Rightarrow> entry_attr option" where
  "touched now = map_option (\<lambda>a. a\<lparr>e_modTime := now\<rparr>)"

text \<open>A directory is made below an existing directory; an existing directory is left as it is.\<close>

definition spec_mkdir :: "time \<Rightarrow> string list \<Rightarrow> string \<Rightarrow> namespace \<Rightarrow> namespace option" where
  "spec_mkdir now q fid m =
     (if q = [] \<or> \<not> is_dir_at m (butlast q) \<or> is_file_at m q then None
      else if is_dir_at m q then Some m
      else Some (m(q := Some (attr (new_dir now (last q) fid)),
                   butlast q := touched now (m (butlast q)))))"

text \<open>
  A file is made below an existing directory. Over an existing file it is refused unless the
  command asks for overwriting; then identity and creation time are those of the old file.
\<close>

definition spec_create :: "time \<Rightarrow> string list \<Rightarrow> commandPayload \<Rightarrow> namespace \<Rightarrow> namespace option" where
  "spec_create now q p m =
     (if q = [] \<or> \<not> is_dir_at m (butlast q) \<or> is_dir_at m q \<or>
         is_file_at m q \<and> p_CreateMode p \<noteq> OverwriteIfExists then None
      else Some (m(q := Some (case m q of
                     None \<Rightarrow> attr (new_file now now (last q) (p_FileID p) p)
                   | Some a \<Rightarrow> attr (new_file now (e_createdAt a) (last q) (e_fileID a) p)),
                   butlast q := touched now (m (butlast q)))))"

text \<open>Deletion takes the whole subtree.\<close>

definition spec_delete :: "time \<Rightarrow> string list \<Rightarrow> namespace \<Rightarrow> namespace option" where
  "spec_delete now q m =
     (if q = [] \<or> m q = None then None
      else Some (\<lambda>r. if prefix q r then None
                     else if r = butlast q then touched now (m r) else m r))"

text \<open>
  A rename moves the subtree at \<open>src\<close> to \<open>dst\<close>, over an existing file if there is one, never
  over a directory and never into the moved subtree.
\<close>

definition spec_moved :: "time \<Rightarrow> string list \<Rightarrow> string list \<Rightarrow> namespace \<Rightarrow> namespace" where
  "spec_moved now src dst m = (\<lambda>q.
     if q = dst then map_option (\<lambda>a. a\<lparr>e_name := last dst, e_modTime := now\<rparr>) (m src)
     else if prefix dst q then m (src @ drop (length dst) q)
     else if prefix src q then None
     else if q = butlast src \<or> q = butlast dst then touched now (m q)
     else m q)"

definition spec_rename :: "time \<Rightarrow> string list \<Rightarrow> string list \<Rightarrow> namespace \<Rightarrow> namespace option" where
  "spec_rename now src dst m =
     (if src = [] \<or> dst = [] \<or> m src = None \<or> prefix src (butlast dst) \<or>
         \<not> is_dir_at m (butlast dst) \<or> is_dir_at m dst then None
      else Some (spec_moved now src dst m))"

text \<open>An update of one file's attributes, allowed when the file's attributes pass a test.\<close>

definition spec_update ::
  "(entry_attr \<Rightarrow> bool) \<Rightarrow> (entry_attr \<Rightarrow> entry_attr) \<Rightarrow> string list \<Rightarrow> namespace \<Rightarrow> namespace option" where
  "spec_update ok f q m =
     (case m q of None \<Rightarrow> None
      | Some a \<Rightarrow> if e_isDir a \<or> \<not> ok a then None else Some (m(q := Some (f a))))"

definition spec_apply :: "time \<Rightarrow> string \<Rightarrow> commandPayload \<Rightarrow> namespace \<Rightarrow> namespace option" where
  "spec_apply now op p m =
     (let q = splitPath (p_Path p) in
      if op = OpHeartbeat \<or> op = OpRemoveDataNode then Some m
      else if op = OpMkdir then spec_mkdir now q (p_FileID p) m
      else if op = OpCreateFile then spec_create now q p m
      else if op = OpCompleteFile then
        spec_update (\<lambda>_. True) (\<lambda>a. a\<lparr>e_status := StatusComplete, e_modTime := now\<rparr>) q m
      else if op = OpDelete then spec_delete now q m
      else if op = OpRename then spec_rename now q (splitPath (p_DstPath p)) m
      else if op = OpUpdateSize then
        spec_update (\<lambda>a. e_status a \<noteq> StatusRecovering)
          (\<lambda>a. a\<lparr>e_size := p_NewSize p, e_modTime := now\<rparr>) q m
      else if op = OpUpdateReplicas then
        spec_update (\<lambda>_. p_NewReplicas p \<noteq> [])
          (\<lambda>a. a\<lparr>e_replicas := p_NewReplicas p, e_modTime := now\<rparr>) q m
      else if op = OpUpdateStatus then
        spec_update (\<lambda>_. p_NewStatus p \<in> {StatusComplete, StatusRecovering, StatusPending})
          (\<lambda>a. a\<lparr>e_status := p_NewStatus p, e_modTime := now\<rparr>) q m
      else None)"

end
