(* ===== verification/Apply_Refines.thy ===== *)
theory Apply_Refines
  imports Namespace_Spec
begin

text \<open>
  The tree operations of \<open>Apply_Ops\<close> compute the namespace functions of \<open>Namespace_Spec\<close>:
  for a well-formed tree, an operation succeeds exactly when its specification does, and the
  namespace of the resulting tree is the specified one. Along with it, every operation keeps the
  tree well-formed.
\<close>

definition result_ns :: "mds result \<Rightarrow> namespace option" where
  "result_ns r = (case r of Inl _ \<Rightarrow> None | Inr s \<Rightarrow> Some (ns (root s)))"

lemma result_ns_simps [simp]:
  "result_ns (Inl err) = None" "result_ns (Inr s) = Some (ns (root s))"
  by (simp_all add: result_ns_def)

subsection \<open>Parents and children\<close>

lemma lookup_entry_parent:
  assumes "lookup_entry t (butlast q) = Some d" "q \<noteq> []"
  shows "lookup_entry t q = map_of (children d) (last q)"
proof -
  have "lookup_entry t (butlast q @ [last q]) = map_of (children d) (last q)"
    using assms(1) unfolding lookup_entry_append by (auto split: option.split)
  with assms(2) show ?thesis by simp
qed

lemma is_dir_at_ns: "is_dir_at (ns t) q \<longleftrightarrow> (\<exists>d. lookup_entry t q = Some d \<and> isDir d)"
  by (auto simp: is_dir_at_def ns_def split: option.split)

lemma is_file_at_ns: "is_file_at (ns t) q \<longleftrightarrow> (\<exists>d. lookup_entry t q = Some d \<and> \<not> isDir d)"
  by (auto simp: is_file_at_def ns_def split: option.split)

lemma walk_dirs_cases:
  assumes "wf_root t"
  obtains (found) d where "walk_dirs i t q = Inr d" "lookup_entry t q = Some d" "isDir d"
      "is_dir_at (ns t) q" "wf_entry d"
    | (missing) x where "walk_dirs i t q = Inl x" "\<not> is_dir_at (ns t) q"
proof (cases "walk_dirs i t q")
  case (Inl x)
  then have "\<not> is_dir_at (ns t) q"
    using assms walk_dirs_Inr_iff [of t i q] by (auto simp: wf_root_def is_dir_at_ns)
  with Inl show ?thesis by (rule missing)
next
  case (Inr d)
  with assms walk_dirs_Inr_iff [of t i q d]
  have "lookup_entry t q = Some d" "isDir d" by (auto simp: wf_root_def)
  with Inr show ?thesis using assms
    by (intro found) (auto simp: is_dir_at_ns wf_root_def intro: wf_entry_lookup)
qed

lemma walk_dirs_to_dir:
  assumes "wf_root t" "is_dir_at (ns t) q"
  obtains d where "walk_dirs i t q = Inr d" "lookup_entry t q = Some d"
  using assms walk_dirs_Inr_iff [of t i q] by (auto simp: is_dir_at_ns wf_root_def)

text \<open>Nothing lies below a missing path or below a file.\<close>

lemma ns_below_missing: "ns t q = None \<Longrightarrow> ns t (q @ r) = None"
  by (simp add: ns_def lookup_entry_append)

lemma ns_below_file:
  assumes "wf_entry t" "ns t q = Some a" "\<not> e_isDir a" "r \<noteq> []"
  shows "ns t (q @ r) = None"
proof -
  from assms(2) obtain d where d: "lookup_entry t q = Some d" "attr d = a"
    by (auto simp: ns_def)
  with assms(1,3) have "children d = []"
    by (auto intro: wf_entry_file_child wf_entry_lookup)
  with d assms(4) show ?thesis by (cases r) (auto simp: ns_append ns_Cons)
qed

lemma below_cases:
  assumes "prefix p r"
  obtains "r = p" "\<not> prefix (p @ [k]) r"
    | w where "r = p @ k # w" "prefix (p @ [k]) r" "drop (length (p @ [k])) r = w"
    | x w where "r = p @ x # w" "x \<noteq> k" "\<not> prefix (p @ [k]) r"
proof -
  from assms obtain v where v: "r = p @ v" by (auto simp: prefix_def)
  show ?thesis
  proof (cases v)
    case Nil
    with v show ?thesis by (intro that(1)) auto
  next
    case (Cons x w)
    with v show ?thesis
      by (cases "x = k") (auto intro: that(2) that(3))
  qed
qed

text \<open>The namespace after \<^verbatim>\<open>current.children[name] = c; current.modTime = now\<close>.\<close>

lemma ns_insert_child:
  assumes "lookup_entry t p = Some d"
  shows "ns (update_at p (\<lambda>cur. touch now (set_child k c cur)) t) r =
    (if r = p then touched now (ns t r)
     else if prefix (p @ [k]) r then ns c (drop (Suc (length p)) r) else ns t r)"
proof (cases "prefix p r")
  case False
  then have "\<not> prefix (p @ [k]) r" "r \<noteq> p" by (auto simp: prefix_def)
  with False assms show ?thesis by (simp add: ns_update_at)
next
  case True
  from assms have td: "ns t p = Some (attr d)" by (simp add: ns_def)
  from True show ?thesis
    by (rule below_cases [where k = k])
      (use assms td in \<open>simp_all add: ns_update_at touched_def ns_append ns_simps\<close>)
qed

text \<open>The namespace after \<^verbatim>\<open>delete(current.children, name)\<close>.\<close>

lemma ns_remove_child:
  assumes "lookup_entry t p = Some d"
  shows "ns (update_at p (del_child k) t) r = (if prefix (p @ [k]) r then None else ns t r)"
proof (cases "prefix p r")
  case False
  then have "\<not> prefix (p @ [k]) r" by (auto simp: prefix_def)
  with False assms show ?thesis by (simp add: ns_update_at)
next
  case True
  from assms have td: "ns t p = Some (attr d)" by (simp add: ns_def)
  from True show ?thesis
    by (rule below_cases [where k = k])
      (use assms td in \<open>simp_all add: ns_update_at ns_append ns_simps\<close>)
qed

lemma ns_attr_update:
  assumes "lookup_entry t q = Some d"
  shows "ns (update_at q (set_attr f) t) = (ns t)(q := Some (f (attr d)))"
proof
  fix r
  show "ns (update_at q (set_attr f) t) r = ((ns t)(q := Some (f (attr d)))) r"
    using assms by (auto simp: ns_update_at ns_set_attr ns_append prefix_def)
qed

text \<open>
  The setting of every operation that works on the last component of a path: the parent
  directory, the child, and what the namespace says about both.
\<close>

lemma parent_setting:
  assumes "wf_root t" "q \<noteq> []" "lookup_entry t (butlast q) = Some d"
  shows "map_of (children d) (last q) = lookup_entry t q"
    and "ns t q = map_option attr (map_of (children d) (last q))"
  using lookup_entry_parent [OF assms(3,2)] by (simp_all add: ns_def)

lemma ns_below_None:
  assumes "wf_root t" "ns t q = None \<or> is_file_at (ns t) q" "prefix q r" "r \<noteq> q"
  shows "ns t r = None"
proof -
  from assms(3,4) obtain w where "r = q @ w" "w \<noteq> []" by (auto simp: prefix_def)
  with assms show ?thesis
    by (auto simp: is_file_at_def wf_root_def ns_below_missing split: option.splits
        intro: ns_below_file)
qed

text \<open>Storing a childless node at \<open>q\<close> where nothing lies below \<open>q\<close>.\<close>

lemma ns_insert_leaf:
  assumes "wf_root t" "q \<noteq> []" "lookup_entry t (butlast q) = Some d"
    and "ns t q = None \<or> is_file_at (ns t) q"
  shows "ns (update_at (butlast q) (\<lambda>cur. touch now (set_child (last q) (Entry a []) cur)) t) =
    (ns t)(q := Some a, butlast q := touched now (ns t (butlast q)))"
proof
  fix r
  have q: "butlast q @ [last q] = q" and len: "Suc (length (butlast q)) = length q"
    using assms(2) by simp_all
  have "q \<noteq> butlast q" using assms(2) by (metis append_butlast_last_id not_Cons_self2 self_append_conv)
  moreover have "ns (Entry a []) (drop (length q) r) = ns t r" if "prefix q r" "r \<noteq> q"
    using that ns_below_None [OF assms(1,4) that] by (auto simp: prefix_def)
  ultimately show "ns (update_at (butlast q) (\<lambda>cur. touch now (set_child (last q) (Entry a []) cur)) t) r =
    ((ns t)(q := Some a, butlast q := touched now (ns t (butlast q)))) r"
    using ns_insert_child [OF assms(3), of now "last q" "Entry a []" r] q len by auto
qed

lemma wf_insert_child:
  assumes "wf_root t" "lookup_entry t p = Some d" "isDir d"
    and "wf_entry c" "valid_name k" "e_name (attr c) = k"
  shows "wf_root (update_at p (\<lambda>cur. touch now (set_child k c cur)) t)"
proof (rule wf_root_update_at [OF assms(1,2)])
  from assms have "wf_entry d" by (auto simp: wf_root_def intro: wf_entry_lookup)
  with assms show "wf_entry (touch now (set_child k c d))"
    by (simp add: wf_entry_touch wf_entry_set_child)
qed simp_all

lemma wf_remove_child:
  assumes "wf_root t" "lookup_entry t p = Some d"
  shows "wf_root (update_at p (del_child k) t)"
proof (rule wf_root_update_at [OF assms])
  from assms have "wf_entry d" by (auto simp: wf_root_def intro: wf_entry_lookup)
  then show "wf_entry (del_child k d)" by (rule wf_entry_del_child)
qed simp_all

lemma wf_attr_update:
  assumes "wf_root t" "\<And>a. e_name (f a) = e_name a" "\<And>a. e_isDir (f a) = e_isDir a"
  shows "wf_root (update_at q (set_attr f) t)"
proof (cases "lookup_entry t q")
  case None
  with assms show ?thesis by (simp add: update_at_missing)
next
  case (Some d)
  show ?thesis
  proof (rule wf_root_update_at [OF assms(1) Some])
    from assms(1) Some have "wf_entry d" by (auto simp: wf_root_def intro: wf_entry_lookup)
    then show "wf_entry (set_attr f d)" by (rule wf_entry_set_attr) (simp add: assms(3))
  qed (simp_all add: assms)
qed

lemma wf_touch_at: "wf_root t \<Longrightarrow> wf_root (update_at q (touch now) t)"
  by (simp add: touch_def wf_attr_update)

lemma last_valid: "q = splitPath path \<Longrightarrow> q \<noteq> [] \<Longrightarrow> valid_name (last q)"
  using splitPath_valid [of "last q" path] by simp

subsection \<open>Mkdir\<close>

lemma applyMkdir_refines:
  assumes "wf_root (root s)"
  shows "result_ns (applyMkdir now p s) =
    spec_mkdir now (splitPath (p_Path p)) (p_FileID p) (ns (root s))"
proof -
  define q where "q = splitPath (p_Path p)"
  note defs = applyMkdir_def spec_mkdir_def Let_def q_def [symmetric]
  show ?thesis
  proof (cases "q = []")
    case True
    then show ?thesis by (simp add: defs)
  next
    case False
    from assms show ?thesis
    proof (rule walk_dirs_cases [where i = 0 and q = "butlast q"])
      fix x
      assume "walk_dirs 0 (root s) (butlast q) = Inl x" "\<not> is_dir_at (ns (root s)) (butlast q)"
      with False show ?thesis by (cases x) (simp add: defs)
    next
      fix d
      assume w: "walk_dirs 0 (root s) (butlast q) = Inr d"
        and d: "lookup_entry (root s) (butlast q) = Some d" "is_dir_at (ns (root s)) (butlast q)"
      note par = parent_setting [OF assms False d(1)]
      show ?thesis
      proof (cases "lookup_entry (root s) q")
        case None
        then have nn: "ns (root s) q = None" by (simp add: ns_def)
        with None show ?thesis
          using w d False par ns_insert_leaf [OF assms False d(1), of now]
          by (simp add: defs new_dir_def is_dir_at_def is_file_at_def)
      next
        case (Some c)
        with w d False par show ?thesis
          by (auto simp: defs is_dir_at_ns is_file_at_ns)
      qed
    qed
  qed
qed

lemma applyMkdir_wf:
  assumes "wf_root (root s)" "applyMkdir now p s = Inr s'"
  shows "wf_root (root s')"
proof -
  define q where "q = splitPath (p_Path p)"
  from assms(1) show ?thesis
  proof (rule walk_dirs_cases [where i = 0 and q = "butlast q"])
    fix d
    assume "walk_dirs 0 (root s) (butlast q) = Inr d" "isDir d"
      and "lookup_entry (root s) (butlast q) = Some d"
    with assms show ?thesis
      by (auto simp: applyMkdir_def Let_def q_def [symmetric] new_dir_def keys_def
          intro!: wf_insert_child last_valid [OF q_def]
          split: if_splits option.splits)
  qed (use assms(2) in \<open>auto simp: applyMkdir_def Let_def q_def [symmetric] split: if_splits\<close>)
qed

subsection \<open>CreateFile\<close>

lemma applyCreateFile_refines:
  assumes "wf_root (root s)"
  shows "result_ns (applyCreateFile now p s) =
    spec_create now (splitPath (p_Path p)) p (ns (root s))"
proof -
  define q where "q = splitPath (p_Path p)"
  note defs = applyCreateFile_def spec_create_def Let_def q_def [symmetric]
  show ?thesis
  proof (cases "q = []")
    case True
    then show ?thesis by (simp add: defs)
  next
    case False
    from assms show ?thesis
    proof (rule walk_dirs_cases [where i = 0 and q = "butlast q"])
      fix x
      assume "walk_dirs 0 (root s) (butlast q) = Inl x" "\<not> is_dir_at (ns (root s)) (butlast q)"
      with False show ?thesis by (simp add: defs)
    next
      fix d
      assume w: "walk_dirs 0 (root s) (butlast q) = Inr d"
        and d: "lookup_entry (root s) (butlast q) = Some d" "is_dir_at (ns (root s)) (butlast q)"
      note par = parent_setting [OF assms False d(1)]
      note leaf = ns_insert_leaf [OF assms False d(1), of now]
      show ?thesis
      proof (cases "lookup_entry (root s) q")
        case None
        then have nn: "ns (root s) q = None" by (simp add: ns_def)
        with None show ?thesis
          using w d False par leaf
          by (simp add: defs new_file_def is_dir_at_def is_file_at_def)
      next
        case (Some c)
        then have nc: "ns (root s) q = Some (attr c)" by (simp add: ns_def)
        with Some w d False par leaf show ?thesis
          by (simp add: defs new_file_def is_dir_at_def is_file_at_def)
      qed
    qed
  qed
qed

lemma applyCreateFile_wf:
  assumes "wf_root (root s)" "applyCreateFile now p s = Inr s'"
  shows "wf_root (root s')"
proof -
  define q where "q = splitPath (p_Path p)"
  from assms(1) show ?thesis
  proof (rule walk_dirs_cases [where i = 0 and q = "butlast q"])
    fix d
    assume "walk_dirs 0 (root s) (butlast q) = Inr d" "isDir d"
      and "lookup_entry (root s) (butlast q) = Some d"
    with assms show ?thesis
      by (auto simp: applyCreateFile_def Let_def q_def [symmetric] new_file_def keys_def
          intro!: wf_insert_child last_valid [OF q_def]
          split: if_splits option.splits)
  qed (use assms(2) in \<open>auto simp: applyCreateFile_def Let_def q_def [symmetric] split: if_splits\<close>)
qed

subsection \<open>Delete\<close>

lemma update_at_fuse:
  "update_at p f (update_at p g t) = update_at p (\<lambda>e. f (g e)) t"
proof (induction p arbitrary: t)
  case Nil
  show ?case by simp
next
  case (Cons k p)
  show ?case by (cases "map_of (children t) k") (simp_all add: Cons.IH)
qed

lemma applyDelete_refines:
  assumes "wf_root (root s)"
  shows "result_ns (applyDelete now p s) = spec_delete now (splitPath (p_Path p)) (ns (root s))"
proof -
  define q where "q = splitPath (p_Path p)"
  note defs = applyDelete_def spec_delete_def Let_def q_def [symmetric]
  show ?thesis
  proof (cases "q = []")
    case True
    then show ?thesis by (simp add: defs)
  next
    case False
    then have qd: "butlast q @ [last q] = q" by simp
    from assms show ?thesis
    proof (rule walk_dirs_cases [where i = 0 and q = "butlast q"])
      fix x
      assume x: "walk_dirs 0 (root s) (butlast q) = Inl x" "\<not> is_dir_at (ns (root s)) (butlast q)"
      have "ns (root s) q = None"
      proof (cases "ns (root s) (butlast q)")
        case None
        from ns_below_missing [OF this, of "[last q]"] False show ?thesis by simp
      next
        case (Some a)
        with x(2) have "\<not> e_isDir a" by (simp add: is_dir_at_def)
        with Some assms ns_below_file [of "root s" "butlast q" a "[last q]"] False
        show ?thesis by (simp add: wf_root_def)
      qed
      with x False show ?thesis by (simp add: defs)
    next
      fix d
      assume w: "walk_dirs 0 (root s) (butlast q) = Inr d"
        and d: "lookup_entry (root s) (butlast q) = Some d" "is_dir_at (ns (root s)) (butlast q)"
      note par = parent_setting [OF assms False d(1)]
      show ?thesis
      proof (cases "lookup_entry (root s) q")
        case None
        then have "ns (root s) q = None" by (simp add: ns_def)
        with None w par False show ?thesis by (simp add: defs)
      next
        case (Some c)
        define t1 where "t1 = update_at (butlast q) (del_child (last q)) (root s)"
        have t1: "ns t1 r = (if prefix q r then None else ns (root s) r)" for r
          using ns_remove_child [OF d(1), of "last q" r] qd by (simp add: t1_def)
        have l1: "lookup_entry t1 (butlast q) = Some (del_child (last q) d)"
          using lookup_update_at_prefix [OF d(1), of _ "[]"] by (simp add: t1_def)
        have bq: "ns (root s) (butlast q) = Some (attr d)" using d(1) by (simp add: ns_def)
        have "ns (update_at (butlast q) (\<lambda>cur. touch now (del_child (last q) cur)) (root s)) =
            ns (update_at (butlast q) (touch now) t1)"
          by (simp add: t1_def update_at_fuse)
        also have "\<dots> = (ns t1)(butlast q := touched now (ns (root s) (butlast q)))"
          using ns_attr_update [OF l1] by (simp add: touch_def touched_def bq)
        also have "\<dots> = (\<lambda>r. if prefix q r then None
            else if r = butlast q then touched now (ns (root s) r) else ns (root s) r)"
          using False by (auto simp: t1 fun_eq_iff)
        finally show ?thesis using Some w par False by (simp add: defs ns_def [of "root s" q])
      qed
    qed
  qed
qed

lemma applyDelete_wf:
  assumes "wf_root (root s)" "applyDelete now p s = Inr s'"
  shows "wf_root (root s')"
proof -
  define q where "q = splitPath (p_Path p)"
  from assms(2) obtain d c where d: "walk_dirs 0 (root s) (butlast q) = Inr d"
    and s': "s' = s\<lparr>root := update_at (butlast q) (\<lambda>cur. touch now (del_child (last q) cur)) (root s)\<rparr>"
    by (auto simp: applyDelete_def Let_def q_def [symmetric] split: if_splits sum.splits option.splits)
  from walk_dirs_lookup [OF d] assms(1) s' show ?thesis
    by (simp add: wf_touch_at wf_remove_child flip: update_at_fuse)
qed

subsection \<open>Updates of one file\<close>

lemma file_update_refines:
  assumes "lookup s path = Some e" "\<not> isDir e" "ok (attr e)"
  shows "Some (ns (update_at (splitPath path) (set_attr f) (root s))) =
    spec_update ok f (splitPath path) (ns (root s))"
  using assms ns_attr_update [of "root s" "splitPath path" e f]
  by (simp add: lookup_def spec_update_def ns_def [of "root s" "splitPath path"])

lemma file_update_refused:
  "lookup s path = None \<Longrightarrow> spec_update ok f (splitPath path) (ns (root s)) = None"
  "lookup s path = Some e \<Longrightarrow> isDir e \<or> \<not> ok (attr e) \<Longrightarrow>
     spec_update ok f (splitPath path) (ns (root s)) = None"
  by (auto simp: lookup_def spec_update_def ns_def)

lemmas file_updates = applyCompleteFile_def applyUpdateSize_def applyUpdateReplicas_def
  applyUpdateStatus_def

lemma applyCompleteFile_refines:
  "result_ns (applyCompleteFile now p s) =
    spec_update (\<lambda>_. True) (\<lambda>a. a\<lparr>e_status := StatusComplete, e_modTime := now\<rparr>)
      (splitPath (p_Path p)) (ns (root s))"
  by (auto simp: file_updates file_update_refines file_update_refused split: option.split)

lemma applyUpdateSize_refines:
  "result_ns (applyUpdateSize now p s) =
    spec_update (\<lambda>a. e_status a \<noteq> StatusRecovering)
      (\<lambda>a. a\<lparr>e_size := p_NewSize p, e_modTime := now\<rparr>) (splitPath (p_Path p)) (ns (root s))"
  by (auto simp: file_updates file_update_refused split: option.split
      intro: file_update_refines [where ok = "\<lambda>a. e_status a \<noteq> StatusRecovering"])

lemma applyUpdateReplicas_refines:
  "result_ns (applyUpdateReplicas now p s) =
    spec_update (\<lambda>_. p_NewReplicas p \<noteq> [])
      (\<lambda>a. a\<lparr>e_replicas := p_NewReplicas p, e_modTime := now\<rparr>) (splitPath (p_Path p)) (ns (root s))"
  by (auto simp: file_updates file_update_refines file_update_refused split: option.split)

lemma applyUpdateStatus_refines:
  "result_ns (applyUpdateStatus now p s) =
    spec_update (\<lambda>_. p_NewStatus p \<in> {StatusComplete, StatusRecovering, StatusPending})
      (\<lambda>a. a\<lparr>e_status := p_NewStatus p, e_modTime := now\<rparr>) (splitPath (p_Path p)) (ns (root s))"
  by (auto simp: file_updates file_update_refines file_update_refused split: option.split)

lemma file_updates_wf:
  assumes "wf_root (root s)"
  shows "applyCompleteFile now p s = Inr s' \<Longrightarrow> wf_root (root s')"
    and "applyUpdateSize now p s = Inr s' \<Longrightarrow> wf_root (root s')"
    and "applyUpdateReplicas now p s = Inr s' \<Longrightarrow> wf_root (root s')"
    and "applyUpdateStatus now p s = Inr s' \<Longrightarrow> wf_root (root s')"
  using assms by (auto simp: file_updates wf_attr_update split: option.splits if_splits)

subsection \<open>Rename\<close>

lemma ancestor_found_D:
  "ancestor_found src walked anc rest \<Longrightarrow> \<exists>r1 r2. rest = r1 @ r2 \<and> walked @ r1 = src"
proof (induction src walked anc rest rule: ancestor_found.induct)
  case (1 src walked anc)
  then show ?case by simp
next
  case (2 src walked anc part parts)
  show ?case
  proof (cases "walked = src")
    case True
    then show ?thesis by simp
  next
    case False
    with "2.prems" obtain c where c: "map_of (children anc) part = Some c" "isDir c"
      and af: "ancestor_found src (walked @ [part]) c parts"
      by (auto split: option.splits if_splits)
    from "2.IH" [OF False c(1)] c(2) af obtain r1 r2
      where "parts = r1 @ r2" "(walked @ [part]) @ r1 = src" by auto
    then show ?thesis by (intro exI [of _ "part # r1"] exI [of _ r2]) simp
  qed
qed

lemma ancestor_found_I:
  "wf_entry anc \<Longrightarrow> lookup_entry anc r1 = Some e \<Longrightarrow> isDir e \<Longrightarrow>
     ancestor_found (walked @ r1) walked anc (r1 @ r2)"
proof (induction r1 arbitrary: walked anc)
  case Nil
  then show ?case by (cases r2) simp_all
next
  case (Cons k r1)
  from Cons.prems(2) obtain c where c: "map_of (children anc) k = Some c"
    and e: "lookup_entry c r1 = Some e" by (auto split: option.splits)
  from wf_entry_child [OF Cons.prems(1) c] have wf: "wf_entry c" by simp
  have "isDir c"
  proof (rule ccontr)
    assume "\<not> isDir c"
    with wf_entry_file_child [OF wf] e Cons.prems(3) show False by (cases r1) auto
  qed
  with Cons.IH [OF wf e Cons.prems(3), of "walked @ [k]"] c show ?case by simp
qed

text \<open>For an existing source directory, the walk of the code decides the prefix relation.\<close>

lemma ancestor_found_iff:
  assumes "wf_root t" "lookup_entry t src = Some e" "isDir e"
  shows "ancestor_found src [] t dst \<longleftrightarrow> prefix src dst"
proof
  assume "ancestor_found src [] t dst"
  from ancestor_found_D [OF this] show "prefix src dst" by (auto simp: prefix_def)
next
  assume "prefix src dst"
  then obtain r where "dst = src @ r" by (auto simp: prefix_def)
  with ancestor_found_I [of t src e "[]" r] assms show "ancestor_found src [] t dst"
    by (simp add: wf_root_def)
qed

lemma ns_store_child:
  assumes "lookup_entry t p = Some d"
  shows "ns (update_at p (set_child k c) t) r =
    (if prefix (p @ [k]) r then ns c (drop (Suc (length p)) r) else ns t r)"
proof (cases "prefix p r")
  case False
  then have "\<not> prefix (p @ [k]) r" by (auto simp: prefix_def)
  with False assms show ?thesis by (simp add: ns_update_at)
next
  case True
  from assms have td: "ns t p = Some (attr d)" by (simp add: ns_def)
  from True show ?thesis
    by (rule below_cases [where k = k])
      (use assms td in \<open>simp_all add: ns_update_at ns_append ns_simps\<close>)
qed

lemma ns_touch_at: "ns (update_at q (touch now) t) = (ns t)(q := touched now (ns t q))"
proof (cases "lookup_entry t q")
  case None
  then show ?thesis by (simp add: update_at_missing ns_def touched_def fun_upd_idem)
next
  case (Some d)
  then show ?thesis by (simp add: touch_def ns_attr_update touched_def ns_def [of t q])
qed

lemma ns_Some_lookup: "ns t q = Some a \<Longrightarrow> \<exists>d. lookup_entry t q = Some d \<and> attr d = a"
  by (auto simp: ns_def)

lemma touched_idem [simp]: "touched now (touched now a) = touched now a"
  by (cases a) (simp_all add: touched_def)

lemma dst_not_above_dir:
  assumes "wf_root t" "\<not> is_dir_at (ns t) dst" "is_dir_at (ns t) p"
  shows "\<not> prefix dst p"
proof
  assume pre: "prefix dst p"
  show False
  proof (cases "p = dst")
    case False
    have "ns t dst = None \<or> is_file_at (ns t) dst"
      using assms(2) by (auto simp: is_dir_at_def is_file_at_def split: option.splits)
    from ns_below_None [OF assms(1) this pre False] assms(3) show ?thesis
      by (simp add: is_dir_at_def)
  qed (use assms in simp)
qed

text \<open>The surgery of \<open>move_entry\<close>, under the conditions \<^verbatim>\<open>applyRename\<close> has checked.\<close>

lemma ns_move_entry:
  assumes wf: "wf_root t" and src: "src \<noteq> []" "lookup_entry t src = Some e"
    and sd: "is_dir_at (ns t) (butlast src)"
    and dst: "dst \<noteq> []" "is_dir_at (ns t) (butlast dst)" "\<not> is_dir_at (ns t) dst"
    and nosub: "\<not> prefix src (butlast dst)"
    and ex: "ex \<longleftrightarrow> ns t dst \<noteq> None"
  shows "ns (move_entry now src dst e ex t) = spec_moved now src dst (ns t)"
    and "valid_name (last dst) \<Longrightarrow> wf_root (move_entry now src dst e ex t)"
proof -
  define e' where "e' = set_attr (\<lambda>a. a\<lparr>e_name := last dst\<rparr>) e"
  define t1 where "t1 = (if ex then update_at (butlast dst) (del_child (last dst)) t else t)"
  define t2 where "t2 = update_at (butlast src) (del_child (last src)) t1"
  define t3 where "t3 = update_at (butlast dst) (set_child (last dst) e') t2"
  define t4 where "t4 = update_at (butlast src) (touch now) t3"
  define t5 where "t5 = update_at (butlast dst) (touch now) t4"
  have move: "move_entry now src dst e ex t = update_at dst (touch now) t5"
    by (simp add: move_entry_def Let_def t1_def t2_def t3_def t4_def t5_def e'_def)
  have qs: "butlast src @ [last src] = src" "Suc (length (butlast src)) = length src"
    "butlast dst @ [last dst] = dst" "Suc (length (butlast dst)) = length dst"
    using src dst by simp_all
  from dst(2) obtain dp where dp: "lookup_entry t (butlast dst) = Some dp" "isDir dp"
    by (auto simp: is_dir_at_ns)
  from sd obtain sp where sp: "lookup_entry t (butlast src) = Some sp"
    by (auto simp: is_dir_at_ns)
  have nd: "\<not> prefix dst (butlast src)" by (rule dst_not_above_dir [OF wf dst(3) sd])
  have t1: "ns t1 r = (if prefix dst r then None else ns t r)" for r
  proof (cases ex)
    case True
    then show ?thesis using ns_remove_child [OF dp(1), of "last dst" r] qs by (simp add: t1_def)
  next
    case False
    with ex have "ns t dst = None" by simp
    then have "prefix dst r \<Longrightarrow> ns t r = None" by (auto simp: prefix_def ns_below_missing)
    with False show ?thesis by (simp add: t1_def)
  qed
  have "ns t1 (butlast src) = Some (attr sp)" using t1 nd sp by (simp add: ns_def [of t])
  then obtain sp1 where sp1: "lookup_entry t1 (butlast src) = Some sp1"
    using ns_Some_lookup by blast
  have t2: "ns t2 r = (if prefix src r then None else ns t1 r)" for r
    using ns_remove_child [OF sp1, of "last src" r] qs by (simp add: t2_def)
  have "ns t2 (butlast dst) = Some (attr dp)"
    using t2 t1 nosub dst(1) dp by (simp add: ns_def [of t])
  then obtain dp2 where dp2: "lookup_entry t2 (butlast dst) = Some dp2" "isDir dp2"
    using ns_Some_lookup dp(2) by (metis option.inject)
  have t3: "ns t3 r = (if prefix dst r then ns e' (drop (length dst) r) else ns t2 r)" for r
    using ns_store_child [OF dp2(1), of "last dst" e' r] qs by (simp add: t3_def)
  have e': "ns e' r = (if r = [] then Some ((attr e)\<lparr>e_name := last dst\<rparr>) else ns t (src @ r))" for r
    by (simp add: e'_def ns_set_attr ns_append [OF src(2)])
  have src_at: "ns t src = Some (attr e)" using src by (simp add: ns_def)
  have t5: "ns t5 r =
      (if r = butlast src \<or> r = butlast dst then touched now (ns t3 r) else ns t3 r)" for r
    by (simp add: t5_def t4_def ns_touch_at)
  have t6: "ns (move_entry now src dst e ex t) r =
      (if r = dst then touched now (ns t5 r) else ns t5 r)" for r
    by (simp add: move ns_touch_at)
  show "ns (move_entry now src dst e ex t) = spec_moved now src dst (ns t)"
  proof
    fix r
    consider "r = dst" | "prefix dst r" "r \<noteq> dst" | "\<not> prefix dst r" by auto
    then show "ns (move_entry now src dst e ex t) r = spec_moved now src dst (ns t) r"
    proof cases
      case 1
      have "dst \<noteq> butlast src" using nd by auto
      with 1 dst(1) show ?thesis
        by (simp add: t6 t5 t3 e'_def spec_moved_def src_at touched_def)
    next
      case 2
      then have "r \<noteq> butlast src" "r \<noteq> butlast dst" using nd dst(1) by auto
      moreover from 2 have "drop (length dst) r \<noteq> []" by (auto simp: prefix_def)
      ultimately show ?thesis using 2 by (simp add: t6 t5 t3 e' spec_moved_def)
    next
      case 3
      then have "ns t3 r = (if prefix src r then None else ns t r)" by (simp add: t3 t2 t1)
      moreover have "touched now None = None" by (simp add: touched_def)
      ultimately show ?thesis using 3 by (auto simp: t6 t5 spec_moved_def)
    qed
  qed
  show "wf_root (move_entry now src dst e ex t)" if "valid_name (last dst)"
  proof -
    from wf src have "wf_entry e" by (auto simp: wf_root_def intro: wf_entry_lookup)
    then have wfe: "wf_entry e'" unfolding e'_def by (rule wf_entry_set_attr) simp
    have "wf_root t1" using wf wf_remove_child [OF wf dp(1)] by (simp add: t1_def)
    then have wf2: "wf_root t2" unfolding t2_def by (rule wf_remove_child [OF _ sp1])
    with dp2 have "wf_entry dp2" by (auto simp: wf_root_def intro: wf_entry_lookup)
    then have "wf_entry (set_child (last dst) e' dp2)"
      using dp2 wfe that by (intro wf_entry_set_child) (simp_all add: e'_def)
    with wf2 dp2 have "wf_root t3" unfolding t3_def by (intro wf_root_update_at) simp_all
    then show ?thesis by (simp add: move t5_def t4_def wf_touch_at)
  qed
qed

lemma applyRename_success:
  assumes wf: "wf_root (root s)" and ok: "applyRename now p s = Inr s'"
  obtains e where "lookup_entry (root s) (splitPath (p_Path p)) = Some e"
    and "s' = s\<lparr>root := move_entry now (splitPath (p_Path p)) (splitPath (p_DstPath p)) e
           (ns (root s) (splitPath (p_DstPath p)) \<noteq> None) (root s)\<rparr>"
    and "splitPath (p_Path p) \<noteq> []" "splitPath (p_DstPath p) \<noteq> []"
    and "is_dir_at (ns (root s)) (butlast (splitPath (p_Path p)))"
    and "is_dir_at (ns (root s)) (butlast (splitPath (p_DstPath p)))"
    and "\<not> is_dir_at (ns (root s)) (splitPath (p_DstPath p))"
    and "\<not> prefix (splitPath (p_Path p)) (butlast (splitPath (p_DstPath p)))"
proof -
  define src where "src = splitPath (p_Path p)"
  define dst where "dst = splitPath (p_DstPath p)"
  note defs = applyRename_def Let_def src_def [symmetric] dst_def [symmetric]
  from ok have ne: "src \<noteq> []" "dst \<noteq> []" by (auto simp: defs split: if_splits)
  from ok ne obtain sp e dp where
    sp: "walk_dirs 0 (root s) (butlast src) = Inr sp"
    and e: "map_of (children sp) (last src) = Some e"
    and noanc: "\<not> (isDir e \<and> ancestor_found src [] (root s) (butlast dst))"
    and dp: "walk_dirs 0 (root s) (butlast dst) = Inr dp"
    by (auto simp: defs split: sum.splits option.splits if_splits)
  from sp dp wf have spl: "lookup_entry (root s) (butlast src) = Some sp" "isDir sp"
    and dpl: "lookup_entry (root s) (butlast dst) = Some dp" "isDir dp"
    by (simp_all add: wf_root_def walk_dirs_Inr_iff)
  have src_at: "lookup_entry (root s) src = Some e"
    using parent_setting(1) [OF wf ne(1) spl(1)] e by simp
  have dst_at: "map_of (children dp) (last dst) = lookup_entry (root s) dst"
    by (rule parent_setting(1) [OF wf ne(2) dpl(1)])
  have nosub: "\<not> prefix src (butlast dst)"
  proof (cases "isDir e")
    case True
    with noanc ancestor_found_iff [OF wf src_at] show ?thesis by simp
  next
    case False
    then have "\<not> is_dir_at (ns (root s)) src" using src_at by (simp add: is_dir_at_ns)
    moreover have "is_dir_at (ns (root s)) (butlast dst)" using dpl by (simp add: is_dir_at_ns)
    ultimately show ?thesis by (rule dst_not_above_dir [OF wf])
  qed
  have "\<not> is_dir_at (ns (root s)) dst \<and>
      s' = s\<lparr>root := move_entry now src dst e (ns (root s) dst \<noteq> None) (root s)\<rparr>"
  proof (cases "lookup_entry (root s) dst")
    case None
    with ok ne sp e noanc dp dst_at show ?thesis by (auto simp: defs is_dir_at_ns ns_def)
  next
    case (Some de)
    with ok ne sp e noanc dp dst_at show ?thesis
      by (auto simp: defs is_dir_at_ns ns_def split: if_splits)
  qed
  with src_at ne spl dpl nosub show ?thesis
    by (intro that [of e]) (auto simp: src_def [symmetric] dst_def [symmetric] is_dir_at_ns)
qed

lemma applyRename_refines:
  assumes wf: "wf_root (root s)"
  shows "result_ns (applyRename now p s) =
    spec_rename now (splitPath (p_Path p)) (splitPath (p_DstPath p)) (ns (root s))"
proof (cases "applyRename now p s")
  case (Inr s')
  from wf Inr show ?thesis
  proof (rule applyRename_success)
    fix e
    assume a: "lookup_entry (root s) (splitPath (p_Path p)) = Some e"
      "s' = s\<lparr>root := move_entry now (splitPath (p_Path p)) (splitPath (p_DstPath p)) e
           (ns (root s) (splitPath (p_DstPath p)) \<noteq> None) (root s)\<rparr>"
      "splitPath (p_Path p) \<noteq> []" "splitPath (p_DstPath p) \<noteq> []"
      "is_dir_at (ns (root s)) (butlast (splitPath (p_Path p)))"
      "is_dir_at (ns (root s)) (butlast (splitPath (p_DstPath p)))"
      "\<not> is_dir_at (ns (root s)) (splitPath (p_DstPath p))"
      "\<not> prefix (splitPath (p_Path p)) (butlast (splitPath (p_DstPath p)))"
    from ns_move_entry(1) [OF wf a(3,1,5,4,6,7,8) refl, of now] a Inr show ?thesis
      by (simp add: spec_rename_def ns_def [of _ "splitPath (p_Path p)"])
  qed
next
  case (Inl err)
  define src where "src = splitPath (p_Path p)"
  define dst where "dst = splitPath (p_DstPath p)"
  note defs = applyRename_def Let_def src_def [symmetric] dst_def [symmetric]
  have "spec_rename now src dst (ns (root s)) = None"
  proof (rule ccontr)
    assume "spec_rename now src dst (ns (root s)) \<noteq> None"
    then have ne: "src \<noteq> []" "dst \<noteq> []" "ns (root s) src \<noteq> None"
      and nosub: "\<not> prefix src (butlast dst)"
      and dd: "is_dir_at (ns (root s)) (butlast dst)" "\<not> is_dir_at (ns (root s)) dst"
      by (auto simp: spec_rename_def split: if_splits)
    from ne obtain e where e: "lookup_entry (root s) src = Some e" by (auto simp: ns_def)
    have sd: "is_dir_at (ns (root s)) (butlast src)"
    proof (rule ccontr)
      assume "\<not> is_dir_at (ns (root s)) (butlast src)"
      then have "ns (root s) (butlast src) = None \<or> is_file_at (ns (root s)) (butlast src)"
        by (auto simp: is_dir_at_def is_file_at_def split: option.splits)
      from ns_below_None [OF wf this prefix_butlast] ne show False by simp
    qed
    obtain sp where sp: "walk_dirs 0 (root s) (butlast src) = Inr sp"
      "lookup_entry (root s) (butlast src) = Some sp"
      by (rule walk_dirs_to_dir [OF wf sd])
    obtain dp where dp: "walk_dirs 0 (root s) (butlast dst) = Inr dp"
      "lookup_entry (root s) (butlast dst) = Some dp"
      by (rule walk_dirs_to_dir [OF wf dd(1)])
    have "\<not> (isDir e \<and> ancestor_found src [] (root s) (butlast dst))"
      using ancestor_found_iff [OF wf e] nosub by auto
    moreover have "map_of (children sp) (last src) = Some e"
      using parent_setting(1) [OF wf ne(1) sp(2)] e by simp
    moreover have "map_of (children dp) (last dst) = lookup_entry (root s) dst"
      by (rule parent_setting(1) [OF wf ne(2) dp(2)])
    ultimately show False
      using Inl ne sp dp dd(2)
      by (auto simp: defs is_dir_at_ns split: option.splits if_splits)
  qed
  with Inl show ?thesis by (simp add: src_def dst_def)
qed

lemma applyRename_wf:
  assumes wf: "wf_root (root s)" and ok: "applyRename now p s = Inr s'"
  shows "wf_root (root s')"
  using assms
proof (rule applyRename_success)
  fix e
  assume a: "lookup_entry (root s) (splitPath (p_Path p)) = Some e"
    "s' = s\<lparr>root := move_entry now (splitPath (p_Path p)) (splitPath (p_DstPath p)) e
         (ns (root s) (splitPath (p_DstPath p)) \<noteq> None) (root s)\<rparr>"
    "splitPath (p_Path p) \<noteq> []" "splitPath (p_DstPath p) \<noteq> []"
    "is_dir_at (ns (root s)) (butlast (splitPath (p_Path p)))"
    "is_dir_at (ns (root s)) (butlast (splitPath (p_DstPath p)))"
    "\<not> is_dir_at (ns (root s)) (splitPath (p_DstPath p))"
    "\<not> prefix (splitPath (p_Path p)) (butlast (splitPath (p_DstPath p)))"
  from ns_move_entry(2) [OF wf a(3,1,5,4,6,7,8) refl last_valid [OF refl a(4)], of now] a(2)
  show ?thesis by simp
qed

subsection \<open>Every command\<close>

lemma apply_payload_refines:
  assumes "wf_root (root s)"
  shows "result_ns (apply_payload now op p s) = spec_apply now op p (ns (root s))"
  using assms
  by (simp add: apply_payload_def spec_apply_def Let_def applyHeartbeat_def applyRemoveDataNode_def
      applyMkdir_refines applyCreateFile_refines applyCompleteFile_refines applyDelete_refines
      applyRename_refines applyUpdateSize_refines applyUpdateReplicas_refines
      applyUpdateStatus_refines)

lemma apply_payload_wf:
  assumes "wf_root (root s)" "apply_payload now op p s = Inr s'"
  shows "wf_root (root s')"
  using assms
  by (auto simp: apply_payload_def applyHeartbeat_def applyRemoveDataNode_def Let_def
      intro: applyMkdir_wf applyCreateFile_wf applyDelete_wf applyRename_wf file_updates_wf
      split: if_splits)

end
