(* ===== verification/Apply_Invariants.thy ===== *)
theory Apply_Invariants
  imports Apply_Refines
begin

text \<open>
  The invariants of the metadata server's state and their preservation by every command. They are
  proved on the namespace: a property of attributes that survives the attribute changes of the
  specification holds at every path of every reachable tree.
\<close>

subsection \<open>Properties of all nodes\<close>

definition ns_all :: "(entry_attr \<Rightarrow> bool) \<Rightarrow> namespace \<Rightarrow> bool" where
  "ns_all P m \<longleftrightarrow> (\<forall>q a. m q = Some a \<longrightarrow> P a)"

definition tree_all :: "(entry_attr \<Rightarrow> bool) \<Rightarrow> entry \<Rightarrow> bool" where
  "tree_all P t \<longleftrightarrow> (\<forall>a \<in> set (entries t). P a)"

lemma tree_all_ns: "wf_entry t \<Longrightarrow> tree_all P t \<longleftrightarrow> ns_all P (ns t)"
  by (auto simp: tree_all_def ns_all_def set_entries_ns)

text \<open>Attribute properties that do not look at the name or the modification time.\<close>

definition stable :: "(entry_attr \<Rightarrow> bool) \<Rightarrow> bool" where
  "stable P \<longleftrightarrow> (\<forall>a n t. P a \<longrightarrow> P (a\<lparr>e_modTime := t\<rparr>) \<and> P (a\<lparr>e_name := n, e_modTime := t\<rparr>))"

lemma ns_all_touched: "stable P \<Longrightarrow> ns_all P m \<Longrightarrow> touched now (m q) = Some a \<Longrightarrow> P a"
  by (auto simp: stable_def ns_all_def touched_def)

lemma spec_mkdir_all:
  assumes "spec_mkdir now q fid m = Some m'" "ns_all P m" "stable P" "P (attr (new_dir now (last q) fid))"
  shows "ns_all P m'"
  using assms ns_all_touched [OF assms(3,2)]
  by (fastforce simp: spec_mkdir_def ns_all_def split: if_splits)

lemma spec_create_all:
  assumes "spec_create now q p m = Some m'" "ns_all P m" "stable P"
    and "m q = None \<Longrightarrow> P (attr (new_file now now (last q) (p_FileID p) p))"
    and "\<And>a. m q = Some a \<Longrightarrow> \<not> e_isDir a \<Longrightarrow> p_CreateMode p = OverwriteIfExists \<Longrightarrow>
           P (attr (new_file now (e_createdAt a) (last q) (e_fileID a) p))"
  shows "ns_all P m'"
proof -
  have new: "P (case m q of None \<Rightarrow> attr (new_file now now (last q) (p_FileID p) p)
      | Some a \<Rightarrow> attr (new_file now (e_createdAt a) (last q) (e_fileID a) p))"
    using assms(1,4,5)
    by (auto simp: spec_create_def is_dir_at_def is_file_at_def split: if_splits option.splits)
  show ?thesis
    using assms(1,2) new ns_all_touched [OF assms(3,2)]
    by (fastforce simp: spec_create_def ns_all_def split: if_splits)
qed

lemma spec_delete_all:
  assumes "spec_delete now q m = Some m'" "ns_all P m" "stable P"
  shows "ns_all P m'"
  using assms(1,2) ns_all_touched [OF assms(3,2)]
  by (fastforce simp: spec_delete_def ns_all_def split: if_splits)

lemma spec_rename_all:
  assumes "spec_rename now src dst m = Some m'" "ns_all P m" "stable P"
  shows "ns_all P m'"
proof -
  have "P a" if "spec_moved now src dst m q = Some a" for q a
    using that assms(2,3) ns_all_touched [OF assms(3,2)]
    by (auto simp: spec_moved_def ns_all_def stable_def split: if_splits)
  with assms(1) show ?thesis by (auto simp: spec_rename_def ns_all_def split: if_splits)
qed

lemma spec_update_all:
  assumes "spec_update ok f q m = Some m'" "ns_all P m"
    and "\<And>a. m q = Some a \<Longrightarrow> ok a \<Longrightarrow> \<not> e_isDir a \<Longrightarrow> P a \<Longrightarrow> P (f a)"
  shows "ns_all P m'"
  using assms by (auto simp: spec_update_def ns_all_def split: option.splits if_splits)

subsection \<open>File states\<close>

definition status_ok :: "entry_attr \<Rightarrow> bool" where
  "status_ok a \<longleftrightarrow> e_isDir a \<or> e_status a \<in> {StatusPending, StatusComplete, StatusRecovering}"

lemma stable_status_ok [simp]: "stable status_ok"
  by (simp add: stable_def status_ok_def)

lemma spec_apply_status:
  assumes "spec_apply now op p m = Some m'" "ns_all status_ok m"
  shows "ns_all status_ok m'"
  using assms
  by (auto simp: spec_apply_def Let_def status_ok_def new_dir_def new_file_def
      split: if_splits
      elim!: spec_mkdir_all spec_create_all spec_delete_all spec_rename_all spec_update_all)

subsection \<open>Replica placement\<close>

text \<open>
  The identity model: the data of a file lives at \<^verbatim>\<open>/data/{FileID}\<close> on every replica. The
  garbage collector relies on it.
\<close>

definition placed_at :: "string \<Rightarrow> Replica list \<Rightarrow> bool" where
  "placed_at fid rs \<longleftrightarrow> (\<forall>r \<in> set rs. r_RemotePath r = data_dir @ fid)"

definition placed :: "entry_attr \<Rightarrow> bool" where
  "placed a \<longleftrightarrow> e_isDir a \<or> placed_at (e_fileID a) (e_replicas a)"

lemma stable_placed [simp]: "stable placed"
  by (simp add: stable_def placed_def)

text \<open>
  What a command has to respect for the model to survive: new replicas are placed under the
  identity the file will have. Overwriting an existing file does not, see \<open>Gc_Cycle\<close>.
\<close>

definition identity_ok :: "string \<Rightarrow> commandPayload \<Rightarrow> namespace \<Rightarrow> bool" where
  "identity_ok op p m \<longleftrightarrow>
     (op = OpCreateFile \<longrightarrow> placed_at (p_FileID p) (p_Replicas p) \<and>
        (p_CreateMode p = OverwriteIfExists \<longrightarrow> m (splitPath (p_Path p)) = None)) \<and>
     (op = OpUpdateReplicas \<longrightarrow>
        (\<forall>a. m (splitPath (p_Path p)) = Some a \<longrightarrow> placed_at (e_fileID a) (p_NewReplicas p)))"

lemma spec_apply_placed:
  assumes "spec_apply now op p m = Some m'" "ns_all placed m" "identity_ok op p m"
  shows "ns_all placed m'"
  using assms
  by (auto simp: spec_apply_def Let_def identity_ok_def placed_def new_dir_def new_file_def
      split: if_splits
      elim!: spec_mkdir_all spec_create_all spec_delete_all spec_rename_all spec_update_all)

subsection \<open>The server's invariant\<close>

text \<open>
  The tree is well-formed and its files are in one of the three states; the registered data nodes
  are distinct and are exactly the nodes with a recorded heartbeat.
\<close>

definition nodes_ok :: "mds \<Rightarrow> bool" where
  "nodes_ok s \<longleftrightarrow> distinct (dataNodes s) \<and> distinct (keys (lastHeartbeat s)) \<and>
     set (keys (lastHeartbeat s)) = set (dataNodes s)"

definition mds_inv :: "mds \<Rightarrow> bool" where
  "mds_inv s \<longleftrightarrow> wf_root (root s) \<and> tree_all status_ok (root s) \<and> nodes_ok s"

lemma wf_new_root: "wf_root (new_root t1 t2)"
  by (simp add: new_root_def wf_root_def keys_def)

lemma mds_inv_new: "mds_inv (NewMetadataServer t1 t2)"
  using wf_new_root [of t1 t2]
  by (simp add: mds_inv_def NewMetadataServer_def nodes_ok_def keys_def tree_all_def new_root_def
      status_ok_def)

lemma applyHeartbeat_nodes:
  assumes "nodes_ok s" "applyHeartbeat now p s = Inr s'"
  shows "nodes_ok s'"
proof -
  from assms(2) have "s' = s\<lparr>dataNodes :=
      (if p_Addr p \<notin> set (dataNodes s) then dataNodes s @ [p_Addr p] else dataNodes s),
      lastHeartbeat := AList.update (p_Addr p) now (lastHeartbeat s)\<rparr>"
    unfolding applyHeartbeat_def Let_def by (rule sum.inject(2) [THEN iffD1, symmetric])
  with assms(1) show ?thesis
    by (cases "p_Addr p \<in> set (dataNodes s)")
      (simp_all add: nodes_ok_def keys_update distinct_keys_update insert_absorb)
qed

lemma applyRemoveDataNode_nodes: "nodes_ok s \<Longrightarrow> applyRemoveDataNode p s = Inr s' \<Longrightarrow> nodes_ok s'"
  by (auto simp: applyRemoveDataNode_def nodes_ok_def keys_delete distinct_keys_delete)

text \<open>The other commands touch the tree only.\<close>

lemma tree_ops_root:
  "applyMkdir now p s = Inr s' \<Longrightarrow> \<exists>r. s' = s\<lparr>root := r\<rparr>"
  "applyCreateFile now p s = Inr s' \<Longrightarrow> \<exists>r. s' = s\<lparr>root := r\<rparr>"
  "applyDelete now p s = Inr s' \<Longrightarrow> \<exists>r. s' = s\<lparr>root := r\<rparr>"
  "applyRename now p s = Inr s' \<Longrightarrow> \<exists>r. s' = s\<lparr>root := r\<rparr>"
  "applyCompleteFile now p s = Inr s' \<Longrightarrow> \<exists>r. s' = s\<lparr>root := r\<rparr>"
  "applyUpdateSize now p s = Inr s' \<Longrightarrow> \<exists>r. s' = s\<lparr>root := r\<rparr>"
  "applyUpdateReplicas now p s = Inr s' \<Longrightarrow> \<exists>r. s' = s\<lparr>root := r\<rparr>"
  "applyUpdateStatus now p s = Inr s' \<Longrightarrow> \<exists>r. s' = s\<lparr>root := r\<rparr>"
proof -
  have id: "\<exists>r. s = s\<lparr>root := r\<rparr>" by (rule exI [of _ "root s"]) simp
  show "applyMkdir now p s = Inr s' \<Longrightarrow> \<exists>r. s' = s\<lparr>root := r\<rparr>"
    using id by (auto simp: applyMkdir_def Let_def split: if_splits sum.splits option.splits)
qed (auto simp: applyCreateFile_def applyDelete_def applyRename_def file_updates Let_def
      split: if_splits sum.splits option.splits)

lemma apply_payload_root:
  assumes "apply_payload now op p s = Inr s'" "op \<noteq> OpHeartbeat" "op \<noteq> OpRemoveDataNode"
  shows "\<exists>r. s' = s\<lparr>root := r\<rparr>"
  using assms unfolding apply_payload_def
  by (simp split: if_splits add: tree_ops_root)

lemma apply_payload_nodes:
  assumes "nodes_ok s" "apply_payload now op p s = Inr s'"
  shows "nodes_ok s'"
proof (cases "op = OpHeartbeat \<or> op = OpRemoveDataNode")
  case True
  with assms show ?thesis
    by (auto simp: apply_payload_def split: if_splits
        intro: applyHeartbeat_nodes applyRemoveDataNode_nodes)
next
  case False
  with apply_payload_root [OF assms(2)] assms(1) show ?thesis by (auto simp: nodes_ok_def)
qed

lemma apply_payload_ns:
  assumes "wf_root (root s)" "apply_payload now op p s = Inr s'"
  shows "spec_apply now op p (ns (root s)) = Some (ns (root s'))"
  using apply_payload_refines [OF assms(1), of now op p] assms(2) by simp

lemma apply_payload_inv:
  assumes "mds_inv s" "apply_payload now op p s = Inr s'"
  shows "mds_inv s'"
proof -
  from assms have wf: "wf_root (root s)" "wf_root (root s')"
    by (auto simp: mds_inv_def intro: apply_payload_wf)
  from assms(1) wf have "ns_all status_ok (ns (root s))"
    using tree_all_ns [of "root s" status_ok] by (simp add: mds_inv_def wf_root_def)
  from spec_apply_status [OF apply_payload_ns [OF wf(1) assms(2)] this] wf
  have "tree_all status_ok (root s')" by (simp add: wf_root_def tree_all_ns)
  with assms wf show ?thesis by (auto simp: mds_inv_def intro: apply_payload_nodes)
qed

lemma apply_payload_placed:
  assumes "wf_root (root s)" "tree_all placed (root s)" "apply_payload now op p s = Inr s'"
    and "identity_ok op p (ns (root s))"
  shows "tree_all placed (root s')"
proof -
  have wf': "wf_root (root s')" using assms by (auto intro: apply_payload_wf)
  from assms(1,2) have "ns_all placed (ns (root s))" by (simp add: wf_root_def tree_all_ns)
  from spec_apply_placed [OF apply_payload_ns [OF assms(1,3)] this assms(4)] wf'
  show ?thesis by (simp add: wf_root_def tree_all_ns)
qed

end
