(* ===== verification/Clock_Erasure.thy ===== *)
theory Clock_Erasure
  imports Apply_Refines
begin

text \<open>
  \<^verbatim>\<open>Apply\<close> runs on every node of the cluster and reads the node's own clock
  (\<^verbatim>\<open>time.Now()\<close>) while it does. This theory shows that the clock reaches nothing but the
  time stamps: two nodes whose states differ in time stamps only, applying the same command at
  different times, report the same error or reach states that differ in time stamps only.
\<close>

definition erase_attr :: "entry_attr \<Rightarrow> entry_attr" where
  "erase_attr a = a\<lparr>e_createdAt := 0, e_modTime := 0\<rparr>"

fun erase_entry :: "entry \<Rightarrow> entry" where
  "erase_entry (Entry a cs) = Entry (erase_attr a) (map (\<lambda>kc. (fst kc, erase_entry (snd kc))) cs)"

text \<open>What is left of a server's replicated state without its clocks.\<close>

definition timeless :: "mds \<Rightarrow> entry \<times> string list \<times> string list" where
  "timeless s = (erase_entry (root s), dataNodes s, keys (lastHeartbeat s))"

definition same_state :: "mds \<Rightarrow> mds \<Rightarrow> bool" where
  "same_state s t \<longleftrightarrow> timeless s = timeless t"

lemma erase_sel [simp]:
  "attr (erase_entry t) = erase_attr (attr t)"
  "children (erase_entry t) = map (\<lambda>kc. (fst kc, erase_entry (snd kc))) (children t)"
  by (cases t; simp)+

lemma erase_attr_sel [simp]:
  "e_name (erase_attr a) = e_name a" "e_isDir (erase_attr a) = e_isDir a"
  "e_size (erase_attr a) = e_size a" "e_status (erase_attr a) = e_status a"
  "e_fileID (erase_attr a) = e_fileID a" "e_replicas (erase_attr a) = e_replicas a"
  "erase_attr (a\<lparr>e_modTime := t\<rparr>) = erase_attr a"
  by (simp_all add: erase_attr_def)

lemma erase_attr_eqD:
  "erase_attr a = erase_attr b \<Longrightarrow> e_isDir a = e_isDir b"
  "erase_attr a = erase_attr b \<Longrightarrow> e_status a = e_status b"
  "erase_attr a = erase_attr b \<Longrightarrow> e_fileID a = e_fileID b"
  by (metis erase_attr_sel)+

text \<open>Field updates respect erasure.\<close>

lemma erase_attr_update:
  assumes "erase_attr a = erase_attr b"
  shows "erase_attr (a\<lparr>e_name := n\<rparr>) = erase_attr (b\<lparr>e_name := n\<rparr>)"
    and "erase_attr (a\<lparr>e_status := st, e_modTime := t1\<rparr>) = erase_attr (b\<lparr>e_status := st, e_modTime := t2\<rparr>)"
    and "erase_attr (a\<lparr>e_size := sz, e_modTime := t1\<rparr>) = erase_attr (b\<lparr>e_size := sz, e_modTime := t2\<rparr>)"
    and "erase_attr (a\<lparr>e_replicas := rs, e_modTime := t1\<rparr>) = erase_attr (b\<lparr>e_replicas := rs, e_modTime := t2\<rparr>)"
  using assms by (cases a; cases b; simp add: erase_attr_def)+

subsection \<open>Walks\<close>

lemma map_of_erase:
  "map_of (map (\<lambda>kc. (fst kc, f (snd kc))) cs) k = map_option f (map_of cs k)"
  by (induction cs) auto

lemma lookup_entry_erase: "lookup_entry (erase_entry t) q = map_option erase_entry (lookup_entry t q)"
  by (induction q arbitrary: t) (auto simp: map_of_erase split: option.split)

lemma walk_dirs_erase: "walk_dirs i (erase_entry t) q = map_sum id erase_entry (walk_dirs i t q)"
  by (induction q arbitrary: i t) (auto simp: map_of_erase split: option.split)

lemma ancestor_found_erase:
  "ancestor_found src walked (erase_entry t) q = ancestor_found src walked t q"
  by (induction q arbitrary: walked t) (auto simp: map_of_erase split: option.split)

lemma same_child:
  assumes "erase_entry t = erase_entry u"
  shows "rel_option (\<lambda>c d. erase_entry c = erase_entry d) (map_of (children t) k) (map_of (children u) k)"
proof -
  from assms have "map_of (children (erase_entry t)) k = map_of (children (erase_entry u)) k" by simp
  then have "map_option erase_entry (map_of (children t) k) = map_option erase_entry (map_of (children u) k)"
    by (simp add: map_of_erase)
  then show ?thesis by (cases "map_of (children t) k"; cases "map_of (children u) k") auto
qed

lemma same_lookup:
  assumes "erase_entry t = erase_entry u"
  shows "rel_option (\<lambda>c d. erase_entry c = erase_entry d) (lookup_entry t q) (lookup_entry u q)"
  using lookup_entry_erase [of t q] lookup_entry_erase [of u q] assms
  by (cases "lookup_entry t q"; cases "lookup_entry u q") auto

lemma same_walk:
  assumes "erase_entry t = erase_entry u"
  shows "rel_sum (=) (\<lambda>c d. erase_entry c = erase_entry d) (walk_dirs i t q) (walk_dirs i u q)"
  using walk_dirs_erase [of i t q] walk_dirs_erase [of i u q] assms
  by (cases "walk_dirs i t q"; cases "walk_dirs i u q") auto

lemma same_walkE:
  assumes "erase_entry t = erase_entry u"
  obtains (Inl) x where "walk_dirs i t q = Inl x" "walk_dirs i u q = Inl x"
    | (Inr) d d' where "walk_dirs i t q = Inr d" "walk_dirs i u q = Inr d'"
        "erase_entry d = erase_entry d'"
  using same_walk [OF assms, of i q] by (cases "walk_dirs i t q"; cases "walk_dirs i u q") auto

lemma same_isDir: "erase_entry c = erase_entry d \<Longrightarrow> isDir c = isDir d"
  by (metis erase_sel(1) erase_attr_sel(2))

lemma same_status: "erase_entry c = erase_entry d \<Longrightarrow> e_status (attr c) = e_status (attr d)"
  by (metis erase_sel(1) erase_attr_sel(4))

lemma same_fileID: "erase_entry c = erase_entry d \<Longrightarrow> e_fileID (attr c) = e_fileID (attr d)"
  by (metis erase_sel(1) erase_attr_sel(5))

subsection \<open>Mutation\<close>

lemma map_update: "map (\<lambda>kc. (fst kc, f (snd kc))) (AList.update k c cs) =
    AList.update k (f c) (map (\<lambda>kc. (fst kc, f (snd kc))) cs)"
  by (induction cs) auto

lemma map_delete: "map (\<lambda>kc. (fst kc, f (snd kc))) (AList.delete k cs) =
    AList.delete k (map (\<lambda>kc. (fst kc, f (snd kc))) cs)"
  by (induction cs) auto

lemma erase_entry_eqI:
  "erase_attr (attr t) = erase_attr (attr u) \<Longrightarrow>
   map (\<lambda>kc. (fst kc, erase_entry (snd kc))) (children t) =
   map (\<lambda>kc. (fst kc, erase_entry (snd kc))) (children u) \<Longrightarrow> erase_entry t = erase_entry u"
  by (cases t; cases u) simp

lemma erase_eqD:
  assumes "erase_entry t = erase_entry u"
  shows "erase_attr (attr t) = erase_attr (attr u)"
    and "map (\<lambda>kc. (fst kc, erase_entry (snd kc))) (children t) =
      map (\<lambda>kc. (fst kc, erase_entry (snd kc))) (children u)"
  using assms by (metis erase_sel)+

lemma same_set_child:
  assumes "erase_entry t = erase_entry u" "erase_entry c = erase_entry d"
  shows "erase_entry (set_child k c t) = erase_entry (set_child k d u)"
  using erase_eqD [OF assms(1)] assms(2) by (intro erase_entry_eqI) (simp_all add: map_update)

lemma same_del_child:
  assumes "erase_entry t = erase_entry u"
  shows "erase_entry (del_child k t) = erase_entry (del_child k u)"
  using erase_eqD [OF assms] by (intro erase_entry_eqI) (simp_all add: map_delete)

lemma same_set_attr:
  assumes "erase_entry t = erase_entry u"
    and "\<And>a b. erase_attr a = erase_attr b \<Longrightarrow> erase_attr (f a) = erase_attr (g b)"
  shows "erase_entry (set_attr f t) = erase_entry (set_attr g u)"
  using erase_eqD [OF assms(1)] assms(2) by (intro erase_entry_eqI) simp_all

lemma same_touch:
  "erase_entry t = erase_entry u \<Longrightarrow> erase_entry (touch now t) = erase_entry (touch now' u)"
  unfolding touch_def by (rule same_set_attr) simp_all

lemma same_update_at:
  assumes "erase_entry t = erase_entry u"
    and "\<And>c d. erase_entry c = erase_entry d \<Longrightarrow> erase_entry (f c) = erase_entry (g d)"
  shows "erase_entry (update_at q f t) = erase_entry (update_at q g u)"
  using assms(1)
proof (induction q arbitrary: t u)
  case Nil
  with assms(2) show ?case by simp
next
  case (Cons k q)
  from same_child [OF Cons.prems, of k] show ?case
  proof (cases rule: option.rel_cases)
    case None
    with Cons.prems show ?thesis by simp
  next
    case (Some c d)
    with same_set_child [OF Cons.prems Cons.IH [OF Some(3)], of k] show ?thesis
      by (simp add: set_child_def)
  qed
qed

lemmas same_intros = same_update_at same_set_child same_del_child same_touch same_set_attr
  erase_attr_update

subsection \<open>Commands\<close>

lemma same_state_iff: "same_state s t \<longleftrightarrow>
    erase_entry (root s) = erase_entry (root t) \<and> dataNodes s = dataNodes t \<and>
    keys (lastHeartbeat s) = keys (lastHeartbeat t)"
  by (simp add: same_state_def timeless_def)

lemma same_state_refl [simp]: "same_state s s"
  by (simp add: same_state_def)

lemma same_state_root:
  "same_state s t \<Longrightarrow> erase_entry r = erase_entry r' \<Longrightarrow> same_state (s\<lparr>root := r\<rparr>) (t\<lparr>root := r'\<rparr>)"
  by (simp add: same_state_iff)

lemma applyHeartbeat_same:
  "same_state s t \<Longrightarrow> rel_sum (=) same_state (applyHeartbeat now p s) (applyHeartbeat now' p t)"
  by (auto simp: same_state_iff applyHeartbeat_def Let_def keys_def update_keys)

lemma applyRemoveDataNode_same:
  "same_state s t \<Longrightarrow> rel_sum (=) same_state (applyRemoveDataNode p s) (applyRemoveDataNode p t)"
  by (auto simp: same_state_iff applyRemoveDataNode_def keys_def delete_keys)

lemma same_new_dir: "erase_entry (new_dir now n fid) = erase_entry (new_dir now' n fid)"
  by (simp add: new_dir_def erase_attr_def)

lemma same_new_file: "erase_entry (new_file now c n fid p) = erase_entry (new_file now' c' n fid p)"
  by (simp add: new_file_def erase_attr_def)

lemma applyMkdir_same:
  assumes st: "same_state s t"
  shows "rel_sum (=) same_state (applyMkdir now p s) (applyMkdir now' p t)"
proof -
  from st have e: "erase_entry (root s) = erase_entry (root t)" by (simp add: same_state_iff)
  define q where "q = splitPath (p_Path p)"
  note defs = applyMkdir_def Let_def q_def [symmetric]
  from e show ?thesis
  proof (cases rule: same_walkE [where i = 0 and q = "butlast q"])
    case (Inl x)
    then show ?thesis by (cases x) (simp add: defs)
  next
    case (Inr d d')
    from same_child [OF Inr(3), of "last q"] show ?thesis
    proof (cases rule: option.rel_cases)
      case None
      with Inr st e show ?thesis
        by (auto simp: defs intro!: same_state_root same_intros same_new_dir)
    next
      case (Some c c')
      with Inr st same_isDir [OF Some(3)] show ?thesis by (simp add: defs)
    qed
  qed
qed

lemma applyCreateFile_same:
  assumes st: "same_state s t"
  shows "rel_sum (=) same_state (applyCreateFile now p s) (applyCreateFile now' p t)"
proof -
  from st have e: "erase_entry (root s) = erase_entry (root t)" by (simp add: same_state_iff)
  define q where "q = splitPath (p_Path p)"
  note defs = applyCreateFile_def Let_def q_def [symmetric]
  from e show ?thesis
  proof (cases rule: same_walkE [where i = 0 and q = "butlast q"])
    case (Inl x)
    then show ?thesis by (simp add: defs)
  next
    case (Inr d d')
    from same_child [OF Inr(3), of "last q"] show ?thesis
    proof (cases rule: option.rel_cases)
      case None
      with Inr st e show ?thesis
        by (auto simp: defs intro!: same_state_root same_intros same_new_file)
    next
      case (Some c c')
      with Inr st e same_isDir [OF Some(3)] same_fileID [OF Some(3)] show ?thesis
        by (auto simp: defs intro!: same_state_root same_intros same_new_file)
    qed
  qed
qed

lemma applyDelete_same:
  assumes st: "same_state s t"
  shows "rel_sum (=) same_state (applyDelete now p s) (applyDelete now' p t)"
proof -
  from st have e: "erase_entry (root s) = erase_entry (root t)" by (simp add: same_state_iff)
  define q where "q = splitPath (p_Path p)"
  note defs = applyDelete_def Let_def q_def [symmetric]
  from e show ?thesis
  proof (cases rule: same_walkE [where i = 0 and q = "butlast q"])
    case (Inl x)
    then show ?thesis by (simp add: defs)
  next
    case (Inr d d')
    from same_child [OF Inr(3), of "last q"] show ?thesis
    proof (cases rule: option.rel_cases)
      case None
      with Inr show ?thesis by (simp add: defs)
    next
      case (Some c c')
      with Inr st e show ?thesis by (auto simp: defs intro!: same_state_root same_intros)
    qed
  qed
qed

lemma same_move_entry:
  "erase_entry t = erase_entry u \<Longrightarrow> erase_entry c = erase_entry d \<Longrightarrow>
     erase_entry (move_entry now src dst c ex t) = erase_entry (move_entry now' src dst d ex u)"
  unfolding move_entry_def Let_def by (auto intro!: same_intros)

lemma applyRename_same:
  assumes st: "same_state s t"
  shows "rel_sum (=) same_state (applyRename now p s) (applyRename now' p t)"
proof -
  from st have e: "erase_entry (root s) = erase_entry (root t)" by (simp add: same_state_iff)
  define src where "src = splitPath (p_Path p)"
  define dst where "dst = splitPath (p_DstPath p)"
  note defs = applyRename_def Let_def src_def [symmetric] dst_def [symmetric]
  from e show ?thesis
  proof (cases rule: same_walkE [where i = 0 and q = "butlast src"])
    case (Inl x)
    then show ?thesis by (simp add: defs)
  next
    case (Inr d d')
    from same_child [OF Inr(3), of "last src"] show ?thesis
    proof (cases rule: option.rel_cases)
      case None
      with Inr show ?thesis by (simp add: defs)
    next
      case (Some c c')
      have anc: "isDir c \<and> ancestor_found src [] (root s) (butlast dst) \<longleftrightarrow>
          isDir c' \<and> ancestor_found src [] (root t) (butlast dst)"
        using ancestor_found_erase [of src "[]" "root s" "butlast dst"]
          ancestor_found_erase [of src "[]" "root t" "butlast dst"] e same_isDir [OF Some(3)] by simp
      from e show ?thesis
      proof (cases rule: same_walkE [where i = 0 and q = "butlast dst"])
        case (Inl x)
        with Inr Some anc show ?thesis by (auto simp: defs)
      next
        case dp: (Inr dp dp')
        from same_child [OF dp(3), of "last dst"] show ?thesis
        proof (cases rule: option.rel_cases)
          case None
          with Inr Some anc dp st e show ?thesis
            by (auto simp: defs intro!: same_state_root same_move_entry)
        next
          case de: (Some de de')
          with Inr Some anc dp st e same_isDir [OF de(3)] show ?thesis
            by (auto simp: defs intro!: same_state_root same_move_entry)
        qed
      qed
    qed
  qed
qed

lemma same_file_update:
  assumes "same_state s t"
    and "\<And>a b. erase_attr a = erase_attr b \<Longrightarrow> erase_attr (f a) = erase_attr (g b)"
  shows "same_state (s\<lparr>root := update_at q (set_attr f) (root s)\<rparr>)
    (t\<lparr>root := update_at q (set_attr g) (root t)\<rparr>)"
  using assms by (intro same_state_root same_update_at same_set_attr) (simp_all add: same_state_iff)

lemma same_lookupE:
  assumes "same_state s t"
  obtains (None) "lookup s path = None" "lookup t path = None"
    | (Some) c d where "lookup s path = Some c" "lookup t path = Some d" "isDir c = isDir d"
        "e_status (attr c) = e_status (attr d)"
proof -
  from assms have "erase_entry (root s) = erase_entry (root t)" by (simp add: same_state_iff)
  from same_lookup [OF this, of "splitPath path"] show ?thesis
  proof (cases rule: option.rel_cases)
    case None
    then show ?thesis by (intro that(1)) (simp_all add: lookup_def)
  next
    case (Some c d)
    with same_isDir [OF Some(3)] same_status [OF Some(3)] show ?thesis
      by (intro that(2) [of c d]) (simp_all add: lookup_def)
  qed
qed

lemma file_updates_same:
  assumes st: "same_state s t"
  shows "rel_sum (=) same_state (applyCompleteFile now p s) (applyCompleteFile now' p t)"
    and "rel_sum (=) same_state (applyUpdateSize now p s) (applyUpdateSize now' p t)"
    and "rel_sum (=) same_state (applyUpdateReplicas now p s) (applyUpdateReplicas now' p t)"
    and "rel_sum (=) same_state (applyUpdateStatus now p s) (applyUpdateStatus now' p t)"
  using st
  by (cases rule: same_lookupE [where path = "p_Path p"];
      auto simp: file_updates intro!: same_file_update [OF st] erase_attr_update)+

lemma apply_payload_same:
  "same_state s t \<Longrightarrow> rel_sum (=) same_state (apply_payload now op p s) (apply_payload now' op p t)"
  by (simp add: apply_payload_def applyHeartbeat_same applyRemoveDataNode_same applyMkdir_same
      applyCreateFile_same applyDelete_same applyRename_same file_updates_same)

lemma Apply_same:
  "same_state s t \<Longrightarrow> rel_sum (=) same_state (Apply codec now op data s) (Apply codec now' op data t)"
  by (auto simp: Apply_def apply_payload_same split: sum.split)

end
