(* ===== verification/Snapshot_Restore.thy ===== *)
theory Snapshot_Restore
  imports Apply_Invariants Clock_Erasure
begin

text \<open>
  Snapshots of the state machine: the serialisation structures of \<^verbatim>\<open>mds.go\<close> and
  \<^verbatim>\<open>Snapshot\<close>/\<^verbatim>\<open>Restore\<close> of \<^verbatim>\<open>state_machine.go\<close>. The bytes of a
  snapshot are an abstract type; the JSON functions on them are an argument.
\<close>

record snap_attr =
  s_Name :: string
  s_IsDir :: bool
  s_Size :: int64
  s_Mode :: uint32
  s_CreatedAt :: time
  s_ModTime :: time
  s_Status :: string
  s_FileID :: string
  s_Replicas :: "Replica list"

datatype entrySnapshot =
  EntrySnapshot (s_attr: snap_attr) (s_Children: "(string \<times> entrySnapshot) list")

text \<open>\<^const>\<open>None\<close> is Go's nil.\<close>

record metaSnapshot =
  ms_Root :: "entrySnapshot option"
  ms_DataNodes :: "string list"
  ms_LastHeartbeat :: "(string \<times> time) list option"

definition attr_toSnapshot :: "entry_attr \<Rightarrow> snap_attr" where
  "attr_toSnapshot a =
     \<lparr>s_Name = e_name a, s_IsDir = e_isDir a, s_Size = e_size a, s_Mode = e_mode a,
      s_CreatedAt = e_createdAt a, s_ModTime = e_modTime a, s_Status = e_status a,
      s_FileID = e_fileID a, s_Replicas = e_replicas a\<rparr>"

definition attr_toEntry :: "snap_attr \<Rightarrow> entry_attr" where
  "attr_toEntry a =
     \<lparr>e_name = s_Name a, e_isDir = s_IsDir a, e_size = s_Size a, e_mode = s_Mode a,
      e_createdAt = s_CreatedAt a, e_modTime = s_ModTime a, e_status = s_Status a,
      e_fileID = s_FileID a, e_replicas = s_Replicas a\<rparr>"

fun toSnapshot :: "entry \<Rightarrow> entrySnapshot" where
  "toSnapshot (Entry a cs) =
     EntrySnapshot (attr_toSnapshot a)
       (if e_isDir a then map (\<lambda>kc. (fst kc, toSnapshot (snd kc))) cs else [])"

fun toEntry :: "entrySnapshot \<Rightarrow> entry" where
  "toEntry (EntrySnapshot a cs) =
     Entry (attr_toEntry a)
       (if s_IsDir a then map (\<lambda>kc. (fst kc, toEntry (snd kc))) cs else [])"

text \<open>\<^verbatim>\<open>(*metaSnapshot).toEntry\<close>: without a root the tree starts empty, at Go's zero time.\<close>

definition zero_time :: time where
  "zero_time = 0"

definition snap_toEntry :: "metaSnapshot \<Rightarrow> entry" where
  "snap_toEntry m =
     (case ms_Root m of None \<Rightarrow> new_root zero_time zero_time | Some r \<Rightarrow> toEntry r)"

record 'b snap_codec =
  SMarshal :: "metaSnapshot \<Rightarrow> 'b result"
  SUnmarshal :: "'b \<Rightarrow> metaSnapshot result"
  SLen :: "'b \<Rightarrow> nat"

definition Snapshot :: "'b snap_codec \<Rightarrow> mds \<Rightarrow> 'b result" where
  "Snapshot codec s =
     SMarshal codec \<lparr>ms_Root = Some (toSnapshot (root s)), ms_DataNodes = dataNodes s,
                     ms_LastHeartbeat = Some (lastHeartbeat s)\<rparr>"

definition Restore :: "'b snap_codec \<Rightarrow> 'b \<Rightarrow> mds \<Rightarrow> mds result" where
  "Restore codec data s =
     (if SLen codec data = 0 then Inr s
      else (case SUnmarshal codec data of
          Inl err \<Rightarrow> Inl (''unmarshal snapshot failed: '' @ err)
        | Inr snap \<Rightarrow>
            Inr (s\<lparr>root := snap_toEntry snap, dataNodes := ms_DataNodes snap,
                   lastHeartbeat := (case ms_LastHeartbeat snap of Some hb \<Rightarrow> hb | None \<Rightarrow> [])\<rparr>)))"

subsection \<open>Round trips\<close>

lemma attr_round_trip [simp]: "attr_toEntry (attr_toSnapshot a) = a"
  by (simp add: attr_toEntry_def attr_toSnapshot_def)

lemma s_IsDir_toSnapshot [simp]: "s_IsDir (attr_toSnapshot a) = e_isDir a"
  by (simp add: attr_toSnapshot_def)

lemma toEntry_toSnapshot: "wf_entry e \<Longrightarrow> toEntry (toSnapshot e) = e"
proof (induction e rule: toSnapshot.induct)
  case (1 a cs)
  show ?case
  proof (cases "e_isDir a")
    case True
    have "(fst kc, toEntry (toSnapshot (snd kc))) = kc" if "kc \<in> set cs" for kc
      using 1 that True by simp
    then have "map (\<lambda>kc. (fst kc, toEntry (toSnapshot (snd kc)))) cs = cs"
      by (intro map_idI)
    with True show ?thesis by (simp add: comp_def)
  next
    case False
    with 1 show ?thesis by simp
  qed
qed

text \<open>
  The documented behaviour of the JSON package on the value being stored: it encodes it, to
  something that is not empty and decodes back to it.
\<close>

definition stores :: "'b snap_codec \<Rightarrow> mds \<Rightarrow> 'b \<Rightarrow> bool" where
  "stores codec s data \<longleftrightarrow> Snapshot codec s = Inr data \<and> SLen codec data \<noteq> 0 \<and>
     SUnmarshal codec data = Inr \<lparr>ms_Root = Some (toSnapshot (root s)),
       ms_DataNodes = dataNodes s, ms_LastHeartbeat = Some (lastHeartbeat s)\<rparr>"

lemma Restore_stored:
  assumes "stores codec s data" "wf_entry (root s)"
  shows "Restore codec data s0 = Inr (s0\<lparr>root := root s, dataNodes := dataNodes s,
    lastHeartbeat := lastHeartbeat s\<rparr>)"
  using assms by (simp add: stores_def Restore_def snap_toEntry_def toEntry_toSnapshot)

end
