(* ===== verification/Replica_Log.thy ===== *)
theory Replica_Log
  imports Prelude
begin

text \<open>
  The contract between the metadata server and its Raft library: the library applies one log, in
  one order, to the state machine of every node. A command that fails leaves the state as it was
  and the log goes on. The interfaces below state what a state machine has to provide, and what
  follows for whole logs; \<open>Replicas\<close> interprets them on the metadata server.
\<close>

fun replay :: "('c \<Rightarrow> 's \<Rightarrow> 's result) \<Rightarrow> 'c list \<Rightarrow> 's \<Rightarrow> 's" where
  "replay step [] s = s"
| "replay step (c # cs) s = replay step cs (case step c s of Inl _ \<Rightarrow> s | Inr s' \<Rightarrow> s')"

fun spec_replay :: "('c \<Rightarrow> 'a \<Rightarrow> 'a option) \<Rightarrow> 'c list \<Rightarrow> 'a \<Rightarrow> 'a" where
  "spec_replay spec [] a = a"
| "spec_replay spec (c # cs) a = spec_replay spec cs (case spec c a of None \<Rightarrow> a | Some a' \<Rightarrow> a')"

lemma replay_append: "replay step (cs @ ds) s = replay step ds (replay step cs s)"
  by (induction cs arbitrary: s) simp_all

text \<open>A machine whose steps keep an invariant.\<close>

locale log_machine =
  fixes step :: "'c \<Rightarrow> 's \<Rightarrow> 's result"
    and inv :: "'s \<Rightarrow> bool"
  assumes step_inv: "inv s \<Longrightarrow> step c s = Inr s' \<Longrightarrow> inv s'"
begin

lemma next_inv: "inv s \<Longrightarrow> inv (case step c s of Inl _ \<Rightarrow> s | Inr s' \<Rightarrow> s')"
  by (auto intro: step_inv split: sum.split)

lemma replay_inv: "inv s \<Longrightarrow> inv (replay step cs s)"
  by (induction cs arbitrary: s) (simp_all add: next_inv)

end

text \<open>A machine that implements an abstract one, failures included.\<close>

locale refined_machine = log_machine step inv
  for step :: "'c \<Rightarrow> 's \<Rightarrow> 's result" and inv :: "'s \<Rightarrow> bool" +
  fixes spec :: "'c \<Rightarrow> 'a \<Rightarrow> 'a option"
    and abs :: "'s \<Rightarrow> 'a"
  assumes refines: "inv s \<Longrightarrow>
    (case step c s of Inl _ \<Rightarrow> None | Inr s' \<Rightarrow> Some (abs s')) = spec c (abs s)"
begin

lemma next_refines:
  "inv s \<Longrightarrow> abs (case step c s of Inl _ \<Rightarrow> s | Inr s' \<Rightarrow> s') =
    (case spec c (abs s) of None \<Rightarrow> abs s | Some a \<Rightarrow> a)"
  using refines [of s c] by (auto split: sum.splits option.splits)

lemma replay_refines: "inv s \<Longrightarrow> abs (replay step cs s) = spec_replay spec cs (abs s)"
  by (induction cs arbitrary: s) (simp_all add: next_refines next_inv)

end

text \<open>
  A machine whose steps do not tell similar states and similar commands apart: replicas that
  apply similar logs stay similar and report the same errors.
\<close>

locale replicated_machine = log_machine step inv
  for step :: "'c \<Rightarrow> 's \<Rightarrow> 's result" and inv :: "'s \<Rightarrow> bool" +
  fixes same :: "'c \<Rightarrow> 'c \<Rightarrow> bool"
    and sim :: "'s \<Rightarrow> 's \<Rightarrow> bool"
  assumes sim_step: "sim s t \<Longrightarrow> same c d \<Longrightarrow> rel_sum (=) sim (step c s) (step d t)"
begin

lemma next_sim:
  "sim s t \<Longrightarrow> same c d \<Longrightarrow>
    sim (case step c s of Inl _ \<Rightarrow> s | Inr s' \<Rightarrow> s') (case step d t of Inl _ \<Rightarrow> t | Inr t' \<Rightarrow> t')"
  using sim_step [of s t c d] by (cases "step c s"; cases "step d t") auto

lemma replay_sim: "list_all2 same cs ds \<Longrightarrow> sim s t \<Longrightarrow> sim (replay step cs s) (replay step ds t)"
proof (induction cs ds arbitrary: s t rule: list_all2_induct)
  case Nil
  then show ?case by simp
next
  case (Cons c cs d ds)
  from next_sim [OF Cons.prems \<open>same c d\<close>] show ?case by (simp add: Cons.IH)
qed

end

text \<open>
  A replicated machine with snapshots: a node that restores a snapshot over whatever state it
  booted with, and replays the rest of the log, agrees with the nodes that replayed all of it.
\<close>

locale snapshot_machine = replicated_machine step inv same sim
  for step :: "'c \<Rightarrow> 's \<Rightarrow> 's result" and inv :: "'s \<Rightarrow> bool"
    and same :: "'c \<Rightarrow> 'c \<Rightarrow> bool" and sim :: "'s \<Rightarrow> 's \<Rightarrow> bool" +
  fixes snapshot :: "'s \<Rightarrow> 'b"
    and restore :: "'b \<Rightarrow> 's \<Rightarrow> 's"
  assumes restore_snapshot: "inv s \<Longrightarrow> sim (restore (snapshot s) s0) s"
begin

lemma recovery:
  assumes "inv s" "list_all2 same es ds"
  shows "sim (replay step es (restore (snapshot (replay step cs s)) s0)) (replay step (cs @ ds) s)"
  unfolding replay_append
  by (rule replay_sim [OF assms(2) restore_snapshot [OF replay_inv [OF assms(1)]]])

end

end
