(* ===== verification/Replicas.thy ===== *)
theory Replicas
  imports Apply_Invariants Clock_Erasure Snapshot_Restore Replica_Log
begin

text \<open>
  The metadata server as a replicated state machine: the log interfaces of \<open>Replica_Log\<close>
  interpreted on \<^const>\<open>Apply\<close>, and what follows for a cluster. A log entry is what Raft hands to
  \<^verbatim>\<open>Apply\<close>, the operation name and the payload bytes, with the clock reading of the node
  that applies it.
\<close>

type_synonym 'd log_entry = "time \<times> string \<times> 'd"

fun log_step :: "'d codec \<Rightarrow> 'd log_entry \<Rightarrow> mds \<Rightarrow> mds result" where
  "log_step codec (now, op, data) s = Apply codec now op data s"

fun log_spec :: "'d codec \<Rightarrow> 'd log_entry \<Rightarrow> namespace \<Rightarrow> namespace option" where
  "log_spec codec (now, op, data) m =
     (case Unmarshal codec data of Inl _ \<Rightarrow> None | Inr p \<Rightarrow> spec_apply now op p m)"

text \<open>The same log entry applied at another time.\<close>

definition same_entry :: "'d log_entry \<Rightarrow> 'd log_entry \<Rightarrow> bool" where
  "same_entry c d \<longleftrightarrow> snd c = snd d"

definition same_log :: "'d log_entry list \<Rightarrow> 'd log_entry list \<Rightarrow> bool" where
  "same_log cs ds \<longleftrightarrow> map snd cs = map snd ds"

lemma same_log_iff: "same_log cs ds \<longleftrightarrow> list_all2 same_entry cs ds"
  by (simp only: same_log_def same_entry_def [abs_def] list_all2_eq list.rel_map)

lemma log_step_inv: "mds_inv s \<Longrightarrow> log_step codec c s = Inr s' \<Longrightarrow> mds_inv s'"
  by (cases c) (auto simp: Apply_def split: sum.splits intro: apply_payload_inv)

lemma log_step_refines:
  assumes "mds_inv s"
  shows "(case log_step codec c s of Inl _ \<Rightarrow> None | Inr s' \<Rightarrow> Some (ns (root s'))) =
    log_spec codec c (ns (root s))"
proof -
  from assms have "wf_root (root s)" by (simp add: mds_inv_def)
  from apply_payload_refines [OF this] show ?thesis
    by (cases c) (auto simp: Apply_def result_ns_def split: sum.split)
qed

lemma log_step_same:
  "same_state s t \<Longrightarrow> same_entry c d \<Longrightarrow> rel_sum (=) same_state (log_step codec c s) (log_step codec d t)"
  by (cases c; cases d) (auto simp: same_entry_def intro: Apply_same)

text \<open>The state a snapshot carries, read back over the state a node booted with.\<close>

definition snapshot_of :: "mds \<Rightarrow> entrySnapshot \<times> string list \<times> (string \<times> time) list" where
  "snapshot_of s = (toSnapshot (root s), dataNodes s, lastHeartbeat s)"

fun restore_over :: "entrySnapshot \<times> string list \<times> (string \<times> time) list \<Rightarrow> mds \<Rightarrow> mds" where
  "restore_over (r, nodes, hb) s0 = s0\<lparr>root := toEntry r, dataNodes := nodes, lastHeartbeat := hb\<rparr>"

lemma restore_over_snapshot_of: "mds_inv s \<Longrightarrow> same_state (restore_over (snapshot_of s) s0) s"
  by (simp add: snapshot_of_def same_state_iff toEntry_toSnapshot mds_inv_def wf_root_def)

lemma Restore_Snapshot_over:
  "stores codec s data \<Longrightarrow> mds_inv s \<Longrightarrow> Restore codec data s0 = Inr (restore_over (snapshot_of s) s0)"
  by (simp add: Restore_stored snapshot_of_def toEntry_toSnapshot mds_inv_def wf_root_def)

interpretation mds_log: log_machine "log_step codec" mds_inv for codec
  by unfold_locales (rule log_step_inv)

interpretation mds_spec: refined_machine "log_step codec" mds_inv "log_spec codec" "\<lambda>s. ns (root s)"
  for codec
  by unfold_locales (rule log_step_refines)

interpretation mds_replica: replicated_machine "log_step codec" mds_inv same_entry same_state
  for codec
  by unfold_locales (rule log_step_same)

interpretation mds_snap: snapshot_machine "log_step codec" mds_inv same_entry same_state
    snapshot_of restore_over
  for codec
  by unfold_locales (rule restore_over_snapshot_of)

subsection \<open>A codec and a server to try things on\<close>

definition direct_codec :: "commandPayload codec" where
  "direct_codec = \<lparr>Marshal = Inr, Unmarshal = Inr\<rparr>"

definition rep :: "string \<Rightarrow> string \<Rightarrow> Replica" where
  "rep addr fid = \<lparr>r_Addr = addr, r_RemotePath = data_dir @ fid\<rparr>"

text \<open>A directory \<^verbatim>\<open>/d\<close> with a complete file \<^verbatim>\<open>/d/f\<close>, on one data node.\<close>

definition demo_log :: "commandPayload log_entry list" where
  "demo_log =
     [(1, OpHeartbeat, zero_payload\<lparr>p_Addr := ''n1''\<rparr>),
      (2, OpMkdir, zero_payload\<lparr>p_Path := ''/d'', p_FileID := ''D''\<rparr>),
      (3, OpCreateFile, zero_payload\<lparr>p_Path := ''/d/f'', p_FileID := ''F'', p_Size := 4,
                                    p_Replicas := [rep ''n1'' ''F'']\<rparr>),
      (4, OpCompleteFile, zero_payload\<lparr>p_Path := ''/d/f''\<rparr>)]"

definition demo_server :: mds where
  "demo_server = replay (log_step direct_codec) demo_log (NewMetadataServer 0 0)"

lemma demo_server_inv: "mds_inv demo_server"
  unfolding demo_server_def by (rule mds_log.replay_inv [OF mds_inv_new])

end
