(* ===== verification/Namespace_Props.thy ===== *)
theory Namespace_Props
  imports Replicas
begin

text \<open>
  What the commands of the metadata server do to the namespace a client sees. The statements are
  about the operations of \<open>Apply_Ops\<close> on a server that satisfies its invariant, which every
  reachable server does; the proofs read them off the specification that the operations refine.
\<close>

lemma inv_wf: "mds_inv s \<Longrightarrow> wf_root (root s)"
  by (simp add: mds_inv_def)

text \<open>From a successful command to its specification.\<close>

lemmas success_ns =
  applyMkdir_refines [OF inv_wf] applyCreateFile_refines [OF inv_wf]
  applyDelete_refines [OF inv_wf] applyRename_refines [OF inv_wf]

lemma mkdir_spec: "mds_inv s \<Longrightarrow> applyMkdir now p s = Inr s' \<Longrightarrow>
    spec_mkdir now (splitPath (p_Path p)) (p_FileID p) (ns (root s)) = Some (ns (root s'))"
  using success_ns(1) [of s now p] by simp

lemma create_spec: "mds_inv s \<Longrightarrow> applyCreateFile now p s = Inr s' \<Longrightarrow>
    spec_create now (splitPath (p_Path p)) p (ns (root s)) = Some (ns (root s'))"
  using success_ns(2) [of s now p] by simp

lemma delete_spec: "mds_inv s \<Longrightarrow> applyDelete now p s = Inr s' \<Longrightarrow>
    spec_delete now (splitPath (p_Path p)) (ns (root s)) = Some (ns (root s'))"
  using success_ns(3) [of s now p] by simp

lemma rename_spec: "mds_inv s \<Longrightarrow> applyRename now p s = Inr s' \<Longrightarrow>
    spec_rename now (splitPath (p_Path p)) (splitPath (p_DstPath p)) (ns (root s)) = Some (ns (root s'))"
  using success_ns(4) [of s now p] by simp

lemma dir_at_last_last: "is_dir_at m q \<Longrightarrow> \<not> is_file_at m q"
  by (auto simp: is_dir_at_def is_file_at_def split: option.splits)

text \<open>The walk over the parents of an operation's path, as the namespace sees it.\<close>

lemma parent_walk_fails:
  assumes "mds_inv s" "\<not> is_dir_at (ns (root s)) q"
  obtains x where "walk_dirs 0 (root s) q = Inl x"
  using assms by (cases rule: walk_dirs_cases [OF inv_wf [OF assms(1)], of 0 q]) auto

lemma parent_walk_finds:
  assumes "mds_inv s" "q \<noteq> []" "is_dir_at (ns (root s)) (butlast q)"
  obtains d where "walk_dirs 0 (root s) (butlast q) = Inr d"
    "map_of (children d) (last q) = lookup_entry (root s) q"
  using assms walk_dirs_to_dir [OF inv_wf [OF assms(1)] assms(3), of 0]
    parent_setting(1) [OF inv_wf [OF assms(1)] assms(2)] by metis

text \<open>
  Where a walk stops: the components before the reported level lead through directories, and the
  reported one is the first that is missing or not a directory.
\<close>

lemma walk_dirs_stops:
  assumes "walk_dirs k t q = Inl (i, part)" "isDir t"
  shows "\<exists>j. i = k + j \<and> j < length q \<and> part = q ! j \<and>
    (\<forall>l\<le>j. is_dir_at (ns t) (take l q)) \<and> \<not> is_dir_at (ns t) (take (Suc j) q)"
  using assms
proof (induction k t q rule: walk_dirs.induct)
  case (2 k t w q)
  show ?case
  proof (cases "\<exists>c. map_of (children t) w = Some c \<and> isDir c")
    case False
    with 2(2,3) show ?thesis
      by (auto intro!: exI [of _ 0] simp: is_dir_at_ns split: option.splits if_splits)
  next
    case True
    then obtain c where c: "map_of (children t) w = Some c" "isDir c" by blast
    with 2(2) have "walk_dirs (Suc k) c q = Inl (i, part)" by simp
    from 2(1) [OF c(1) _ this c(2)] c(2) obtain j where j: "i = Suc k + j" "j < length q" "part = q ! j"
      "\<forall>l\<le>j. is_dir_at (ns c) (take l q)" "\<not> is_dir_at (ns c) (take (Suc j) q)" by blast
    have step: "is_dir_at (ns t) (w # r) = is_dir_at (ns c) r" for r
      using c(1) by (simp add: is_dir_at_ns)
    have "is_dir_at (ns t) (take l (w # q))" if "l \<le> Suc j" for l
      using that j(4) 2(3) step by (cases l) (auto simp: is_dir_at_ns)
    with j step show ?thesis by (intro exI [of _ "Suc j"]) simp
  qed
qed simp

lemma result_ns_Some: "result_ns r = Some m \<Longrightarrow> \<exists>s'. r = Inr s' \<and> ns (root s') = m"
  by (cases r) simp_all

subsection \<open>Mkdir\<close>

text \<open>
  C1 (mkdir). On a reachable server Mkdir ends in exactly one way. A path without components is
  refused as invalid. A missing or non-directory parent is refused with the text that names the
  first level of the path, and its component, at which there is no directory: everything above it
  is one. An existing file of that name is refused, an existing directory leaves the server as it
  is, and otherwise the new directory appears with the identity from the command, the parent's
  modification time moves, and no other path changes.
\<close>

theorem mkdir_outcome:
  assumes "mds_inv s" "splitPath (p_Path p) = q"
  shows "if q = [] then applyMkdir now p s = Inl (''invalid path: '' @ p_Path p)
    else if \<not> is_dir_at (ns (root s)) (butlast q) then
      (\<exists>i. Suc i < length q \<and> (\<forall>l\<le>i. is_dir_at (ns (root s)) (take l q)) \<and>
         \<not> is_dir_at (ns (root s)) (take (Suc i) q) \<and>
         applyMkdir now p s = Inl (''parent directory not found: '' @ p_Path p @
           '' (at level '' @ show_nat i @ '': '' @ q ! i @ '')''))
    else if is_file_at (ns (root s)) q then
      applyMkdir now p s = Inl (p_Path p @ '' is not a directory: '' @ p_Path p)
    else if is_dir_at (ns (root s)) q then applyMkdir now p s = Inr s
    else (\<exists>s'. applyMkdir now p s = Inr s' \<and>
        ns (root s') = (ns (root s))(q \<mapsto> attr (new_dir now (last q) (p_FileID p)),
          butlast q := touched now (ns (root s) (butlast q))))"
proof -
  note defs = applyMkdir_def Let_def assms(2)
  consider "q = []" | "q \<noteq> []" "\<not> is_dir_at (ns (root s)) (butlast q)"
    | "q \<noteq> []" "is_dir_at (ns (root s)) (butlast q)"
      "is_file_at (ns (root s)) q \<or> is_dir_at (ns (root s)) q"
    | "q \<noteq> []" "is_dir_at (ns (root s)) (butlast q)"
      "\<not> is_file_at (ns (root s)) q" "\<not> is_dir_at (ns (root s)) q"
    by blast
  then show ?thesis
  proof cases
    case 1
    then show ?thesis by (simp add: defs)
  next
    case 2
    obtain i part where w: "walk_dirs 0 (root s) (butlast q) = Inl (i, part)"
      using parent_walk_fails [OF assms(1) 2(2)] by (metis surj_pair)
    have "isDir (root s)" using assms(1) by (simp add: mds_inv_def wf_root_def)
    from walk_dirs_stops [OF w this] have "Suc i < length q" "part = q ! i"
      "\<forall>l\<le>i. is_dir_at (ns (root s)) (take l q)" "\<not> is_dir_at (ns (root s)) (take (Suc i) q)"
      by (auto simp: nth_butlast take_butlast)
    moreover from w 2(1) have "applyMkdir now p s = Inl (''parent directory not found: '' @ p_Path p @
        '' (at level '' @ show_nat i @ '': '' @ part @ '')'')" by (simp only: defs) simp
    ultimately show ?thesis using 2 by (simp only: if_False if_True simp_thms) blast
  next
    case 3
    obtain d where "walk_dirs 0 (root s) (butlast q) = Inr d"
      "map_of (children d) (last q) = lookup_entry (root s) q"
      by (rule parent_walk_finds [OF assms(1) 3(1,2)])
    with 3 show ?thesis by (auto simp: defs is_dir_at_ns is_file_at_ns)
  next
    case 4
    with success_ns(1) [OF assms(1), of now p] show ?thesis
      by (simp add: spec_mkdir_def assms(2) result_ns_Some)
  qed
qed

theorem mkdir_outcome_witness:
  "\<exists>s'. applyMkdir 9 (zero_payload\<lparr>p_Path := ''/d/e'', p_FileID := ''E''\<rparr>) demo_server = Inr s' \<and>
     is_dir_at (ns (root s')) [''d'', ''e'']"
proof -
  let ?p = "zero_payload\<lparr>p_Path := ''/d/e'', p_FileID := ''E''\<rparr>"
  have q: "splitPath (p_Path ?p) = [''d'', ''e'']" by code_simp
  have "ns (root demo_server) [''d'', ''e''] = None"
    "is_dir_at (ns (root demo_server)) (butlast [''d'', ''e''])" by code_simp+
  then show ?thesis
    using mkdir_outcome [OF demo_server_inv q, of 9]
    by (auto simp: is_dir_at_def is_file_at_def new_dir_def)
qed

subsection \<open>CreateFile\<close>

text \<open>
  C2 (create). CreateFile is refused for a path without components, below a missing parent, over a
  directory, and over an existing file unless the command asks for overwriting. A new file is pending, with the identity and the
  replicas of the command; an overwritten one is pending again with the new size and replicas and
  keeps its identity and creation time. Nothing else changes but the parent's modification time.
\<close>

theorem create_outcome:
  assumes "mds_inv s" "splitPath (p_Path p) = q"
  shows "if q = [] then applyCreateFile now p s = Inl (''invalid path: '' @ p_Path p)
    else if \<not> is_dir_at (ns (root s)) (butlast q) then
      applyCreateFile now p s = Inl (''parent directory not found: '' @ p_Path p)
    else if is_dir_at (ns (root s)) q then
      applyCreateFile now p s = Inl (p_Path p @ '' is a directory, cannot create file with same name'')
    else if is_file_at (ns (root s)) q \<and> p_CreateMode p \<noteq> OverwriteIfExists then
      applyCreateFile now p s = Inl (''file already exists: '' @ p_Path p)
    else (\<exists>s' a. applyCreateFile now p s = Inr s' \<and>
        ns (root s') = (ns (root s))(q \<mapsto> a, butlast q := touched now (ns (root s) (butlast q))) \<and>
        \<not> e_isDir a \<and> e_name a = last q \<and> e_status a = StatusPending \<and> e_size a = p_Size p \<and>
        e_replicas a = p_Replicas p \<and> e_modTime a = now \<and>
        (case ns (root s) q of
           None \<Rightarrow> e_fileID a = p_FileID p \<and> e_createdAt a = now
         | Some old \<Rightarrow> e_fileID a = e_fileID old \<and> e_createdAt a = e_createdAt old))"
proof -
  note defs = applyCreateFile_def Let_def assms(2)
  consider "q = []" | "q \<noteq> []" "\<not> is_dir_at (ns (root s)) (butlast q)"
    | "q \<noteq> []" "is_dir_at (ns (root s)) (butlast q)"
      "is_dir_at (ns (root s)) q \<or> is_file_at (ns (root s)) q \<and> p_CreateMode p \<noteq> OverwriteIfExists"
    | "q \<noteq> []" "is_dir_at (ns (root s)) (butlast q)" "\<not> is_dir_at (ns (root s)) q"
      "\<not> (is_file_at (ns (root s)) q \<and> p_CreateMode p \<noteq> OverwriteIfExists)"
    by blast
  then show ?thesis
  proof cases
    case 1
    then show ?thesis by (simp add: defs)
  next
    case 2
    obtain x where "walk_dirs 0 (root s) (butlast q) = Inl x"
      by (rule parent_walk_fails [OF assms(1) 2(2)])
    with 2 show ?thesis by (simp add: defs)
  next
    case 3
    obtain d where "walk_dirs 0 (root s) (butlast q) = Inr d"
      "map_of (children d) (last q) = lookup_entry (root s) q"
      by (rule parent_walk_finds [OF assms(1) 3(1,2)])
    with 3 show ?thesis by (auto simp: defs is_dir_at_ns is_file_at_ns)
  next
    case 4
    define a where "a = (case ns (root s) q of
        None \<Rightarrow> attr (new_file now now (last q) (p_FileID p) p)
      | Some old \<Rightarrow> attr (new_file now (e_createdAt old) (last q) (e_fileID old) p))"
    have "result_ns (applyCreateFile now p s) =
        Some ((ns (root s))(q \<mapsto> a, butlast q := touched now (ns (root s) (butlast q))))"
      using success_ns(2) [OF assms(1), of now p] 4
      by (auto simp: spec_create_def assms(2) a_def)
    from result_ns_Some [OF this] obtain s' where s': "applyCreateFile now p s = Inr s'"
      "ns (root s') = (ns (root s))(q \<mapsto> a, butlast q := touched now (ns (root s) (butlast q)))"
      by blast
    moreover have "\<not> e_isDir a \<and> e_name a = last q \<and> e_status a = StatusPending \<and>
        e_size a = p_Size p \<and> e_replicas a = p_Replicas p \<and> e_modTime a = now \<and>
        (case ns (root s) q of None \<Rightarrow> e_fileID a = p_FileID p \<and> e_createdAt a = now
         | Some old \<Rightarrow> e_fileID a = e_fileID old \<and> e_createdAt a = e_createdAt old)"
      by (simp add: a_def new_file_def split: option.split)
    ultimately show ?thesis using 4 by (simp only: if_False simp_thms) blast
  qed
qed

theorem create_outcome_witness:
  "\<exists>s' a. applyCreateFile 9 (zero_payload\<lparr>p_Path := ''/d/f'', p_FileID := ''G'',
       p_CreateMode := OverwriteIfExists\<rparr>) demo_server = Inr s' \<and>
     ns (root s') [''d'', ''f''] = Some a \<and> e_fileID a = ''F'' \<and> e_status a = StatusPending"
proof -
  let ?p = "zero_payload\<lparr>p_Path := ''/d/f'', p_FileID := ''G'', p_CreateMode := OverwriteIfExists\<rparr>"
  have q: "splitPath (p_Path ?p) = [''d'', ''f'']" by code_simp
  have old: "map_option e_fileID (ns (root demo_server) [''d'', ''f'']) = Some ''F''"
    "\<not> is_dir_at (ns (root demo_server)) [''d'', ''f'']"
    "is_dir_at (ns (root demo_server)) (butlast [''d'', ''f''])" by code_simp+
  then obtain b where "ns (root demo_server) [''d'', ''f''] = Some b" "e_fileID b = ''F''" by auto
  with old show ?thesis using create_outcome [OF demo_server_inv q, of 9] by auto
qed

subsection \<open>Delete\<close>

text \<open>
  C3 (delete). Delete refuses the root and a path that does not exist. Otherwise the path and
  everything below it are gone, empty or not, the parent's modification time moves, and every other
  path keeps its node.
\<close>

theorem delete_outcome:
  assumes "mds_inv s" "splitPath (p_Path p) = q"
  shows "if q = [] then applyDelete now p s = Inl ''cannot delete root''
    else if ns (root s) q = None then applyDelete now p s = Inl (''path not found: '' @ p_Path p)
    else (\<exists>s'. applyDelete now p s = Inr s' \<and>
        (\<forall>r. ns (root s') r = (if prefix q r then None
           else if r = butlast q then touched now (ns (root s) r) else ns (root s) r)))"
proof -
  note defs = applyDelete_def Let_def assms(2)
  consider "q = []" | "q \<noteq> []" "ns (root s) q = None" | "q \<noteq> []" "ns (root s) q \<noteq> None" by blast
  then show ?thesis
  proof cases
    case 1
    then show ?thesis by (simp add: defs)
  next
    case 2
    then have "result_ns (applyDelete now p s) = None"
      using success_ns(3) [OF assms(1), of now p] by (simp add: assms(2) spec_delete_def)
    with 2 show ?thesis
      by (auto simp: defs result_ns_def split: sum.splits option.splits)
  next
    case 3
    with success_ns(3) [OF assms(1), of now p] show ?thesis
      by (auto simp: spec_delete_def assms(2) dest!: result_ns_Some)
  qed
qed

theorem delete_outcome_witness:
  "\<exists>s'. applyDelete 9 (zero_payload\<lparr>p_Path := ''/d/''\<rparr>) demo_server = Inr s' \<and>
     ns (root s') [''d'', ''f''] = None"
proof -
  have q: "splitPath (p_Path (zero_payload\<lparr>p_Path := ''/d/''\<rparr>)) = [''d'']" by code_simp
  have "ns (root demo_server) [''d''] \<noteq> None" by code_simp
  then show ?thesis using delete_outcome [OF demo_server_inv q, of 9] by auto
qed

subsection \<open>Rename\<close>

lemma parent_of_existing:
  assumes "mds_inv s" "ns (root s) q \<noteq> None"
  shows "is_dir_at (ns (root s)) (butlast q) \<or> q = []"
proof (rule ccontr)
  assume "\<not> ?thesis"
  then have "ns (root s) (butlast q) = None \<or> is_file_at (ns (root s)) (butlast q)" "q \<noteq> []"
    by (auto simp: is_dir_at_def is_file_at_def split: option.splits)
  from ns_below_None [OF inv_wf [OF assms(1)] this(1) prefix_butlast] this(2) assms(2)
  show False by simp
qed

text \<open>The source of a rename: the walk finds the node, or refuses.\<close>

lemma source_missing:
  assumes "mds_inv s" "splitPath (p_Path p) = src" "splitPath (p_DstPath p) = dst"
    "src \<noteq> []" "dst \<noteq> []" "ns (root s) src = None"
  shows "applyRename now p s = Inl (''source path not found: '' @ p_Path p)"
proof (cases "is_dir_at (ns (root s)) (butlast src)")
  case True
  obtain d where "walk_dirs 0 (root s) (butlast src) = Inr d"
    "map_of (children d) (last src) = lookup_entry (root s) src"
    by (rule parent_walk_finds [OF assms(1,4) True])
  with assms show ?thesis by (simp add: applyRename_def Let_def ns_def)
next
  case False
  obtain x where "walk_dirs 0 (root s) (butlast src) = Inl x"
    by (rule parent_walk_fails [OF assms(1) False])
  with assms show ?thesis by (simp add: applyRename_def Let_def)
qed

lemma source_found:
  assumes "mds_inv s" "src \<noteq> []" "ns (root s) src \<noteq> None"
  obtains d e where "walk_dirs 0 (root s) (butlast src) = Inr d"
    "map_of (children d) (last src) = Some e" "lookup_entry (root s) src = Some e"
proof -
  from parent_of_existing [OF assms(1,3)] assms(2) have "is_dir_at (ns (root s)) (butlast src)" by simp
  from parent_walk_finds [OF assms(1,2) this] obtain d where
    "walk_dirs 0 (root s) (butlast src) = Inr d"
    "map_of (children d) (last src) = lookup_entry (root s) src" by blast
  moreover obtain e where "lookup_entry (root s) src = Some e"
    using assms(3) by (auto simp: ns_def)
  ultimately show thesis by (intro that) simp_all
qed

text \<open>The three refusals that follow a found source, in the order of the code's checks.\<close>

lemma rename_into_itself:
  assumes "mds_inv s" "splitPath (p_Path p) = src" "splitPath (p_DstPath p) = dst"
    "src \<noteq> []" "dst \<noteq> []"
    and "is_dir_at (ns (root s)) src" "prefix src (butlast dst)"
  shows "applyRename now p s = Inl (''cannot move directory into its own subtree: '' @ p_Path p @
    '' -> '' @ p_DstPath p)"
proof -
  have "ns (root s) src \<noteq> None" using assms(6) by (auto simp: is_dir_at_def split: option.splits)
  then obtain d e where e: "walk_dirs 0 (root s) (butlast src) = Inr d"
    "map_of (children d) (last src) = Some e" "lookup_entry (root s) src = Some e"
    by (rule source_found [OF assms(1,4)])
  with assms(6) have "isDir e" by (auto simp: is_dir_at_ns)
  with ancestor_found_iff [OF inv_wf [OF assms(1)] e(3)] e assms show ?thesis
    by (simp add: applyRename_def Let_def)
qed

lemma rename_past_cycle_check:
  assumes "mds_inv s" "splitPath (p_Path p) = src" "splitPath (p_DstPath p) = dst"
    "src \<noteq> []" "dst \<noteq> []" "ns (root s) src \<noteq> None"
    and "\<not> (is_dir_at (ns (root s)) src \<and> prefix src (butlast dst))"
  obtains d e where "walk_dirs 0 (root s) (butlast src) = Inr d"
    "map_of (children d) (last src) = Some e"
    "\<not> (isDir e \<and> ancestor_found src [] (root s) (butlast dst))"
proof -
  obtain d e where e: "walk_dirs 0 (root s) (butlast src) = Inr d"
    "map_of (children d) (last src) = Some e" "lookup_entry (root s) src = Some e"
    by (rule source_found [OF assms(1,4,6)])
  moreover have "\<not> (isDir e \<and> ancestor_found src [] (root s) (butlast dst))"
    using ancestor_found_iff [OF inv_wf [OF assms(1)] e(3)] assms(7) e(3)
    by (auto simp: is_dir_at_ns)
  ultimately show thesis by (intro that)
qed

lemma rename_no_parent:
  assumes "mds_inv s" "splitPath (p_Path p) = src" "splitPath (p_DstPath p) = dst"
    "src \<noteq> []" "dst \<noteq> []" "ns (root s) src \<noteq> None"
    "\<not> (is_dir_at (ns (root s)) src \<and> prefix src (butlast dst))"
    and "\<not> is_dir_at (ns (root s)) (butlast dst)"
  shows "applyRename now p s = Inl (''destination parent directory not found: '' @ p_DstPath p)"
proof -
  obtain d e where "walk_dirs 0 (root s) (butlast src) = Inr d"
    "map_of (children d) (last src) = Some e"
    "\<not> (isDir e \<and> ancestor_found src [] (root s) (butlast dst))"
    by (rule rename_past_cycle_check [OF assms(1-7)])
  moreover obtain x where "walk_dirs 0 (root s) (butlast dst) = Inl x"
    by (rule parent_walk_fails [OF assms(1,8)])
  ultimately show ?thesis using assms(2-5) by (simp add: applyRename_def Let_def)
qed

lemma rename_over_dir:
  assumes "mds_inv s" "splitPath (p_Path p) = src" "splitPath (p_DstPath p) = dst"
    "src \<noteq> []" "dst \<noteq> []" "ns (root s) src \<noteq> None"
    "\<not> (is_dir_at (ns (root s)) src \<and> prefix src (butlast dst))"
    and "is_dir_at (ns (root s)) (butlast dst)" "is_dir_at (ns (root s)) dst"
  shows "applyRename now p s = Inl (''destination is an existing directory: '' @ p_DstPath p)"
proof -
  obtain d e where "walk_dirs 0 (root s) (butlast src) = Inr d"
    "map_of (children d) (last src) = Some e"
    "\<not> (isDir e \<and> ancestor_found src [] (root s) (butlast dst))"
    by (rule rename_past_cycle_check [OF assms(1-7)])
  moreover obtain d' where "walk_dirs 0 (root s) (butlast dst) = Inr d'"
    "map_of (children d') (last dst) = lookup_entry (root s) dst"
    by (rule parent_walk_finds [OF assms(1,5,8)])
  moreover obtain c where "lookup_entry (root s) dst = Some c" "isDir c"
    using assms(9) by (auto simp: is_dir_at_ns)
  ultimately show ?thesis using assms(2-5) by (simp add: applyRename_def Let_def)
qed

lemma rename_moves:
  assumes "mds_inv s" "splitPath (p_Path p) = src" "splitPath (p_DstPath p) = dst"
    "src \<noteq> []" "dst \<noteq> []" "ns (root s) src \<noteq> None" "\<not> prefix src (butlast dst)"
    "is_dir_at (ns (root s)) (butlast dst)" "\<not> is_dir_at (ns (root s)) dst"
  obtains s' where "applyRename now p s = Inr s'"
    "ns (root s') = spec_moved now src dst (ns (root s))"
proof -
  from assms(4-9) success_ns(4) [OF assms(1), of now p]
  have "result_ns (applyRename now p s) = Some (spec_moved now src dst (ns (root s)))"
    by (simp add: spec_rename_def assms(2,3))
  from result_ns_Some [OF this] show thesis using that by blast
qed

lemma no_dir_below_file:
  assumes "mds_inv s" "ns (root s) src \<noteq> None" "\<not> is_dir_at (ns (root s)) src" "prefix src q"
  shows "\<not> is_dir_at (ns (root s)) q"
proof -
  from assms(2,3) have f: "is_file_at (ns (root s)) src"
    by (auto simp: is_dir_at_def is_file_at_def split: option.splits)
  with ns_below_None [OF inv_wf [OF assms(1)] disjI2 [OF f] assms(4)] assms(3)
  show ?thesis by (cases "q = src") (auto simp: is_dir_at_def)
qed

text \<open>
  C4 (rename). Rename is refused when one of its paths has no components (the root can neither move
  nor be replaced), when the source does not exist, when a directory would move into
  its own subtree, when the destination's parent is missing and when the destination is a directory.
  Otherwise the whole subtree moves: each path below the destination has the attributes its
  counterpart below the source had, identity, data and states included; the moved node takes the new
  name; the source is gone, with any file that was at the destination; the two parents' modification
  times move and no other path changes.
\<close>

theorem rename_outcome:
  assumes "mds_inv s" "splitPath (p_Path p) = src" "splitPath (p_DstPath p) = dst"
  shows "if src = [] \<or> dst = [] then
      applyRename now p s = Inl (''invalid path: src='' @ p_Path p @ '' dst='' @ p_DstPath p)
    else if ns (root s) src = None then
      applyRename now p s = Inl (''source path not found: '' @ p_Path p)
    else if is_dir_at (ns (root s)) src \<and> prefix src (butlast dst) then
      applyRename now p s = Inl (''cannot move directory into its own subtree: '' @ p_Path p @
        '' -> '' @ p_DstPath p)
    else if \<not> is_dir_at (ns (root s)) (butlast dst) then
      applyRename now p s = Inl (''destination parent directory not found: '' @ p_DstPath p)
    else if is_dir_at (ns (root s)) dst then
      applyRename now p s = Inl (''destination is an existing directory: '' @ p_DstPath p)
    else (\<exists>s'. applyRename now p s = Inr s' \<and>
        (\<forall>q. ns (root s') q =
          (if q = dst then
             map_option (\<lambda>a. a\<lparr>e_name := last dst, e_modTime := now\<rparr>) (ns (root s) src)
           else if prefix dst q then ns (root s) (src @ drop (length dst) q)
           else if prefix src q then None
           else if q = butlast src \<or> q = butlast dst then touched now (ns (root s) q)
           else ns (root s) q)))"
proof (cases "src = [] \<or> dst = []")
  case True
  then show ?thesis by (auto simp: applyRename_def Let_def assms(2,3))
next
  case False
  then have ne: "src \<noteq> []" "dst \<noteq> []" by simp_all
  consider "ns (root s) src = None"
    | "is_dir_at (ns (root s)) src" "prefix src (butlast dst)"
    | "ns (root s) src \<noteq> None" "\<not> (is_dir_at (ns (root s)) src \<and> prefix src (butlast dst))"
      "\<not> is_dir_at (ns (root s)) (butlast dst)"
    | "ns (root s) src \<noteq> None" "\<not> (is_dir_at (ns (root s)) src \<and> prefix src (butlast dst))"
      "is_dir_at (ns (root s)) (butlast dst)" "is_dir_at (ns (root s)) dst"
    | "ns (root s) src \<noteq> None" "\<not> prefix src (butlast dst)"
      "is_dir_at (ns (root s)) (butlast dst)" "\<not> is_dir_at (ns (root s)) dst"
    using no_dir_below_file [OF assms(1)] by blast
  then show ?thesis
  proof cases
    case 1
    with ne source_missing [OF assms ne] show ?thesis by simp
  next
    case 2
    moreover have "ns (root s) src \<noteq> None" using 2(1) by (auto simp: is_dir_at_def split: option.splits)
    ultimately show ?thesis using ne rename_into_itself [OF assms ne] by simp
  next
    case 3
    with ne rename_no_parent [OF assms ne 3] show ?thesis by auto
  next
    case 4
    with ne rename_over_dir [OF assms ne 4] show ?thesis by auto
  next
    case 5
    obtain s' where "applyRename now p s = Inr s'"
      "ns (root s') = spec_moved now src dst (ns (root s))"
      by (rule rename_moves [OF assms ne 5])
    with ne 5 show ?thesis by (auto simp: spec_moved_def)
  qed
qed

theorem rename_outcome_witness:
  "\<exists>s'. applyRename 9 (zero_payload\<lparr>p_Path := ''/d'', p_DstPath := ''/e''\<rparr>) demo_server = Inr s' \<and>
     ns (root s') [''e'', ''f''] = ns (root demo_server) [''d'', ''f''] \<and>
     ns (root s') [''d'', ''f''] = None \<and>
   applyRename 9 (zero_payload\<lparr>p_Path := ''/d'', p_DstPath := ''/d/e''\<rparr>) demo_server =
     Inl ''cannot move directory into its own subtree: /d -> /d/e''"
proof -
  let ?p = "zero_payload\<lparr>p_Path := ''/d'', p_DstPath := ''/e''\<rparr>"
  let ?p' = "zero_payload\<lparr>p_Path := ''/d'', p_DstPath := ''/d/e''\<rparr>"
  have q: "splitPath (p_Path ?p) = [''d'']" "splitPath (p_DstPath ?p) = [''e'']"
    "splitPath (p_Path ?p') = [''d'']" "splitPath (p_DstPath ?p') = [''d'', ''e'']" by code_simp+
  have m: "ns (root demo_server) [''d''] \<noteq> None" "is_dir_at (ns (root demo_server)) [''d'']"
    "is_dir_at (ns (root demo_server)) []" "\<not> is_dir_at (ns (root demo_server)) [''e'']" by code_simp+
  from m rename_outcome [OF demo_server_inv q(1,2), of 9]
    rename_outcome [OF demo_server_inv q(3,4), of 9]
  show ?thesis by auto
qed

subsection \<open>UpdateSize\<close>

text \<open>
  C5 (update size). The size of a file follows its writes except while the file is being repaired:
  a recovering file refuses the update and keeps its size. A missing path and a directory are
  refused. Otherwise size and modification time of that file change and nothing else does, its
  identity, state and replicas included.
\<close>

theorem update_size_outcome:
  assumes "mds_inv s" "splitPath (p_Path p) = q"
  shows "case ns (root s) q of
      None \<Rightarrow> applyUpdateSize now p s = Inl (''path not found: '' @ p_Path p)
    | Some a \<Rightarrow>
        if e_isDir a then
          applyUpdateSize now p s = Inl (p_Path p @ '' is a directory, cannot update size'')
        else if e_status a = StatusRecovering then
          applyUpdateSize now p s = Inl (''file is recovering, write not allowed: '' @ p_Path p)
        else (\<exists>s'. applyUpdateSize now p s = Inr s' \<and>
          ns (root s') = (ns (root s))(q \<mapsto> a\<lparr>e_size := p_NewSize p, e_modTime := now\<rparr>) \<and>
          dataNodes s' = dataNodes s \<and> lastHeartbeat s' = lastHeartbeat s)"
proof (cases "lookup_entry (root s) q")
  case None
  then show ?thesis by (simp add: applyUpdateSize_def lookup_def assms(2) ns_def)
next
  case (Some e)
  show ?thesis
  proof (cases "isDir e \<or> e_status (attr e) = StatusRecovering")
    case True
    with Some show ?thesis by (auto simp: applyUpdateSize_def lookup_def assms(2) ns_def)
  next
    case False
    with Some applyUpdateSize_refines [of now p s]
    have "result_ns (applyUpdateSize now p s) =
        Some ((ns (root s))(q \<mapsto> (attr e)\<lparr>e_size := p_NewSize p, e_modTime := now\<rparr>))"
      by (simp add: spec_update_def assms(2) ns_def [of _ q])
    from result_ns_Some [OF this] obtain s' where s': "applyUpdateSize now p s = Inr s'"
      "ns (root s') = (ns (root s))(q \<mapsto> (attr e)\<lparr>e_size := p_NewSize p, e_modTime := now\<rparr>)" by blast
    with tree_ops_root(6) [OF s'(1)] False Some show ?thesis by (auto simp: ns_def [of _ q])
  qed
qed

theorem update_size_outcome_witness:
  "let s = (case applyUpdateStatus 5 (zero_payload\<lparr>p_Path := ''/d/f'', p_NewStatus := StatusRecovering\<rparr>)
              demo_server of Inr s \<Rightarrow> s | Inl _ \<Rightarrow> demo_server)
   in applyUpdateSize 9 (zero_payload\<lparr>p_Path := ''/d/f'', p_NewSize := 7\<rparr>) s =
     Inl ''file is recovering, write not allowed: /d/f''"
proof -
  let ?u = "zero_payload\<lparr>p_Path := ''/d/f'', p_NewStatus := StatusRecovering\<rparr>"
  let ?p = "zero_payload\<lparr>p_Path := ''/d/f'', p_NewSize := 7\<rparr>"
  define s where "s = (case applyUpdateStatus 5 ?u demo_server of Inr s \<Rightarrow> s | Inl _ \<Rightarrow> demo_server)"
  have "is_ok (apply_payload 5 OpUpdateStatus ?u demo_server)" by code_simp
  then have "mds_inv s"
    using apply_payload_inv [OF demo_server_inv, of 5 OpUpdateStatus ?u]
    by (auto simp: s_def apply_payload_def op_names is_ok_iff demo_server_inv split: sum.split)
  moreover have q: "splitPath (p_Path ?p) = [''d'', ''f'']" by code_simp
  moreover have "map_option (\<lambda>a. (e_isDir a, e_status a)) (ns (root s) [''d'', ''f'']) =
      Some (False, StatusRecovering)" unfolding s_def by code_simp
  ultimately have "applyUpdateSize 9 ?p s = Inl ''file is recovering, write not allowed: /d/f''"
    using update_size_outcome [of s ?p "[''d'', ''f'']" 9] by auto
  then show ?thesis by (simp add: s_def Let_def)
qed

end
