(* ===== verification/Cluster_Props.thy ===== *)
theory Cluster_Props
  imports Replicas
begin

text \<open>
  What the interpretations of \<open>Replicas\<close> give a cluster: every replayed server satisfies the
  invariant and implements the abstract namespace, replicas of one log agree up to the readings of
  their own clocks, and a snapshot brings a restarted node back to the cluster's state.
\<close>

text \<open>
  C6 (consistency). Whatever log Raft delivers to a fresh server, malformed payloads and refused
  commands included, the server ends in a consistent state: the tree is well-formed, every file is
  pending, complete or recovering, and the registered data nodes are distinct and are those with a
  recorded heartbeat.
\<close>

theorem replayed_server_consistent:
  "mds_inv (replay (log_step codec) log (NewMetadataServer created modified))"
  by (rule mds_log.replay_inv [OF mds_inv_new])

text \<open>
  C7 (refinement). The tree operations implement the namespace specification on whole logs: the
  namespace after replaying any log is what the specification computes from the empty namespace.
\<close>

theorem replay_implements_namespace:
  "ns (root (replay (log_step codec) log (NewMetadataServer created modified))) =
   spec_replay (log_spec codec) log [[] \<mapsto> attr (new_root created modified)]"
proof -
  have "ns (new_root created modified) = [[] \<mapsto> attr (new_root created modified)]"
    by (rule ext) (simp add: new_root_def)
  with mds_spec.replay_refines [OF mds_inv_new, of codec log created modified] show ?thesis
    by (simp add: NewMetadataServer_def)
qed

text \<open>
  C8 (agreement). Two nodes that apply the same operations at different times, having started at
  different times, agree on everything but time stamps, and the next command succeeds on both or is
  refused on both with the same error.
\<close>

theorem replicas_agree:
  assumes "same_log log log'" "same_entry c c'"
  shows "same_state (replay (log_step codec) log (NewMetadataServer t u))
      (replay (log_step codec) log' (NewMetadataServer t' u')) \<and>
    rel_sum (=) same_state (log_step codec c (replay (log_step codec) log (NewMetadataServer t u)))
      (log_step codec c' (replay (log_step codec) log' (NewMetadataServer t' u')))"
proof -
  have "same_state (NewMetadataServer t u) (NewMetadataServer t' u')"
    by (simp add: same_state_def timeless_def NewMetadataServer_def new_root_def erase_attr_def)
  from mds_replica.replay_sim [OF _ this] assms(1)
  have "same_state (replay (log_step codec) log (NewMetadataServer t u))
      (replay (log_step codec) log' (NewMetadataServer t' u'))" by (simp add: same_log_iff)
  with mds_replica.sim_step [OF this assms(2)] show ?thesis by simp
qed

definition later_log :: "commandPayload log_entry list" where
  "later_log = map (\<lambda>(now, c). (now + 100, c)) demo_log"

theorem replicas_agree_witness:
  "same_state (replay (log_step direct_codec) demo_log (NewMetadataServer 0 0))
     (replay (log_step direct_codec) later_log (NewMetadataServer 7 8))"
proof -
  have "same_log demo_log later_log" by (simp add: same_log_def later_log_def comp_def case_prod_beta)
  moreover have "same_entry (5, OpDelete, zero_payload) (6, OpDelete, zero_payload)"
    by (simp add: same_entry_def)
  ultimately show ?thesis by (rule replicas_agree [THEN conjunct1])
qed

text \<open>
  The agreement cannot be strengthened to equality: replicas read their own clocks
  while they apply, so the same log leaves different modification times and, what the health check
  acts on, different heartbeat times on different replicas.
\<close>

theorem replicas_diverge_in_time:
  "\<exists>log log'. same_log log log' \<and>
     (let s = replay (log_step direct_codec) log (NewMetadataServer 0 0);
          s' = replay (log_step direct_codec) log' (NewMetadataServer 0 0)
      in lastHeartbeat s \<noteq> lastHeartbeat s' \<and> ns (root s) [''d'', ''f''] \<noteq> ns (root s') [''d'', ''f''])"
proof (intro exI conjI)
  show "same_log demo_log later_log" by (simp add: same_log_def later_log_def comp_def case_prod_beta)
  show "let s = replay (log_step direct_codec) demo_log (NewMetadataServer 0 0);
          s' = replay (log_step direct_codec) later_log (NewMetadataServer 0 0)
      in lastHeartbeat s \<noteq> lastHeartbeat s' \<and> ns (root s) [''d'', ''f''] \<noteq> ns (root s') [''d'', ''f'']"
    by code_simp
qed

text \<open>
  C9 (snapshot round trip). Restoring a snapshot of a reachable server over any server gives that
  server the tree, the data nodes and the heartbeat times of the original, exactly; what is not
  replicated (replica count, timeouts, repairs under way) stays as the node has it.
\<close>

theorem restore_snapshot:
  assumes "s = replay (log_step codec) log (NewMetadataServer created modified)"
    and "stores snap s data"
  shows "Restore snap data s0 = Inr (s0\<lparr>root := root s, dataNodes := dataNodes s,
    lastHeartbeat := lastHeartbeat s\<rparr>)"
proof -
  have "wf_entry (root s)"
    using mds_log.replay_inv [OF mds_inv_new, of codec log created modified] assms(1)
    by (simp add: mds_inv_def wf_root_def)
  with assms(2) show ?thesis by (rule Restore_stored)
qed

text \<open>A snapshot codec whose bytes are the structure itself.\<close>

definition direct_snap :: "metaSnapshot snap_codec" where
  "direct_snap = \<lparr>SMarshal = Inr, SUnmarshal = Inr, SLen = (\<lambda>_. 1)\<rparr>"

definition snap_data :: "mds \<Rightarrow> metaSnapshot" where
  "snap_data s = \<lparr>ms_Root = Some (toSnapshot (root s)), ms_DataNodes = dataNodes s,
     ms_LastHeartbeat = Some (lastHeartbeat s)\<rparr>"

lemma direct_snap_stores: "stores direct_snap s (snap_data s)"
  by (simp add: stores_def direct_snap_def snap_data_def Snapshot_def)

theorem restore_snapshot_witness:
  "Restore direct_snap (snap_data demo_server) (NewMetadataServer 5 6) =
     Inr ((NewMetadataServer 5 6)\<lparr>root := root demo_server, dataNodes := dataNodes demo_server,
       lastHeartbeat := lastHeartbeat demo_server\<rparr>)"
  by (rule restore_snapshot [OF demo_server_def direct_snap_stores])

text \<open>
  C10 (recovery). A node that boots, restores a snapshot taken anywhere in the log and replays the
  entries behind it agrees, up to time stamps, with a node that replayed the whole log.
\<close>

theorem snapshot_recovery:
  assumes "s = replay (log_step codec) log (NewMetadataServer created modified)"
    and "stores snap s data" "same_log tail tail'"
    and "Restore snap data s0 = Inr s1"
  shows "same_state (replay (log_step codec) tail s1)
    (replay (log_step codec) (log @ tail') (NewMetadataServer created modified))"
proof -
  have "mds_inv s" unfolding assms(1) by (rule mds_log.replay_inv [OF mds_inv_new])
  from Restore_Snapshot_over [OF assms(2) this] assms(4) have "s1 = restore_over (snapshot_of s) s0"
    by simp
  moreover have "list_all2 same_entry tail tail'" using assms(3) by (simp add: same_log_iff)
  ultimately show ?thesis unfolding assms(1) by (simp only: mds_snap.recovery [OF mds_inv_new])
qed

theorem snapshot_recovery_witness:
  "\<exists>s1. Restore direct_snap (snap_data demo_server) (NewMetadataServer 5 6) = Inr s1 \<and>
     same_state (replay (log_step direct_codec) [(9, OpDelete, zero_payload\<lparr>p_Path := ''/d''\<rparr>)] s1)
       (replay (log_step direct_codec) (demo_log @ [(4, OpDelete, zero_payload\<lparr>p_Path := ''/d''\<rparr>)])
         (NewMetadataServer 0 0))"
proof -
  have "is_ok (Restore direct_snap (snap_data demo_server) (NewMetadataServer 5 6))"
    by (simp add: Restore_def direct_snap_def)
  then obtain s1 where s1: "Restore direct_snap (snap_data demo_server) (NewMetadataServer 5 6) = Inr s1"
    by (auto simp: is_ok_iff)
  moreover have "same_log [(9, OpDelete, zero_payload\<lparr>p_Path := ''/d''\<rparr>)]
      [(4, OpDelete, zero_payload\<lparr>p_Path := ''/d''\<rparr>)]" by (simp add: same_log_def)
  ultimately show ?thesis
    using snapshot_recovery [OF demo_server_def direct_snap_stores] by blast
qed

end
