(* ===== verification/Placement.thy ===== *)
theory Placement
  imports Apply_Invariants "HOL-Library.Signed_Division"
begin

text \<open>
  Replica placement for a new file: \<^verbatim>\<open>selectDataNodes\<close> of \<^verbatim>\<open>mds.go\<close>. The
  path is hashed in Go's 64-bit \<^verbatim>\<open>int\<close>, which wraps; the remainder is Go's, which takes the
  sign of the dividend, and indices are Go's signed ones. \<^const>\<open>None\<close> is a run-time panic: of a
  division by zero, or of a negative index into the list of nodes.
\<close>

definition path_hash :: "string \<Rightarrow> int64" where
  "path_hash path = foldl (\<lambda>h c. h * 31 + of_nat c) 0 (runes path)"

definition start_index :: "string \<Rightarrow> nat \<Rightarrow> int" where
  "start_index path nodes =
     (let startIdx = sint (path_hash path) smod int nodes
      in if startIdx < 0 then - startIdx else startIdx)"

fun pick_nodes :: "string list \<Rightarrow> int \<Rightarrow> string \<Rightarrow> string list \<Rightarrow> nat list \<Rightarrow> Replica list option" where
  "pick_nodes nodes startIdx remotePath seen [] = Some []"
| "pick_nodes nodes startIdx remotePath seen (i # is) =
     (let idx = (startIdx + int i) smod int (length nodes) in
      if idx < 0 then None
      else
       (let addr = nodes ! nat idx in
        if addr \<in> set seen then pick_nodes nodes startIdx remotePath seen is
        else map_option (\<lambda>rs. \<lparr>r_Addr = addr, r_RemotePath = remotePath\<rparr> # rs)
               (pick_nodes nodes startIdx remotePath (addr # seen) is)))"

definition selectDataNodes :: "mds \<Rightarrow> string \<Rightarrow> string \<Rightarrow> int \<Rightarrow> Replica list option" where
  "selectDataNodes s path fileID count =
     (let n = count;
          n = (if n > int (length (dataNodes s)) then int (length (dataNodes s)) else n);
          n = (if n < 1 then 1 else n)
      in if dataNodes s = [] then None
         else pick_nodes (dataNodes s) (start_index path (length (dataNodes s)))
                (data_dir @ fileID) [] [0..<nat n])"

lemma select_eq:
  assumes "dataNodes s \<noteq> []"
  shows "selectDataNodes s path fileID count =
    pick_nodes (dataNodes s) (start_index path (length (dataNodes s)))
      (data_dir @ fileID) [] [0..<nat (max 1 (min count (int (length (dataNodes s)))))]"
proof -
  have "(let n = count; n = (if n > m then m else n) in if n < 1 then 1 else n) = max 1 (min count m)"
    for m :: int by (simp add: Let_def max_def min_def)
  with assms show ?thesis by (simp add: selectDataNodes_def Let_def)
qed

subsection \<open>The start index\<close>

lemma start_index_bounds:
  assumes "n > 0"
  shows "0 \<le> start_index path n" "start_index path n < int n"
  using smod_int_range [where a = "sint (path_hash path)" and b = "int n"] assms
  by (auto simp: start_index_def Let_def)

lemma start_index_less: "n > 0 \<Longrightarrow> nat (start_index path n) < n"
  using start_index_bounds [of n path] by linarith

subsection \<open>The picked nodes\<close>

lemma smod_of_nat: "(int st + int i) smod int n = int ((st + i) mod n)"
  by (simp add: smod_int_alt_def sgn_if zmod_int)

text \<open>Over distinct nodes no step of the rotation is skipped.\<close>

lemma rotate_inj:
  assumes "(st + i) mod n = (st + j) mod n" "i < n" "j < n"
  shows "i = (j :: nat)"
proof -
  have "a = b" if "(st + a) mod n = (st + b) mod n" "a \<le> b" "b < n" for a b :: nat
  proof -
    from that have "n dvd (st + b) - (st + a)" by (metis mod_eq_dvd_iff_nat add_le_cancel_left)
    with that show ?thesis by (auto dest: dvd_imp_le)
  qed
  from this [of i j] this [of j i] assms show ?thesis by (metis nat_le_linear)
qed

lemma pick_nodes_all:
  assumes "distinct nodes" "distinct is" "\<And>i. i \<in> set is \<Longrightarrow> i < length nodes"
    and "\<And>i. i \<in> set is \<Longrightarrow> nodes ! ((st + i) mod length nodes) \<notin> set seen"
  shows "pick_nodes nodes (int st) rp seen is =
    Some (map (\<lambda>i. \<lparr>r_Addr = nodes ! ((st + i) mod length nodes), r_RemotePath = rp\<rparr>) is)"
  using assms
proof (induction nodes "int st" rp seen "is" rule: pick_nodes.induct)
  case (2 nodes rp seen i "is")
  let ?at = "\<lambda>j. nodes ! ((st + j) mod length nodes)"
  have ne: "length nodes > 0" using "2.prems"(3) [of i] by auto
  have "?at j \<noteq> ?at i" if "j \<in> set is" for j
  proof
    assume "?at j = ?at i"
    with "2.prems"(1) ne have "(st + j) mod length nodes = (st + i) mod length nodes"
      by (simp add: nth_eq_iff_index_eq)
    with "2.prems" that have "j = i" by (auto intro: rotate_inj)
    with "2.prems"(2) that show False by simp
  qed
  with 2 show ?case by (simp add: Let_def smod_of_nat)
qed simp

lemma placement:
  assumes "distinct (dataNodes s)" "dataNodes s \<noteq> []"
    and "n = length (dataNodes s)" "k = nat (max 1 (min count (int n)))"
  shows "\<exists>start rs. start < n \<and> selectDataNodes s path fileID count = Some rs \<and>
    rs = map (\<lambda>i. \<lparr>r_Addr = dataNodes s ! ((start + i) mod n), r_RemotePath = data_dir @ fileID\<rparr>)
           [0..<k] \<and>
    distinct (map r_Addr rs) \<and> k \<le> n \<and> placed_at fileID rs"
proof -
  define start where "start = nat (start_index path n)"
  define rs where "rs = map (\<lambda>i. \<lparr>r_Addr = dataNodes s ! ((start + i) mod n),
    r_RemotePath = data_dir @ fileID\<rparr>) [0..<k]"
  from assms(2,3) have n: "n > 0" by simp
  then have "max 1 (min count (int n)) \<le> int n" by simp
  then have k: "k \<le> n" unfolding assms(4) by (simp only: nat_le_iff)
  have "start < n" unfolding start_def by (rule start_index_less [OF n])
  moreover have "pick_nodes (dataNodes s) (int start) (data_dir @ fileID) [] [0..<k] = Some rs"
    unfolding rs_def assms(3) by (rule pick_nodes_all) (use assms k in auto)
  ultimately have "selectDataNodes s path fileID count = Some rs"
    using start_index_bounds(1) [OF n, of path]
    by (simp add: select_eq [OF assms(2)] start_def assms(3,4))
  moreover have "distinct (map r_Addr rs)"
  proof -
    have "inj_on (\<lambda>i. dataNodes s ! ((start + i) mod n)) (set [0..<k])"
    proof (rule inj_onI)
      fix i j assume ij: "i \<in> set [0..<k]" "j \<in> set [0..<k]"
        "dataNodes s ! ((start + i) mod n) = dataNodes s ! ((start + j) mod n)"
      then have "(start + i) mod n = (start + j) mod n"
        using nth_eq_iff_index_eq [OF assms(1)] n by (simp add: assms(3))
      with ij k show "i = j" by (intro rotate_inj [of start i n j]) auto
    qed
    then show ?thesis by (simp add: rs_def comp_def distinct_map)
  qed
  moreover have "placed_at fileID rs" by (auto simp: rs_def placed_at_def)
  ultimately show ?thesis using \<open>start < n\<close> k rs_def by blast
qed

text \<open>
  C40 (placement). As soon as a data node is registered, placement of a new file returns without a
  panic, for every path, however its hash overflows: no index is negative. It takes as many
  consecutive nodes of the ring as the replica count asks for and there are, at least one, all
  distinct, and puts the replica at the path of the file's identity on each.
\<close>

theorem selection:
  assumes "distinct (dataNodes s)" "dataNodes s \<noteq> []"
    and "n = length (dataNodes s)" "k = nat (max 1 (min count (int n)))"
  shows "\<exists>start rs. start < n \<and> selectDataNodes s path fileID count = Some rs \<and>
    rs = map (\<lambda>i. \<lparr>r_Addr = dataNodes s ! ((start + i) mod n), r_RemotePath = data_dir @ fileID\<rparr>)
           [0..<k] \<and>
    distinct (map r_Addr rs) \<and> k \<le> n \<and> placed_at fileID rs"
  by (rule placement [OF assms])

definition four_nodes :: mds where
  "four_nodes = (NewMetadataServer 0 0)\<lparr>dataNodes := [''a'', ''b'', ''c'', ''d'']\<rparr>"

theorem selection_witness:
  "\<exists>rs. selectDataNodes four_nodes ''/some/path'' ''F'' 3 = Some rs \<and> length rs = 3"
proof -
  have "distinct (dataNodes four_nodes)" "dataNodes four_nodes \<noteq> []" "length (dataNodes four_nodes) = 4"
    by (simp_all add: four_nodes_def)
  with selection [of four_nodes 4 3 3 "''/some/path''" "''F''"] show ?thesis by fastforce
qed

end
