(* ===== verification/Mds_Service.thy ===== *)
theory Mds_Service
  imports Placement Replicas "HOL-Library.List_Lexorder" "HOL-Library.Char_ord"
begin

text \<open>
  The RPC handlers of the metadata server (\<^verbatim>\<open>mds.go\<close>): the writes, which a leader turns
  into Raft commands, and the reads, which any node answers from its own tree. The Raft library is
  an argument: whether this node leads, who does, and \<^verbatim>\<open>Do\<close>, which takes the server's
  state to the state after the command returned. A handler returns its reply, or the error, with the
  server's state behind it.
\<close>

subsection \<open>File identities\<close>

definition hex_digit :: "nat \<Rightarrow> char" where
  "hex_digit n = ''0123456789abcdef'' ! n"

text \<open>\<^verbatim>\<open>hex.EncodeToString\<close>\<close>

fun hex_encode :: "byte list \<Rightarrow> string" where
  "hex_encode [] = []"
| "hex_encode (b # bs) = hex_digit (unat b div 16) # hex_digit (unat b mod 16) # hex_encode bs"

text \<open>The argument is what \<^verbatim>\<open>rand.Read\<close> gives: 16 bytes, or an error.\<close>

definition generateFileID :: "byte list result \<Rightarrow> string result" where
  "generateFileID rnd =
     (case rnd of Inl err \<Rightarrow> Inl (''generate file id failed: '' @ err) | Inr buf \<Rightarrow> Inr (hex_encode buf))"

subsection \<open>Commands\<close>

record 'd raft_node =
  IsLeader :: bool
  GetLeader :: string
  Do :: "string \<Rightarrow> 'd \<Rightarrow> mds \<Rightarrow> error option \<times> mds"

definition ErrNotLeader :: "string \<Rightarrow> error" where
  "ErrNotLeader leader = ''not leader, redirect to '' @ leader"

definition checkLeader :: "'d raft_node \<Rightarrow> error option" where
  "checkLeader raft = (if \<not> IsLeader raft then Some (ErrNotLeader (GetLeader raft)) else None)"

definition submitCommand ::
  "'d codec \<Rightarrow> 'd raft_node \<Rightarrow> commandPayload \<Rightarrow> mds \<Rightarrow> error option \<times> mds" where
  "submitCommand codec raft payload s =
     (case Marshal codec payload of
        Inl err \<Rightarrow> (Some (''marshal command payload failed: '' @ err), s)
      | Inr data \<Rightarrow>
          (case Do raft (p_Op payload) data s of
             (Some err, s') \<Rightarrow> (Some (''raft do failed: '' @ err), s')
           | (None, s') \<Rightarrow> (None, s')))"

text \<open>The end of every write: an error of the submission is returned, else the reply is set.\<close>

fun returning :: "'r \<Rightarrow> error option \<times> mds \<Rightarrow> 'r result \<times> mds" where
  "returning reply (Some err, s) = (Inl err, s)"
| "returning reply (None, s) = (Inr reply, s)"

subsection \<open>Writes\<close>

definition Heartbeat ::
  "'d codec \<Rightarrow> 'd raft_node \<Rightarrow> string \<Rightarrow> HeartbeatReply \<Rightarrow> mds \<Rightarrow> HeartbeatReply result \<times> mds" where
  "Heartbeat codec raft addr reply s =
     (case checkLeader raft of Some err \<Rightarrow> (Inl err, s)
      | None \<Rightarrow> returning (reply\<lparr>hb_IsLeader := True\<rparr>)
          (submitCommand codec raft (zero_payload\<lparr>p_Op := OpHeartbeat, p_Addr := addr\<rparr>) s))"

definition Mkdir ::
  "'d codec \<Rightarrow> 'd raft_node \<Rightarrow> byte list result \<Rightarrow> string \<Rightarrow> mds \<Rightarrow> bool result \<times> mds" where
  "Mkdir codec raft rnd path s =
     (case checkLeader raft of Some err \<Rightarrow> (Inl err, s)
      | None \<Rightarrow>
        (case generateFileID rnd of
           Inl err \<Rightarrow> (Inl (''generate file id failed: '' @ err), s)
         | Inr fileID \<Rightarrow> returning True
             (submitCommand codec raft
               (zero_payload\<lparr>p_Op := OpMkdir, p_Path := path, p_FileID := fileID\<rparr>) s)))"

text \<open>
  The command of a file creation. The run-time error of the division in
  \<^const>\<open>selectDataNodes\<close> cannot occur behind the check for data nodes.
\<close>

definition create_payload :: "CreateFileArgs \<Rightarrow> string \<Rightarrow> Replica list \<Rightarrow> commandPayload" where
  "create_payload args fileID replicas =
     zero_payload\<lparr>p_Op := OpCreateFile, p_Path := cf_Path args, p_Size := cf_Size args,
       p_Replicas := replicas, p_CreateMode := cf_CreateMode args, p_FileID := fileID\<rparr>"

definition CreateFile ::
  "'d codec \<Rightarrow> 'd raft_node \<Rightarrow> byte list result \<Rightarrow> CreateFileArgs \<Rightarrow> mds \<Rightarrow> CreateFileReply result \<times> mds" where
  "CreateFile codec raft rnd args s =
     (case checkLeader raft of Some err \<Rightarrow> (Inl err, s)
      | None \<Rightarrow>
        (case generateFileID rnd of
           Inl err \<Rightarrow> (Inl (''generate file id failed: '' @ err), s)
         | Inr fileID \<Rightarrow>
             if length (dataNodes s) = 0 then (Inl ''no data nodes registered'', s)
             else
              (let parts = splitPath (cf_Path args) in
               if length parts = 0 then (Inl (''invalid path: '' @ cf_Path args), s)
               else
                (case walk_dirs 0 (root s) (butlast parts) of
                   Inl _ \<Rightarrow> (Inl (''parent directory not found: '' @ cf_Path args), s)
                 | Inr _ \<Rightarrow>
                    (case selectDataNodes s (cf_Path args) fileID (replicaCount s) of
                       None \<Rightarrow> (Inl ''runtime error: integer divide by zero'', s)
                     | Some replicas \<Rightarrow>
                         returning \<lparr>cfr_Replicas = replicas\<rparr>
                           (submitCommand codec raft (create_payload args fileID replicas) s))))))"

definition CompleteFile :: "'d codec \<Rightarrow> 'd raft_node \<Rightarrow> string \<Rightarrow> mds \<Rightarrow> bool result \<times> mds" where
  "CompleteFile codec raft path s =
     (case checkLeader raft of Some err \<Rightarrow> (Inl err, s)
      | None \<Rightarrow> returning True
          (submitCommand codec raft (zero_payload\<lparr>p_Op := OpCompleteFile, p_Path := path\<rparr>) s))"

definition Delete :: "'d codec \<Rightarrow> 'd raft_node \<Rightarrow> string \<Rightarrow> mds \<Rightarrow> DeleteReply result \<times> mds" where
  "Delete codec raft path s =
     (case checkLeader raft of Some err \<Rightarrow> (Inl err, s)
      | None \<Rightarrow>
        (case lookup s path of
           None \<Rightarrow> (Inl (''path not found: '' @ path), s)
         | Some target \<Rightarrow>
            (let payload = zero_payload\<lparr>p_Op := OpDelete, p_Path := path, p_IsDir := isDir target,
                             p_Replicas := e_replicas (attr target)\<rparr>
             in returning \<lparr>dr_Replicas = p_Replicas payload, dr_IsDir = p_IsDir payload\<rparr>
                  (submitCommand codec raft payload s))))"

definition Rename :: "'d codec \<Rightarrow> 'd raft_node \<Rightarrow> RenameArgs \<Rightarrow> mds \<Rightarrow> bool result \<times> mds" where
  "Rename codec raft args s =
     (case checkLeader raft of Some err \<Rightarrow> (Inl err, s)
      | None \<Rightarrow>
          if ra_SrcPath args = [] \<or> ra_DstPath args = []
          then (Inl ''src_path and dst_path must not be empty'', s)
          else if ra_SrcPath args = ''/'' \<or> ra_DstPath args = ''/''
          then (Inl ''cannot rename root'', s)
          else if ra_SrcPath args = ra_DstPath args then (Inr True, s)
          else returning True
            (submitCommand codec raft
              (zero_payload\<lparr>p_Op := OpRename, p_Path := ra_SrcPath args,
                            p_DstPath := ra_DstPath args\<rparr>) s))"

definition UpdateSize :: "'d codec \<Rightarrow> 'd raft_node \<Rightarrow> UpdateSizeArgs \<Rightarrow> mds \<Rightarrow> bool result \<times> mds" where
  "UpdateSize codec raft args s =
     (case checkLeader raft of Some err \<Rightarrow> (Inl err, s)
      | None \<Rightarrow>
          if us_Path args = [] then (Inl ''path must not be empty'', s)
          else if sint (us_Size args) < 0 then (Inl ''size must not be negative'', s)
          else returning True
            (submitCommand codec raft
              (zero_payload\<lparr>p_Op := OpUpdateSize, p_Path := us_Path args,
                            p_NewSize := us_Size args\<rparr>) s))"

subsection \<open>Reads\<close>

definition GetFileLocation :: "string \<Rightarrow> mds \<Rightarrow> FileLocation result" where
  "GetFileLocation path s =
     (case lookup s path of
        None \<Rightarrow> Inl (''file not found: '' @ path)
      | Some e \<Rightarrow>
          if isDir e then Inl (path @ '' is a directory'')
          else Inr \<lparr>fl_FileID = e_fileID (attr e), fl_Replicas = e_replicas (attr e),
                    fl_Status = e_status (attr e)\<rparr>)"

definition file_info :: "string \<Rightarrow> string \<Rightarrow> entry_attr \<Rightarrow> FileInfo" where
  "file_info name path a =
     \<lparr>fi_Name = name, fi_Path = path, fi_IsDir = e_isDir a, fi_Size = e_size a, fi_Mode = e_mode a,
      fi_CreatedAt = e_createdAt a, fi_ModTime = e_modTime a, fi_FileID = e_fileID a\<rparr>"

text \<open>
  The comparison of \<^verbatim>\<open>sort.Slice\<close> in \<^verbatim>\<open>ListDir\<close>, directories first and then by
  name (Go compares strings byte by byte), as a linear order on keys.
\<close>

datatype listing_key = Key (key_isDir: bool) (key_name: string)

lemma listing_key_eq: "x = y \<longleftrightarrow> key_isDir x = key_isDir y \<and> key_name x = key_name y"
  by (cases x; cases y) simp

instantiation listing_key :: linorder
begin

definition less_listing_key :: "listing_key \<Rightarrow> listing_key \<Rightarrow> bool" where
  "less_listing_key a b \<longleftrightarrow>
     (if key_isDir a \<noteq> key_isDir b then key_isDir a else key_name a < key_name b)"

definition less_eq_listing_key :: "listing_key \<Rightarrow> listing_key \<Rightarrow> bool" where
  "less_eq_listing_key a b \<longleftrightarrow> a < b \<or> a = b"

instance
  by standard
    (auto simp: less_listing_key_def less_eq_listing_key_def listing_key_eq split: if_splits)

end

definition listing_key :: "FileInfo \<Rightarrow> listing_key" where
  "listing_key fi = Key (fi_IsDir fi) (fi_Name fi)"

definition ListDir :: "string \<Rightarrow> mds \<Rightarrow> FileInfo list result" where
  "ListDir path s =
     (case lookup s path of
        None \<Rightarrow> Inl (''directory not found: '' @ path)
      | Some e \<Rightarrow>
          if \<not> isDir e then Inl (path @ '' is not a directory'')
          else
           (let infos = map (\<lambda>(name, child). file_info name (FilepathJoin path name) (attr child))
                          (children e)
            in Inr (sort_key listing_key infos)))"

definition Stat :: "string \<Rightarrow> mds \<Rightarrow> FileInfo result" where
  "Stat path s =
     (case lookup s path of
        None \<Rightarrow> Inl (''path not found: '' @ path)
      | Some e \<Rightarrow> Inr (file_info (e_name (attr e)) path (attr e)))"

definition ListDataNodes :: "mds \<Rightarrow> string list result" where
  "ListDataNodes s = Inr (dataNodes s)"

end
