(* ===== verification/Service_Laws.thy ===== *)
theory Service_Laws
  imports Mds_Service
begin

text \<open>
  What the handlers rely on from the Raft library, as a hypothesis on \<^verbatim>\<open>Do\<close>: it commits the
  commands that other clients had in flight, applies this one and returns what \<^verbatim>\<open>Apply\<close>
  returned. \<open>others\<close> are the commands that come first; the handlers hold no lock while they wait.
\<close>

definition commits :: "'d codec \<Rightarrow> 'd raft_node \<Rightarrow> 'd log_entry list \<Rightarrow> time \<Rightarrow> bool" where
  "commits codec raft others now \<longleftrightarrow> (\<forall>op data s. Do raft op data s =
     (let s1 = replay (log_step codec) others s in
      case Apply codec now op data s1 of Inl err \<Rightarrow> (Some err, s1) | Inr s2 \<Rightarrow> (None, s2)))"

text \<open>The codec carries a payload through a log entry unchanged.\<close>

definition carries :: "'d codec \<Rightarrow> commandPayload \<Rightarrow> bool" where
  "carries codec p \<longleftrightarrow> (\<exists>data. Marshal codec p = Inr data \<and> Unmarshal codec data = Inr p)"

text \<open>A node that leads, with nothing else in flight.\<close>

definition solo_raft :: "'d codec \<Rightarrow> time \<Rightarrow> 'd raft_node" where
  "solo_raft codec now = \<lparr>IsLeader = True, GetLeader = [],
     Do = (\<lambda>op data s. case Apply codec now op data s of Inl err \<Rightarrow> (Some err, s) | Inr s' \<Rightarrow> (None, s'))\<rparr>"

lemma solo_commits: "commits codec (solo_raft codec now) [] now"
  by (simp add: commits_def solo_raft_def Let_def)

lemma direct_carries [simp]: "carries direct_codec p"
  by (simp add: carries_def direct_codec_def)

lemma submit_carried:
  assumes "commits codec raft others now" "carries codec p"
  shows "submitCommand codec raft p s =
    (let s1 = replay (log_step codec) others s in
     case apply_payload now (p_Op p) p s1 of
       Inl err \<Rightarrow> (Some (''raft do failed: '' @ err), s1) | Inr s2 \<Rightarrow> (None, s2))"
  using assms
  by (auto simp: carries_def submitCommand_def commits_def Apply_def Let_def split: sum.split)

text \<open>Whatever the codec does, a submission moves the server along its log.\<close>

lemma submit_replays:
  assumes "commits codec raft others now" "submitCommand codec raft p s = (r, s')"
  obtains cs where "s' = replay (log_step codec) cs s"
proof (cases "Marshal codec p")
  case (Inl err)
  with assms(2) have "s' = replay (log_step codec) [] s" by (simp add: submitCommand_def)
  then show thesis by (rule that)
next
  case (Inr data)
  let ?s1 = "replay (log_step codec) others s"
  from Inr assms have "s' = (case Apply codec now (p_Op p) data ?s1 of Inl _ \<Rightarrow> ?s1 | Inr s2 \<Rightarrow> s2)"
    by (auto simp: submitCommand_def commits_def Let_def split: sum.splits)
  then have "s' = replay (log_step codec) (others @ [(now, p_Op p, data)]) s"
    by (simp add: replay_append)
  then show thesis by (rule that)
qed

lemma submit_inv:
  assumes "commits codec raft others now" "submitCommand codec raft p s = (r, s')" "mds_inv s"
  shows "mds_inv s'"
  using submit_replays [OF assms(1,2)] mds_log.replay_inv [OF assms(3), of codec] by metis

lemma returning_snd: "snd (returning reply x) = snd x"
  by (cases x; cases "fst x") auto

lemma returning_fst: "fst (returning reply x) = (case fst x of Some err \<Rightarrow> Inl err | None \<Rightarrow> Inr reply)"
  by (cases x; cases "fst x") auto

end
