(* ===== verification/Os_Paths.thy ===== *)
theory Os_Paths
  imports Paths
begin

text \<open>
  Paths as the operating system resolves them, on a file system without symbolic links: the
  components that are left when \<^verbatim>\<open>.\<close> and \<^verbatim>\<open>..\<close> are followed. Relative paths
  are relative to one working directory. \<open>canon\<close> prints components the way
  \<^verbatim>\<open>filepath.Clean\<close> does.
\<close>

definition rooted :: "string \<Rightarrow> bool" where
  "rooted p = (p \<noteq> [] \<and> hd p = slash)"

definition comps :: "string \<Rightarrow> string list" where
  "comps p = clean_elems (rooted p) [] (Split slash p)"

text \<open>\<^verbatim>\<open>filepath.Dir\<close>: everything up to the last slash, cleaned.\<close>

definition FilepathDir :: "string \<Rightarrow> string" where
  "FilepathDir p = Clean (rev (dropWhile (\<lambda>c. c \<noteq> slash) (rev p)))"

definition clean_name :: "string \<Rightarrow> bool" where
  "clean_name w \<longleftrightarrow> valid_name w \<and> w \<noteq> dot \<and> w \<noteq> dotdot"

text \<open>What \<^const>\<open>clean_elems\<close> yields: names, behind some \<^verbatim>\<open>..\<close> if not rooted.\<close>

definition normal :: "bool \<Rightarrow> string list \<Rightarrow> bool" where
  "normal r es \<longleftrightarrow> (\<exists>k cs. es = replicate k dotdot @ cs \<and> (\<forall>w \<in> set cs. clean_name w) \<and> (r \<longrightarrow> k = 0))"

definition canon :: "bool \<Rightarrow> string list \<Rightarrow> string" where
  "canon r es = (if r then slash # join_slash es else if es = [] then dot else join_slash es)"

lemma Clean_canon: "Clean p = canon (rooted p) (comps p)"
proof (cases p)
  case Nil
  have "comps p = []" by (simp add: Nil comps_def)
  then show ?thesis by (simp add: Nil Clean_def canon_def rooted_def)
qed (simp add: Clean_def canon_def comps_def rooted_def Let_def)

lemma valid_dotdot: "valid_name dotdot"
  by (simp add: valid_name_def dotdot_def slash_def)

lemma dotdot_neq [simp]: "dotdot \<noteq> []" "dotdot \<noteq> dot"
  by (simp_all add: dotdot_def dot_def)

lemma normal_Nil [simp]: "normal r []"
  unfolding normal_def by (intro exI [of _ 0] exI [of _ "[]"]) simp

lemma normal_clean: "\<forall>w \<in> set ws. clean_name w \<Longrightarrow> normal r ws"
  unfolding normal_def by (intro exI [of _ 0] exI [of _ ws]) simp

lemma normal_append: "normal r es \<Longrightarrow> \<forall>w \<in> set ws. clean_name w \<Longrightarrow> normal r (es @ ws)"
  unfolding normal_def by (metis UnE append_assoc set_append)

lemma normal_valid: "normal r es \<Longrightarrow> w \<in> set es \<Longrightarrow> valid_name w"
  by (auto simp: normal_def clean_name_def valid_dotdot)

lemma normal_butlast: "normal r (es @ [w]) \<Longrightarrow> normal r es"
proof -
  assume "normal r (es @ [w])"
  then obtain k cs where kc: "es @ [w] = replicate k dotdot @ cs" "\<forall>w \<in> set cs. clean_name w"
    "r \<longrightarrow> k = 0" by (auto simp: normal_def)
  show ?thesis
  proof (cases cs rule: rev_cases)
    case Nil
    with kc have "es = replicate (k - 1) dotdot"
      by (metis append_Nil2 butlast_snoc butlast_conv_take take_replicate length_replicate min.absorb1 diff_le_self)
    with kc show ?thesis unfolding normal_def by (intro exI [of _ "k - 1"] exI [of _ "[]"]) auto
  next
    case (snoc cs' c)
    with kc show ?thesis unfolding normal_def by (intro exI [of _ k] exI [of _ cs']) auto
  qed
qed

subsection \<open>Cleaning\<close>

lemma clean_elems_append:
  "clean_elems r out (as @ bs) = clean_elems r (rev (clean_elems r out as)) bs"
  by (induction r out as rule: clean_elems.induct) (auto split: list.splits)

lemma clean_elems_names:
  "\<forall>w \<in> set ws. clean_name w \<Longrightarrow> clean_elems r out ws = rev out @ ws"
  by (induction ws arbitrary: out) (auto simp: clean_name_def valid_name_def)

lemma clean_elems_dotdots: "clean_elems False (replicate j dotdot) (replicate k dotdot) =
    replicate (j + k) dotdot"
proof (induction k arbitrary: j)
  case (Suc k)
  from Suc [of "Suc j"] show ?case by (cases j) simp_all
qed simp

lemma clean_elems_normal_id: "normal r es \<Longrightarrow> clean_elems r [] es = es"
proof -
  assume "normal r es"
  then obtain k cs where kc: "es = replicate k dotdot @ cs" "\<forall>w \<in> set cs. clean_name w"
    "r \<longrightarrow> k = 0" by (auto simp: normal_def)
  show ?thesis
  proof (cases r)
    case True
    with kc show ?thesis by (simp add: clean_elems_names)
  next
    case False
    with kc clean_elems_dotdots [of 0 k] show ?thesis by (simp add: clean_elems_append clean_elems_names)
  qed
qed

lemma clean_elems_normal:
  assumes "normal r (rev out)" "\<forall>w \<in> set es. slash \<notin> set w"
  shows "normal r (clean_elems r out es)"
  using assms
proof (induction r out es rule: clean_elems.induct)
  case (2 r out e es)
  then have es: "\<forall>w \<in> set es. slash \<notin> set w" by simp
  consider "e = [] \<or> e = dot" | "e \<noteq> []" "e \<noteq> dot" "e = dotdot" | "e \<noteq> []" "e \<noteq> dot" "e \<noteq> dotdot"
    by blast
  then show ?case
  proof cases
    case 1
    with 2 es show ?thesis by simp
  next
    case 3
    with 2 have "clean_name e" by (simp add: clean_name_def valid_name_def)
    with "2.prems"(1) have "normal r (rev (e # out))" using normal_append [of r "rev out" "[e]"] by simp
    with 2 3 es show ?thesis by simp
  next
    case e: 2
    have ups: "normal False (replicate j dotdot)" for j
      unfolding normal_def by (intro exI [of _ j] exI [of _ "[]"]) simp
    show ?thesis
    proof (cases out)
      case Nil
      with 2 e es ups [of 1] show ?thesis by auto
    next
      case (Cons w ws)
      show ?thesis
      proof (cases "w = dotdot")
        case False
        with 2 e es Cons normal_butlast [of r "rev ws" w] show ?thesis by simp
      next
        case True
        from "2.prems"(1) obtain k cs where kc: "rev out = replicate k dotdot @ cs"
          "\<forall>w \<in> set cs. clean_name w" "r \<longrightarrow> k = 0" by (auto simp: normal_def)
        from kc(1) True Cons have "cs = [] \<or> last cs = dotdot"
          by (metis last_appendR last_rev list.sel(1) rev_is_Nil_conv)
        with kc(2) have "cs = []" by (metis clean_name_def last_in_set)
        with kc Cons True have "\<not> r" "rev (dotdot # out) = replicate (Suc k) dotdot"
          by (auto simp: replicate_append_same)
        with ups [of "Suc k"] have "normal r (rev (dotdot # out))" by simp
        with 2 e es Cons True show ?thesis by simp
      qed
    qed
  qed
qed simp

lemma comps_normal: "normal (rooted p) (comps p)"
  unfolding comps_def by (rule clean_elems_normal) (auto dest: Split_no_sep)

subsection \<open>Printed components\<close>

lemma Split_join_slash:
  "es \<noteq> [] \<Longrightarrow> \<forall>w \<in> set es. slash \<notin> set w \<Longrightarrow> Split slash (join_slash es) = es"
  by (induction es rule: join_slash.induct) (auto simp: Split_append Split_single)

lemma rooted_canon:
  assumes "normal r es"
  shows "rooted (canon r es) = r"
proof (cases "r \<or> es = []")
  case True
  then show ?thesis by (auto simp: canon_def rooted_def dot_def slash_def)
next
  case False
  then obtain e es' where e: "es = e # es'" by (cases es) auto
  with assms have "valid_name e" by (auto intro: normal_valid)
  with False e show ?thesis
    by (cases es'; cases e) (auto simp: canon_def rooted_def valid_name_def)
qed

lemma comps_canon:
  assumes "normal r es"
  shows "comps (canon r es) = es"
proof -
  have ns: "\<forall>w \<in> set es. slash \<notin> set w" using normal_valid [OF assms] by (auto simp: valid_name_def)
  have id: "clean_elems r [] es = es" by (rule clean_elems_normal_id [OF assms])
  consider "es = []" "\<not> r" | "es = []" r | "es \<noteq> []" by blast
  then show ?thesis
  proof cases
    case 1
    then show ?thesis by (simp add: canon_def comps_def rooted_def dot_def slash_def)
  next
    case 2
    then show ?thesis by (simp add: canon_def comps_def)
  next
    case 3
    with Split_join_slash [OF 3 ns] id show ?thesis
      unfolding comps_def rooted_canon [OF assms] by (cases r) (simp_all add: canon_def)
  qed
qed

lemma comps_Clean [simp]: "comps (Clean p) = comps p"
  by (simp add: Clean_canon comps_canon comps_normal)

lemma rooted_Clean [simp]: "rooted (Clean p) = rooted p"
  by (simp add: Clean_canon rooted_canon comps_normal)

text \<open>Joining a cleaned absolute path to a directory appends its components.\<close>

lemma comps_abs_path:
  assumes "\<forall>w \<in> set ws. clean_name w"
  shows "comps (abs_path ws) = ws"
  using comps_canon [of True ws] normal_clean [OF assms] by (simp add: canon_def abs_path_def)

lemma Split_abs_path:
  assumes "\<forall>w \<in> set ws. clean_name w"
  shows "Split slash (abs_path ws) = [] # (if ws = [] then [[]] else ws)"
  using assms Split_join_slash [of ws] by (auto simp: abs_path_def clean_name_def valid_name_def)

lemma join_abs_path:
  assumes "\<forall>w \<in> set ws. clean_name w" "a \<noteq> []"
  shows "FilepathJoin a (abs_path ws) = canon (rooted a) (comps a @ ws)"
proof -
  let ?p = "a @ slash # abs_path ws"
  have r: "rooted ?p = rooted a" using assms(2) by (simp add: rooted_def)
  have "comps ?p = clean_elems (rooted a) (rev (comps a)) (Split slash (abs_path ws))"
    unfolding comps_def r Split_append clean_elems_append ..
  also have "\<dots> = comps a @ ws"
    using assms(1) by (simp add: Split_abs_path clean_elems_names)
  finally have "comps ?p = comps a @ ws" .
  with r assms(2) show ?thesis by (simp add: FilepathJoin_def Clean_canon)
qed

lemma join_slash_snoc: "join_slash (vs @ [n]) = (if vs = [] then n else join_slash vs @ slash # n)"
  by (induction vs rule: join_slash.induct) auto

lemma canon_snoc: "canon r (es @ [w]) =
    (if es = [] then (if r then [slash] else []) @ w else canon r es @ slash # w)"
  by (simp add: canon_def join_slash_snoc)

lemma dropWhile_name:
  assumes "slash \<notin> set w"
  shows "dropWhile (\<lambda>c. c \<noteq> slash) (rev w @ slash # ys) = slash # ys"
    and "dropWhile (\<lambda>c. c \<noteq> slash) (rev w) = []"
proof -
  have "dropWhile (\<lambda>c. c \<noteq> slash) (rev w @ ys) = dropWhile (\<lambda>c. c \<noteq> slash) ys" for ys
    using assms by (intro dropWhile_append2) auto
  from this [of "slash # ys"] this [of "[]"]
  show "dropWhile (\<lambda>c. c \<noteq> slash) (rev w @ slash # ys) = slash # ys"
    and "dropWhile (\<lambda>c. c \<noteq> slash) (rev w) = []" by simp_all
qed

lemma comps_snoc_slash: "p \<noteq> [] \<Longrightarrow> comps (p @ [slash]) = comps p"
  by (simp add: comps_def rooted_def Split_append clean_elems_append)

lemma comps_Dir:
  assumes "normal r (es @ [w])"
  shows "comps (FilepathDir (canon r (es @ [w]))) = es"
proof -
  have w: "slash \<notin> set w" using normal_valid [OF assms, of w] by (simp add: valid_name_def)
  have es: "normal r es" by (rule normal_butlast [OF assms])
  show ?thesis
  proof (cases "es = []")
    case True
    have "comps [] = []" "comps [slash] = []" by (simp_all add: comps_def)
    with True show ?thesis
      by (cases r) (simp_all add: FilepathDir_def canon_def dropWhile_name [OF w])
  next
    case False
    have "canon r es \<noteq> []" using False comps_canon [OF es] by (auto simp: comps_def)
    with False comps_canon [OF es] show ?thesis
      by (simp add: FilepathDir_def canon_snoc dropWhile_name [OF w] comps_snoc_slash)
  qed
qed

lemma comps_Dir_butlast:
  assumes "normal r es"
  shows "comps (FilepathDir (canon r es)) = butlast es"
proof (cases es rule: rev_cases)
  case Nil
  have s: "comps [] = []" "comps [slash] = []" by (simp_all add: comps_def)
  have d: "dropWhile (\<lambda>c. c \<noteq> slash) dot = []" "rev dot = dot"
    by (simp_all add: dot_def slash_def del: slash_lit)
  show ?thesis by (cases r) (simp_all add: Nil canon_def FilepathDir_def s d)
next
  case (snoc es' w)
  with comps_Dir assms show ?thesis by simp
qed

text \<open>A name with an extension.\<close>

lemma comps_extended:
  assumes "normal r (es @ [w])" "clean_name (w @ x)"
  shows "comps (canon r (es @ [w]) @ x) = es @ [w @ x]"
proof -
  have "normal r (es @ [w @ x])"
    using normal_append [OF normal_butlast [OF assms(1)], of "[w @ x]"] assms(2) by simp
  moreover have "canon r (es @ [w]) @ x = canon r (es @ [w @ x])" by (simp add: canon_snoc)
  ultimately show ?thesis by (simp add: comps_canon)
qed

end
