(* ===== verification/Os_Disk.thy ===== *)
theory Os_Disk
  imports Os_Paths
begin

text \<open>
  The part of Go's \<^verbatim>\<open>os\<close> package that the data node calls, on a disk without symbolic
  links. A disk maps paths, as component lists, to directories and files. Besides the errors that
  the disk itself explains, every call can fail for reasons outside the program; the environment is
  an argument that says which calls do, how much a failing write has written by then, and the
  longest slice of bytes that \<^verbatim>\<open>make\<close> can allocate: behind it \<^verbatim>\<open>make\<close> panics.
\<close>

datatype fnode = Dir | File (f_bytes: "byte list") (f_mtime: time)

type_synonym disk = "(string list \<times> fnode) list"

datatype os_error = NotExist (err_text: string) | OtherError (err_text: string)

definition IsNotExist :: "os_error \<Rightarrow> bool" where
  "IsNotExist e = (case e of NotExist _ \<Rightarrow> True | OtherError _ \<Rightarrow> False)"

datatype syscall = SMkdir | SStat | SOpen | SRead | SWrite | SRename | SRemove | STruncate | SSync | SWalk

record os_env =
  fails :: "syscall \<Rightarrow> string \<Rightarrow> string option"
  written :: "string \<Rightarrow> nat"
  make_max :: int

text \<open>Nothing fails, and there is memory for every length that an \<^verbatim>\<open>int64\<close> can ask for.\<close>

definition calm :: os_env where
  "calm = \<lparr>fails = (\<lambda>_ _. None), written = (\<lambda>_. 0), make_max = 9223372036854775807\<rparr>"

subsection \<open>Looking up\<close>

definition is_file :: "fnode option \<Rightarrow> bool" where
  "is_file n = (case n of Some (File _ _) \<Rightarrow> True | _ \<Rightarrow> False)"

text \<open>A file stands where the path needs a directory.\<close>

definition blocked :: "disk \<Rightarrow> string list \<Rightarrow> bool" where
  "blocked d q = list_ex (\<lambda>p. is_file (map_of d p)) (butlast (prefixes q))"

definition not_found :: "string \<Rightarrow> os_error" where
  "not_found p = NotExist (p @ '': no such file or directory'')"

definition not_dir :: "string \<Rightarrow> os_error" where
  "not_dir p = OtherError (p @ '': not a directory'')"

definition is_a_dir :: "string \<Rightarrow> os_error" where
  "is_a_dir p = OtherError (p @ '': is a directory'')"

definition node_at :: "disk \<Rightarrow> string list \<Rightarrow> fnode option" where
  "node_at d q = (if q = [] then Some Dir else map_of d q)"

definition find_node :: "disk \<Rightarrow> string \<Rightarrow> os_error + fnode" where
  "find_node d p =
     (if blocked d (comps p) then Inl (not_dir p)
      else (case node_at d (comps p) of None \<Rightarrow> Inl (not_found p) | Some n \<Rightarrow> Inr n))"

subsection \<open>Directories\<close>

definition make_dir :: "disk \<Rightarrow> string list \<Rightarrow> disk" where
  "make_dir d q = (if node_at d q = None then AList.update q Dir d else d)"

definition MkdirAll :: "os_env \<Rightarrow> string \<Rightarrow> disk \<Rightarrow> os_error + disk" where
  "MkdirAll env p d =
     (case fails env SMkdir p of Some err \<Rightarrow> Inl (OtherError err)
      | None \<Rightarrow>
          if list_ex (\<lambda>q. is_file (map_of d q)) (prefixes (comps p)) then Inl (not_dir p)
          else Inr (foldl make_dir d (prefixes (comps p))))"

subsection \<open>Files\<close>

definition put_file :: "string \<Rightarrow> byte list \<Rightarrow> time \<Rightarrow> disk \<Rightarrow> disk" where
  "put_file p bs now d = AList.update (comps p) (File bs now) d"

text \<open>
  \<^verbatim>\<open>os.OpenFile\<close> for writing, with \<^verbatim>\<open>O_CREATE\<close>: the file's content after the call.
  Opening with \<^verbatim>\<open>O_TRUNC\<close> empties it.
\<close>

definition open_create :: "os_env \<Rightarrow> bool \<Rightarrow> time \<Rightarrow> string \<Rightarrow> disk \<Rightarrow> os_error + disk" where
  "open_create env trunc now p d =
     (case fails env SOpen p of Some err \<Rightarrow> Inl (OtherError err)
      | None \<Rightarrow>
        (case find_node d p of
           Inr Dir \<Rightarrow> Inl (is_a_dir p)
         | Inr (File bs t) \<Rightarrow> Inr (if trunc then put_file p [] now d else d)
         | Inl err \<Rightarrow>
             if \<not> IsNotExist err then Inl err
             else if node_at d (butlast (comps p)) \<noteq> Some Dir then Inl err
             else Inr (put_file p [] now d)))"

definition file_bytes :: "disk \<Rightarrow> string \<Rightarrow> byte list" where
  "file_bytes d p = (case node_at d (comps p) of Some (File bs _) \<Rightarrow> bs | _ \<Rightarrow> [])"

text \<open>Bytes behind the end of a file read as zero once something behind them is written.\<close>

definition splice :: "nat \<Rightarrow> byte list \<Rightarrow> byte list \<Rightarrow> byte list" where
  "splice off new bs =
     take off bs @ replicate (off - length bs) 0 @ new @ drop (off + length new) bs"

text \<open>
  \<^verbatim>\<open>(*File).WriteAt\<close> on an opened file: the number of bytes written, the error, the disk.
  It makes no system call for no bytes.
\<close>

definition OsWriteAt ::
  "os_env \<Rightarrow> time \<Rightarrow> string \<Rightarrow> byte list \<Rightarrow> int64 \<Rightarrow> disk \<Rightarrow> nat \<times> os_error option \<times> disk" where
  "OsWriteAt env now p new off d =
     (if sint off < 0 then (0, Some (OtherError (p @ '': negative offset'')), d)
      else if new = [] then (0, None, d)
      else (case fails env SWrite p of
          Some err \<Rightarrow>
            (let k = min (written env p) (length new) in
             (k, Some (OtherError err),
              if k = 0 then d
              else put_file p (splice (nat (sint off)) (take k new) (file_bytes d p)) now d))
        | None \<Rightarrow>
            (length new, None, put_file p (splice (nat (sint off)) new (file_bytes d p)) now d)))"

definition WriteFile :: "os_env \<Rightarrow> time \<Rightarrow> string \<Rightarrow> byte list \<Rightarrow> disk \<Rightarrow> os_error option \<times> disk" where
  "WriteFile env now p content d =
     (case open_create env True now p d of
        Inl err \<Rightarrow> (Some err, d)
      | Inr d \<Rightarrow> (case OsWriteAt env now p content 0 d of (_, err, d) \<Rightarrow> (err, d)))"

text \<open>The source of the one rename in the program is a file that has just been written.\<close>

definition OsRename :: "os_env \<Rightarrow> string \<Rightarrow> string \<Rightarrow> disk \<Rightarrow> os_error option \<times> disk" where
  "OsRename env old new d =
     (case fails env SRename new of Some err \<Rightarrow> (Some (OtherError err), d)
      | None \<Rightarrow>
        (case (find_node d old, find_node d new) of
           (Inl err, _) \<Rightarrow> (Some err, d)
         | (Inr Dir, _) \<Rightarrow> (Some (is_a_dir old), d)
         | (_, Inr Dir) \<Rightarrow> (Some (OtherError (new @ '': file exists'')), d)
         | (Inr (File bs t), Inr (File _ _)) \<Rightarrow>
             (None, put_file new bs t (AList.delete (comps old) d))
         | (Inr (File bs t), Inl err) \<Rightarrow>
             if \<not> IsNotExist err \<or> node_at d (butlast (comps new)) \<noteq> Some Dir then (Some err, d)
             else (None, put_file new bs t (AList.delete (comps old) d))))"

definition Remove :: "os_env \<Rightarrow> string \<Rightarrow> disk \<Rightarrow> os_error option \<times> disk" where
  "Remove env p d =
     (case fails env SRemove p of Some err \<Rightarrow> (Some (OtherError err), d)
      | None \<Rightarrow>
        (case find_node d p of
           Inl err \<Rightarrow> (Some err, d)
         | Inr Dir \<Rightarrow>
             if comps p = [] \<or> (\<exists>kn \<in> set d. strict_prefix (comps p) (fst kn))
             then (Some (OtherError (p @ '': directory not empty'')), d)
             else (None, AList.delete (comps p) d)
         | Inr (File _ _) \<Rightarrow> (None, AList.delete (comps p) d)))"

definition ReadFile :: "os_env \<Rightarrow> string \<Rightarrow> disk \<Rightarrow> os_error + byte list" where
  "ReadFile env p d =
     (case fails env SOpen p of Some err \<Rightarrow> Inl (OtherError err)
      | None \<Rightarrow>
        (case find_node d p of
           Inl err \<Rightarrow> Inl err
         | Inr Dir \<Rightarrow> Inl (is_a_dir p)
         | Inr (File bs _) \<Rightarrow>
             (case fails env SRead p of Some err \<Rightarrow> Inl (OtherError err) | None \<Rightarrow> Inr bs)))"

definition resize :: "nat \<Rightarrow> byte list \<Rightarrow> byte list" where
  "resize n bs = take n bs @ replicate (n - length bs) 0"

definition OsTruncate :: "os_env \<Rightarrow> time \<Rightarrow> string \<Rightarrow> int64 \<Rightarrow> disk \<Rightarrow> os_error option \<times> disk" where
  "OsTruncate env now p sz d =
     (case fails env STruncate p of Some err \<Rightarrow> (Some (OtherError err), d)
      | None \<Rightarrow>
        if sint sz < 0 then (Some (OtherError (p @ '': invalid argument'')), d)
        else (case find_node d p of
            Inl err \<Rightarrow> (Some err, d)
          | Inr Dir \<Rightarrow> (Some (is_a_dir p), d)
          | Inr (File bs _) \<Rightarrow> (None, put_file p (resize (nat (sint sz)) bs) now d)))"

end
