(* ===== verification/Data_Node.thy ===== *)
theory Data_Node
  imports Os_Disk Fs_Types "HOL-Library.List_Lexorder" "HOL-Library.Char_ord"
begin

text \<open>
  The data node (\<^verbatim>\<open>internal/datanode/datanode.go\<close>): file contents on a local disk below
  one directory, served over RPC. Every handler runs under the node's lock and is one step here; it
  takes the environment of its system calls and the clock, and returns its reply or the error with
  the disk behind it. \<^verbatim>\<open>ReplicateFile\<close>, which talks to another node, is in
  \<open>Replicate_File\<close>.
\<close>

record data_node =
  dataDir :: string
  mdsAddr :: string
  dn_addr :: string
  HeartbeatInterval :: duration
  dn_disk :: disk

definition heartbeatInterval :: duration where
  "heartbeatInterval = 5 * minute"

definition NewDataNode :: "os_env \<Rightarrow> string \<Rightarrow> string \<Rightarrow> string \<Rightarrow> disk \<Rightarrow> data_node result" where
  "NewDataNode env dir mds addr d =
     (case MkdirAll env dir d of
        Inl err \<Rightarrow> Inl (''failed to create data dir: '' @ err_text err)
      | Inr d \<Rightarrow> Inr \<lparr>dataDir = dir, mdsAddr = mds, dn_addr = addr,
                     HeartbeatInterval = heartbeatInterval, dn_disk = d\<rparr>)"

subsection \<open>Paths\<close>

definition resolvePath :: "string \<Rightarrow> string \<Rightarrow> string result" where
  "resolvePath dir remotePath =
     (let clean = Clean (''/'' @ TrimPrefix remotePath ''/'') in
      if Contains clean dotdot then Inl (''invalid path: '' @ remotePath)
      else Inr (FilepathJoin dir clean))"

text \<open>What the handlers share: resolve the path or return the error.\<close>

definition with_path :: "string \<Rightarrow> data_node \<Rightarrow> (string \<Rightarrow> 'r result \<times> data_node) \<Rightarrow> 'r result \<times> data_node" where
  "with_path path n k =
     (case resolvePath (dataDir n) path of Inl err \<Rightarrow> (Inl err, n) | Inr realPath \<Rightarrow> k realPath)"

definition failed :: "string \<Rightarrow> os_error \<Rightarrow> 'r result" where
  "failed msg err = Inl (msg @ err_text err)"

subsection \<open>Whole files\<close>

definition tmp_ext :: string where
  "tmp_ext = ''.tmp''"

definition StoreData :: "os_env \<Rightarrow> time \<Rightarrow> StoreArgs \<Rightarrow> data_node \<Rightarrow> bool result \<times> data_node" where
  "StoreData env now args n =
     with_path (sa_Path args) n (\<lambda>realPath.
       case MkdirAll env (FilepathDir realPath) (dn_disk n) of
         Inl err \<Rightarrow> (failed ''failed to create parent dir: '' err, n)
       | Inr d \<Rightarrow>
          (let tmpPath = realPath @ tmp_ext in
           case WriteFile env now tmpPath (sa_Content args) d of
             (Some err, d) \<Rightarrow> (failed ''failed to write data: '' err, n\<lparr>dn_disk := d\<rparr>)
           | (None, d) \<Rightarrow>
              (case OsRename env tmpPath realPath d of
                 (Some err, d) \<Rightarrow>
                   (failed ''failed to rename temp file: '' err,
                    n\<lparr>dn_disk := snd (Remove env tmpPath d)\<rparr>)
               | (None, d) \<Rightarrow> (Inr True, n\<lparr>dn_disk := d\<rparr>))))"

definition GetData :: "os_env \<Rightarrow> string \<Rightarrow> data_node \<Rightarrow> byte list result" where
  "GetData env path n =
     (case resolvePath (dataDir n) path of Inl err \<Rightarrow> Inl err
      | Inr realPath \<Rightarrow>
         (case ReadFile env realPath (dn_disk n) of
            Inl err \<Rightarrow> if IsNotExist err then Inl (''data not found: '' @ path)
                       else failed ''failed to read data: '' err
          | Inr data \<Rightarrow> Inr data))"

definition DeleteData :: "os_env \<Rightarrow> string \<Rightarrow> data_node \<Rightarrow> bool result \<times> data_node" where
  "DeleteData env path n =
     with_path path n (\<lambda>realPath.
       case Remove env realPath (dn_disk n) of
         (Some err, d) \<Rightarrow>
           if IsNotExist err then (Inr True, n\<lparr>dn_disk := d\<rparr>)
           else (failed ''failed to delete data: '' err, n\<lparr>dn_disk := d\<rparr>)
       | (None, d) \<Rightarrow> (Inr True, n\<lparr>dn_disk := d\<rparr>))"

definition HealthCheck :: "bool result" where
  "HealthCheck = Inr True"

subsection \<open>Listing\<close>

text \<open>
  \<^verbatim>\<open>filepath.Walk\<close> visits the entries of a directory in lexical order and descends as it
  goes: the files come in the lexical order of their component lists.
\<close>

definition files_below :: "string list \<Rightarrow> disk \<Rightarrow> (string list \<times> time) list" where
  "files_below dir d =
     sort_key fst
       (concat (map (\<lambda>(q, nd). case nd of Dir \<Rightarrow> []
                      | File _ t \<Rightarrow> if strict_prefix dir q then [(drop (length dir) q, t)] else []) d))"

definition ListAllPaths :: "os_env \<Rightarrow> data_node \<Rightarrow> NodeFile list result" where
  "ListAllPaths env n =
     (case fails env SWalk (dataDir n) of
        Some err \<Rightarrow> Inl (''walk data dir failed: '' @ err)
      | None \<Rightarrow>
         (case find_node (dn_disk n) (dataDir n) of
            Inl err \<Rightarrow> failed ''walk data dir failed: '' err
          | Inr (File _ t) \<Rightarrow>
              Inr (if HasSuffix (dataDir n) tmp_ext then [] else [\<lparr>nf_Path = ''/.'', nf_ModTime = t\<rparr>])
          | Inr Dir \<Rightarrow>
              Inr (map (\<lambda>(q, t). \<lparr>nf_Path = abs_path q, nf_ModTime = t\<rparr>)
                    (filter (\<lambda>(q, t). \<not> HasSuffix (abs_path q) tmp_ext)
                      (files_below (comps (dataDir n)) (dn_disk n))))))"

subsection \<open>Ranges\<close>

text \<open>
  \<^const>\<open>None\<close> is the run-time panic of \<^verbatim>\<open>make([]byte, args.Length)\<close> for a length
  that is negative or beyond what can be allocated. The last argument is the reply as the caller passes it in: the end-of-file flag is set,
  never cleared.
\<close>

definition RangeRead :: "os_env \<Rightarrow> RangeReadArgs \<Rightarrow> data_node \<Rightarrow> RangeReadReply \<Rightarrow> RangeReadReply result option" where
  "RangeRead env args n reply =
     (case resolvePath (dataDir n) (rr_Path args) of Inl err \<Rightarrow> Some (Inl err)
      | Inr realPath \<Rightarrow>
         (case fails env SOpen realPath of
            Some err \<Rightarrow> Some (Inl (''failed to open data: '' @ err))
          | None \<Rightarrow>
            (case find_node (dn_disk n) realPath of
               Inl err \<Rightarrow>
                 Some (if IsNotExist err then Inr (reply\<lparr>rrr_Data := [], rrr_EOF := True\<rparr>)
                       else failed ''failed to open data: '' err)
             | Inr nd \<Rightarrow>
                 if sint (rr_Length args) < 0 \<or> make_max env < sint (rr_Length args) then None
                 else if sint (rr_Offset args) < 0
                 then Some (Inl (''failed to read range: '' @ realPath @ '': negative offset''))
                 else if rr_Length args \<noteq> 0 \<and> (nd = Dir \<or> fails env SRead realPath \<noteq> None)
                 then Some (Inl (''failed to read range: '' @
                        (if nd = Dir then realPath @ '': is a directory''
                         else the (fails env SRead realPath))))
                 else
                  (let len = nat (sint (rr_Length args));
                       data = take len (drop (nat (sint (rr_Offset args)))
                                (case nd of File bs _ \<Rightarrow> bs | Dir \<Rightarrow> []))
                   in Some (Inr (reply\<lparr>rrr_Data := data,
                                       rrr_EOF := rrr_EOF reply \<or> length data < len\<rparr>)))))) "

definition PartialWrite :: "os_env \<Rightarrow> time \<Rightarrow> PartialWriteArgs \<Rightarrow> data_node \<Rightarrow> bool result \<times> data_node" where
  "PartialWrite env now args n =
     with_path (pw_Path args) n (\<lambda>realPath.
       case MkdirAll env (FilepathDir realPath) (dn_disk n) of
         Inl err \<Rightarrow> (failed ''failed to create parent dir: '' err, n)
       | Inr d \<Rightarrow>
          (case open_create env False now realPath d of
             Inl err \<Rightarrow> (failed ''failed to open data for write: '' err, n\<lparr>dn_disk := d\<rparr>)
           | Inr d \<Rightarrow>
              (case OsWriteAt env now realPath (pw_Data args) (pw_Offset args) d of
                 (_, Some err, d) \<Rightarrow> (failed ''failed to write range: '' err, n\<lparr>dn_disk := d\<rparr>)
               | (k, None, d) \<Rightarrow>
                   if k \<noteq> length (pw_Data args)
                   then (Inl (''partial write short: wrote '' @ show_nat k @ '', expected '' @
                              show_nat (length (pw_Data args))), n\<lparr>dn_disk := d\<rparr>)
                   else (Inr True, n\<lparr>dn_disk := d\<rparr>))))"

definition TruncateData :: "os_env \<Rightarrow> time \<Rightarrow> TruncateArgs \<Rightarrow> data_node \<Rightarrow> bool result \<times> data_node" where
  "TruncateData env now args n =
     with_path (ta_Path args) n (\<lambda>realPath.
       let truncate = (\<lambda>d. case OsTruncate env now realPath (ta_Size args) d of
             (Some err, d) \<Rightarrow> (failed ''failed to truncate data: '' err, n\<lparr>dn_disk := d\<rparr>)
           | (None, d) \<Rightarrow> (Inr True, n\<lparr>dn_disk := d\<rparr>))
       in if sint (ta_Size args) > 0 then
            (case MkdirAll env (FilepathDir realPath) (dn_disk n) of
               Inl err \<Rightarrow> (failed ''ensure parent dir failed: '' err, n)
             | Inr d \<Rightarrow>
                (case open_create env False now realPath d of
                   Inl err \<Rightarrow> (failed ''create file for truncate failed: '' err, n\<lparr>dn_disk := d\<rparr>)
                 | Inr d \<Rightarrow> truncate d))
          else truncate (dn_disk n))"

definition Sync :: "os_env \<Rightarrow> SyncArgs \<Rightarrow> data_node \<Rightarrow> bool result" where
  "Sync env args n =
     (case resolvePath (dataDir n) (sy_Path args) of Inl err \<Rightarrow> Inl err
      | Inr realPath \<Rightarrow>
         (case fails env SOpen realPath of
            Some err \<Rightarrow> Inl (''failed to open data for sync: '' @ err)
          | None \<Rightarrow>
            (case find_node (dn_disk n) realPath of
               Inl err \<Rightarrow> if IsNotExist err then Inl (''data not found: '' @ sy_Path args)
                          else failed ''failed to open data for sync: '' err
             | Inr Dir \<Rightarrow> failed ''failed to open data for sync: '' (is_a_dir realPath)
             | Inr (File _ _) \<Rightarrow>
                 (case fails env SSync realPath of
                    Some err \<Rightarrow> Inl (''failed to sync data: '' @ err)
                  | None \<Rightarrow> Inr True))))"

end
