(* ===== verification/Disk_Laws.thy ===== *)
theory Disk_Laws
  imports Os_Disk
begin

text \<open>
  The laws of the disk model. A disk is well-formed when its
  names are, and every node lies in a directory; every call
  keeps it so, and the effect of a call is stated as the change of \<^const>\<open>node_at\<close>.
\<close>

definition wf_disk :: "disk \<Rightarrow> bool" where
  "wf_disk d \<longleftrightarrow> distinct (keys d) \<and>
     (\<forall>q. map_of d q \<noteq> None \<longrightarrow>
        q \<noteq> [] \<and> (\<forall>w \<in> set q. valid_name w) \<and> node_at d (butlast q) = Some Dir)"

named_theorems disk_intros

lemma comps_valid: "\<forall>w \<in> set (comps p). valid_name w"
  using normal_valid [OF comps_normal] by blast

lemma wf_disk_parent: "wf_disk d \<Longrightarrow> node_at d q \<noteq> None \<Longrightarrow> q \<noteq> [] \<Longrightarrow> node_at d (butlast q) = Some Dir"
  by (auto simp: wf_disk_def node_at_def split: if_splits)

lemma wf_disk_names: "wf_disk d \<Longrightarrow> node_at d q \<noteq> None \<Longrightarrow> w \<in> set q \<Longrightarrow> valid_name w"
  by (cases "q = []") (auto simp: wf_disk_def node_at_def)

lemma wf_disk_above:
  assumes "wf_disk d" "node_at d q \<noteq> None" "strict_prefix p q"
  shows "node_at d p = Some Dir"
  using assms(2,3)
proof (induction q rule: rev_induct)
  case (snoc x q)
  from wf_disk_parent [OF assms(1) snoc.prems(1)] have "node_at d q = Some Dir" by simp
  with snoc show ?case by (auto simp: strict_prefix_def)
qed simp

lemma node_at_file: "is_file (map_of d p) \<Longrightarrow> wf_disk d \<Longrightarrow> \<exists>bs t. node_at d p = Some (File bs t)"
  by (auto simp: is_file_def node_at_def wf_disk_def split: option.splits fnode.splits)

lemma is_file_iff: "wf_disk d \<Longrightarrow> is_file (map_of d p) \<longleftrightarrow> (\<exists>bs t. node_at d p = Some (File bs t))"
  by (auto simp: is_file_def node_at_def wf_disk_def split: option.splits fnode.splits if_splits)

lemma in_prefixes [simp]: "p \<in> set (prefixes q) \<longleftrightarrow> prefix p q"
  by simp

lemma in_butlast_prefixes: "p \<in> set (butlast (prefixes q)) \<longleftrightarrow> strict_prefix p q"
proof (cases q rule: rev_cases)
  case (snoc q' x)
  then show ?thesis by (auto simp: prefixes_snoc strict_prefix_def)
qed simp

lemma blocked_iff: "wf_disk d \<Longrightarrow>
    blocked d q \<longleftrightarrow> (\<exists>p bs t. strict_prefix p q \<and> node_at d p = Some (File bs t))"
  by (auto simp: blocked_def list_ex_iff Bex_def in_butlast_prefixes is_file_iff)

lemma not_blocked: "wf_disk d \<Longrightarrow> node_at d q \<noteq> None \<Longrightarrow> \<not> blocked d q"
  using wf_disk_above by (fastforce simp: blocked_iff)

lemma find_node_Inr: "wf_disk d \<Longrightarrow> find_node d p = Inr nd \<longleftrightarrow> node_at d (comps p) = Some nd"
  using not_blocked [of d "comps p"] by (auto simp: find_node_def split: option.splits)

lemma find_node_Inl: "wf_disk d \<Longrightarrow> find_node d p = Inl err \<Longrightarrow> node_at d (comps p) = None"
  using not_blocked [of d "comps p"] by (auto simp: find_node_def split: option.splits if_splits)

lemma find_node_cases [consumes 1, case_names missing dir plain]:
  assumes "wf_disk d"
  obtains (missing) err where "find_node d p = Inl err" "node_at d (comps p) = None"
    | (dir) "find_node d p = Inr Dir" "node_at d (comps p) = Some Dir"
    | (plain) bs t where "find_node d p = Inr (File bs t)" "node_at d (comps p) = Some (File bs t)"
proof (cases "find_node d p")
  case (Inl err)
  with find_node_Inl [OF assms] show ?thesis by (blast intro: missing)
next
  case (Inr nd)
  with find_node_Inr [OF assms, of p nd] show ?thesis by (cases nd) (auto intro: dir plain)
qed

lemma find_node_missing:
  "wf_disk d \<Longrightarrow> node_at d (comps p) = None \<Longrightarrow> node_at d (butlast (comps p)) = Some Dir \<Longrightarrow>
    find_node d p = Inl (not_found p)"
proof -
  assume wf: "wf_disk d" and no: "node_at d (comps p) = None"
    and dir: "node_at d (butlast (comps p)) = Some Dir"
  have "node_at d q \<noteq> Some (File bs t)" if "strict_prefix q (comps p)" for q bs t
  proof (cases "q = butlast (comps p)")
    case False
    from that have "prefix q (butlast (comps p))"
      by (metis strict_prefix_butlast prefix_bot.extremum_strict)
    with False wf_disk_above [OF wf, of "butlast (comps p)" q] dir
    show ?thesis by (auto simp: strict_prefix_def)
  qed (simp add: dir)
  then have "\<not> blocked d (comps p)" by (auto simp: blocked_iff [OF wf])
  with no show ?thesis by (simp add: find_node_def)
qed

subsection \<open>Changing one node\<close>

lemma node_at_put [simp]:
  "node_at (put_file p bs now d) q =
    (if q = comps p \<and> q \<noteq> [] then Some (File bs now) else node_at d q)"
  by (simp add: node_at_def put_file_def)

lemma node_at_delete [simp]:
  "node_at (AList.delete k d) q = (if q = k \<and> q \<noteq> [] then None else node_at d q)"
  by (simp add: node_at_def)

lemma wf_put_file [disk_intros]:
  assumes "wf_disk d" "comps p \<noteq> []" "node_at d (butlast (comps p)) = Some Dir"
    and "node_at d (comps p) \<noteq> Some Dir"
  shows "wf_disk (put_file p bs now d)"
  unfolding wf_disk_def
proof (intro conjI allI impI)
  show "distinct (keys (put_file p bs now d))"
    using assms(1) by (simp add: wf_disk_def put_file_def distinct_keys_update)
next
  fix q assume q: "map_of (put_file p bs now d) q \<noteq> None"
  have "q \<noteq> [] \<and> (\<forall>w \<in> set q. valid_name w) \<and> node_at (put_file p bs now d) (butlast q) = Some Dir"
  proof (cases "q = comps p")
    case True
    with assms show ?thesis by (simp add: comps_valid)
  next
    case False
    with q assms(1) have "q \<noteq> []" "\<forall>w \<in> set q. valid_name w" "node_at d (butlast q) = Some Dir"
      by (auto simp: wf_disk_def put_file_def)
    with assms(4) show ?thesis by auto
  qed
  then show "q \<noteq> []" "\<forall>w \<in> set q. valid_name w" "node_at (put_file p bs now d) (butlast q) = Some Dir"
    by auto
qed

lemma wf_delete [disk_intros]:
  assumes "wf_disk d" "\<And>q. node_at d q \<noteq> None \<Longrightarrow> q \<noteq> [] \<Longrightarrow> butlast q \<noteq> k"
  shows "wf_disk (AList.delete k d)"
  unfolding wf_disk_def
proof (intro conjI allI impI)
  show "distinct (keys (AList.delete k d))"
    using assms(1) by (simp add: wf_disk_def distinct_keys_delete)
next
  fix q assume "map_of (AList.delete k d) q \<noteq> None"
  then have q: "map_of d q \<noteq> None" by (auto split: if_splits)
  with assms(1) have w: "q \<noteq> []" "\<forall>w \<in> set q. valid_name w" "node_at d (butlast q) = Some Dir"
    by (auto simp: wf_disk_def)
  moreover from q this(1) have "butlast q \<noteq> k" by (intro assms(2)) (auto simp: node_at_def)
  ultimately show "q \<noteq> []" "\<forall>w \<in> set q. valid_name w" "node_at (AList.delete k d) (butlast q) = Some Dir"
    by simp_all
qed

lemma file_has_no_children:
  "wf_disk d \<Longrightarrow> node_at d k = Some (File bs t) \<Longrightarrow> node_at d q \<noteq> None \<Longrightarrow> q \<noteq> [] \<Longrightarrow> butlast q \<noteq> k"
  using wf_disk_parent by fastforce

lemma root_is_dir [simp]: "node_at d [] = Some Dir"
  by (simp add: node_at_def)

lemma file_not_root: "node_at d q = Some (File bs t) \<Longrightarrow> q \<noteq> []"
  by auto

subsection \<open>Making directories\<close>

lemma node_at_make_dir: "node_at (make_dir d q) r = (if r = q \<and> node_at d q = None then Some Dir else node_at d r)"
  by (auto simp: make_dir_def node_at_def)

lemma wf_make_dir:
  assumes "wf_disk d" "q = [] \<or> node_at d (butlast q) = Some Dir" "\<forall>w \<in> set q. valid_name w"
  shows "wf_disk (make_dir d q)"
proof (cases "node_at d q = None")
  case True
  then have q: "q \<noteq> []" by auto
  show ?thesis
    unfolding wf_disk_def
  proof (intro conjI allI impI)
    show "distinct (keys (make_dir d q))"
      using assms(1) by (simp add: wf_disk_def make_dir_def distinct_keys_update)
  next
    fix r assume r: "map_of (make_dir d q) r \<noteq> None"
    have "r \<noteq> [] \<and> (\<forall>w \<in> set r. valid_name w) \<and> node_at (make_dir d q) (butlast r) = Some Dir"
    proof (cases "r = q")
      case True
      with assms(2,3) q show ?thesis by (simp add: node_at_make_dir)
    next
      case False
      with r True assms(1) have "r \<noteq> []" "\<forall>w \<in> set r. valid_name w" "node_at d (butlast r) = Some Dir"
        by (auto simp: wf_disk_def make_dir_def)
      then show ?thesis by (simp add: node_at_make_dir)
    qed
    then show "r \<noteq> []" "\<forall>w \<in> set r. valid_name w" "node_at (make_dir d q) (butlast r) = Some Dir"
      by auto
  qed
qed (use assms in \<open>auto simp: make_dir_def\<close>)

lemma make_dirs:
  assumes "wf_disk d" "\<And>p bs t. prefix p q \<Longrightarrow> node_at d p \<noteq> Some (File bs t)"
    and "\<forall>w \<in> set q. valid_name w"
  shows "wf_disk (foldl make_dir d (prefixes q))"
    and "node_at (foldl make_dir d (prefixes q)) r = (if prefix r q then Some Dir else node_at d r)"
proof -
  have "wf_disk (foldl make_dir d (prefixes q)) \<and>
    (\<forall>r. node_at (foldl make_dir d (prefixes q)) r = (if prefix r q then Some Dir else node_at d r))"
    using assms(2,3)
  proof (induction q rule: rev_induct)
    case Nil
    with assms(1) show ?case by (simp add: make_dir_def)
  next
    case (snoc x q)
    let ?d = "foldl make_dir d (prefixes q)"
    from snoc have IH: "wf_disk ?d" "\<And>r. node_at ?d r = (if prefix r q then Some Dir else node_at d r)"
      by auto
    from IH(2) have "node_at ?d q = Some Dir" by simp
    with wf_make_dir [OF IH(1), of "q @ [x]"] snoc.prems(2) have "wf_disk (make_dir ?d (q @ [x]))" by simp
    moreover have "node_at ?d (q @ [x]) \<noteq> None \<Longrightarrow> node_at ?d (q @ [x]) = Some Dir"
      using snoc.prems(1) [of "q @ [x]"] IH(2) [of "q @ [x]"] by (cases "node_at d (q @ [x])"; cases "the (node_at d (q @ [x]))") auto
    ultimately show ?case by (auto simp: prefixes_snoc node_at_make_dir IH(2))
  qed
  then show "wf_disk (foldl make_dir d (prefixes q))"
    and "node_at (foldl make_dir d (prefixes q)) r = (if prefix r q then Some Dir else node_at d r)"
    by auto
qed

lemma MkdirAll_Inr:
  assumes "wf_disk d" "MkdirAll env p d = Inr d'"
  shows "wf_disk d'" "node_at d' r = (if prefix r (comps p) then Some Dir else node_at d r)"
    and "\<And>r bs t. prefix r (comps p) \<Longrightarrow> node_at d r \<noteq> Some (File bs t)"
proof -
  from assms(2) have nf: "\<not> list_ex (\<lambda>q. is_file (map_of d q)) (prefixes (comps p))"
    and d': "d' = foldl make_dir d (prefixes (comps p))"
    by (auto simp: MkdirAll_def split: option.splits if_splits)
  from nf show no: "\<And>r bs t. prefix r (comps p) \<Longrightarrow> node_at d r \<noteq> Some (File bs t)"
    using is_file_iff [OF assms(1)] by (auto simp: list_ex_iff)
  from make_dirs [OF assms(1) no comps_valid] show "wf_disk d'"
    "node_at d' r = (if prefix r (comps p) then Some Dir else node_at d r)" by (simp_all add: d')
qed

subsection \<open>The calls on files\<close>

text \<open>\<open>only k d d'\<close>: the two disks agree everywhere but at \<open>k\<close>, which is no directory in either.\<close>

definition only :: "string list \<Rightarrow> disk \<Rightarrow> disk \<Rightarrow> bool" where
  "only k d d' \<longleftrightarrow> (\<forall>q. q \<noteq> k \<longrightarrow> node_at d' q = node_at d q)"

lemma only_refl [simp]: "only k d d"
  by (simp add: only_def)

lemma only_trans: "only k d d' \<Longrightarrow> only k d' d'' \<Longrightarrow> only k d d''"
  by (simp add: only_def)

lemma only_put [simp]: "only (comps p) d (put_file p bs now d)"
  by (simp add: only_def)

lemma open_create_Inr:
  assumes wf: "wf_disk d" and ok: "open_create env trunc now p d = Inr d'"
  shows "wf_disk d' \<and> only (comps p) d d' \<and> comps p \<noteq> [] \<and> node_at d' (butlast (comps p)) = Some Dir \<and>
    (\<exists>t. node_at d' (comps p) = Some (File (if trunc then [] else file_bytes d p) t))"
using wf proof (cases rule: find_node_cases [where p = p])
  case (missing err)
  with ok have d': "d' = put_file p [] now d" and pd: "node_at d (butlast (comps p)) = Some Dir"
    by (auto simp: open_create_def split: if_splits option.splits)
  from missing have ne: "comps p \<noteq> []" by auto
  with missing pd wf show ?thesis by (auto simp: d' file_bytes_def intro: disk_intros)
next
  case dir
  with ok show ?thesis by (auto simp: open_create_def split: option.splits)
next
  case (plain bs t)
  then have ne: "comps p \<noteq> []" by auto
  with plain wf_disk_parent [OF wf] have pd: "node_at d (butlast (comps p)) = Some Dir" by simp
  from plain ok have d': "d' = (if trunc then put_file p [] now d else d)"
    by (auto simp: open_create_def split: option.splits)
  from plain pd ne wf show ?thesis by (auto simp: d' file_bytes_def intro: disk_intros)
qed

text \<open>A write to an open file: it changes that file only, and a success wrote everything.\<close>

lemma OsWriteAt_effect:
  assumes wf: "wf_disk d" and f: "node_at d (comps p) = Some (File bs t)"
    and run: "OsWriteAt env now p new off d = (k, r, d')"
  shows "wf_disk d' \<and> only (comps p) d d' \<and> (\<exists>bs' t'. node_at d' (comps p) = Some (File bs' t'))"
    and "r = None \<Longrightarrow> k = length new \<and> sint off \<ge> 0 \<and>
      (\<exists>t'. node_at d' (comps p) =
        Some (File (if new = [] then bs else splice (nat (sint off)) new bs) t'))"
proof -
  from f have ne: "comps p \<noteq> []" by auto
  with f wf_disk_parent [OF wf, of "comps p"]
  have pd: "node_at d (butlast (comps p)) = Some Dir" by simp
  have fb: "file_bytes d p = bs" using f by (simp add: file_bytes_def)
  have put: "wf_disk (put_file p x now d)" for x
    using wf ne pd f by (auto intro: disk_intros)
  show "wf_disk d' \<and> only (comps p) d d' \<and> (\<exists>bs' t'. node_at d' (comps p) = Some (File bs' t'))"
    using run f wf put ne by (auto simp: OsWriteAt_def Let_def split: if_splits option.splits)
  show "r = None \<Longrightarrow> k = length new \<and> sint off \<ge> 0 \<and>
      (\<exists>t'. node_at d' (comps p) =
        Some (File (if new = [] then bs else splice (nat (sint off)) new bs) t'))"
    using run f fb ne by (auto simp: OsWriteAt_def Let_def split: if_splits option.splits)
qed

lemma splice_start: "splice 0 new [] = new"
  by (simp add: splice_def)

lemma WriteFile_effect:
  assumes wf: "wf_disk d" and run: "WriteFile env now p content d = (r, d')"
  shows "wf_disk d' \<and> only (comps p) d d' \<and> node_at d' [] = Some Dir"
    and "r = None \<Longrightarrow> \<exists>t. node_at d' (comps p) = Some (File content t)"
proof -
  have "wf_disk d' \<and> only (comps p) d d' \<and>
      (r = None \<longrightarrow> (\<exists>t. node_at d' (comps p) = Some (File content t)))"
  proof (cases "open_create env True now p d")
    case (Inl err)
    with run wf show ?thesis by (auto simp: WriteFile_def)
  next
    case (Inr d1)
    from open_create_Inr [OF wf this] obtain t where d1: "wf_disk d1" "only (comps p) d d1"
      "node_at d1 (comps p) = Some (File [] t)" by auto
    obtain k r1 d2 where w: "OsWriteAt env now p content 0 d1 = (k, r1, d2)" by (cases "OsWriteAt env now p content 0 d1")
    with run Inr have "r = r1" "d' = d2" by (simp_all add: WriteFile_def)
    with OsWriteAt_effect [OF d1(1,3) w] d1(2) show ?thesis
      by (auto simp: splice_start intro: only_trans split: if_splits)
  qed
  then show "wf_disk d' \<and> only (comps p) d d' \<and> node_at d' [] = Some Dir"
    and "r = None \<Longrightarrow> \<exists>t. node_at d' (comps p) = Some (File content t)" by auto
qed

lemma Remove_effect:
  assumes wf: "wf_disk d" and run: "Remove env p d = (r, d')"
  shows "wf_disk d' \<and> only (comps p) d d'"
    and "r = None \<Longrightarrow> node_at d' (comps p) = None \<and> comps p \<noteq> []"
    and "r \<noteq> None \<Longrightarrow> d' = d"
    and "r = Some err \<Longrightarrow> IsNotExist err \<Longrightarrow> node_at d (comps p) = None"
proof -
  consider err where "d' = d" "r = Some err" "IsNotExist err \<longrightarrow> node_at d (comps p) = None"
    | "d' = AList.delete (comps p) d" "r = None" "comps p \<noteq> []"
      "\<forall>q. node_at d q \<noteq> None \<and> q \<noteq> [] \<longrightarrow> butlast q \<noteq> comps p"
  using wf proof (cases rule: find_node_cases [where p = p])
    case (missing err)
    with run that(1) show ?thesis by (auto simp: Remove_def IsNotExist_def split: option.splits)
  next
    case (plain bs t)
    moreover from this have "comps p \<noteq> []" by auto
    ultimately show ?thesis
      using run that file_has_no_children [OF wf plain(2)]
      by (auto simp: Remove_def IsNotExist_def split: option.splits)
  next
    case dir
    show ?thesis
    proof (cases "fails env SRemove p = None \<and> comps p \<noteq> [] \<and> \<not> (\<exists>kn \<in> set d. strict_prefix (comps p) (fst kn))")
      case False
      with run dir that(1) show ?thesis
        by (auto simp: Remove_def IsNotExist_def split: option.splits if_splits)
    next
      case True
      have "butlast q \<noteq> comps p" if "node_at d q \<noteq> None" "q \<noteq> []" for q
      proof
        assume "butlast q = comps p"
        with that(2) have "strict_prefix (comps p) q" by (metis strict_prefix_butlast prefix_order.refl)
        moreover from that obtain nd where "(q, nd) \<in> set d"
          by (auto simp: node_at_def dest: map_of_SomeD)
        ultimately show False using True by force
      qed
      with True run dir that(2) show ?thesis by (auto simp: Remove_def)
    qed
  qed
  note cs = this
  from cs show "wf_disk d' \<and> only (comps p) d d'"
    by cases (use wf in \<open>auto simp: only_def intro!: disk_intros\<close>)
  from cs show "r = None \<Longrightarrow> node_at d' (comps p) = None \<and> comps p \<noteq> []" by cases auto
  from cs show "r \<noteq> None \<Longrightarrow> d' = d" by cases auto
  from cs show "r = Some err \<Longrightarrow> IsNotExist err \<Longrightarrow> node_at d (comps p) = None" by cases auto
qed

lemma OsTruncate_effect:
  assumes wf: "wf_disk d" and run: "OsTruncate env now p sz d = (r, d')"
  shows "wf_disk d' \<and> only (comps p) d d'"
    and "r = None \<Longrightarrow> \<exists>bs t t'. node_at d (comps p) = Some (File bs t) \<and> sint sz \<ge> 0 \<and>
      node_at d' (comps p) = Some (File (resize (nat (sint sz)) bs) t')"
    and "r \<noteq> None \<Longrightarrow> d' = d"
proof -
  have "wf_disk d' \<and> only (comps p) d d' \<and> (r \<noteq> None \<longrightarrow> d' = d) \<and>
    (r = None \<longrightarrow> (\<exists>bs t t'. node_at d (comps p) = Some (File bs t) \<and> sint sz \<ge> 0 \<and>
      node_at d' (comps p) = Some (File (resize (nat (sint sz)) bs) t')))"
  using wf proof (cases rule: find_node_cases [where p = p])
    case (plain bs t)
    then have ne: "comps p \<noteq> []" by auto
    with plain wf_disk_parent [OF wf, of "comps p"]
    have "node_at d (butlast (comps p)) = Some Dir" by simp
    with ne plain wf run show ?thesis
      by (auto simp: OsTruncate_def intro: disk_intros split: option.splits if_splits)
  qed (use wf run in \<open>auto simp: OsTruncate_def split: option.splits if_splits\<close>)
  then show "wf_disk d' \<and> only (comps p) d d'"
    and "r = None \<Longrightarrow> \<exists>bs t t'. node_at d (comps p) = Some (File bs t) \<and> sint sz \<ge> 0 \<and>
      node_at d' (comps p) = Some (File (resize (nat (sint sz)) bs) t')"
    and "r \<noteq> None \<Longrightarrow> d' = d" by auto
qed

text \<open>The rename of a file.\<close>

lemma OsRename_effect:
  assumes wf: "wf_disk d" and src: "node_at d (comps old) = Some (File bs t)" "comps old \<noteq> comps new"
    and run: "OsRename env old new d = (r, d')"
  shows "r \<noteq> None \<Longrightarrow> d' = d"
    and "r = None \<Longrightarrow> wf_disk d' \<and> comps new \<noteq> [] \<and> node_at d' (comps old) = None \<and>
      node_at d' (comps new) = Some (File bs t) \<and>
      (\<forall>q. q \<noteq> comps old \<and> q \<noteq> comps new \<longrightarrow> node_at d' q = node_at d q)"
proof -
  have fo: "find_node d old = Inr (File bs t)" using src(1) by (simp add: find_node_Inr [OF wf])
  have oldne: "comps old \<noteq> []" using src(1) by auto
  have moved: "wf_disk (put_file new bs t (AList.delete (comps old) d))"
    if "comps new \<noteq> []" "node_at d (butlast (comps new)) = Some Dir" "node_at d (comps new) \<noteq> Some Dir"
  proof -
    have "wf_disk (AList.delete (comps old) d)"
      using file_has_no_children [OF wf src(1)] by (auto intro: wf_delete [OF wf])
    moreover have "node_at (AList.delete (comps old) d) (butlast (comps new)) = Some Dir"
      using that(2) src(1) by auto
    moreover have "node_at (AList.delete (comps old) d) (comps new) \<noteq> Some Dir" using that(3) by simp
    ultimately show ?thesis using that(1) by (intro wf_put_file)
  qed
  have "(r \<noteq> None \<longrightarrow> d' = d) \<and> (r = None \<longrightarrow> d' = put_file new bs t (AList.delete (comps old) d) \<and>
      comps new \<noteq> [] \<and> node_at d (butlast (comps new)) = Some Dir \<and> node_at d (comps new) \<noteq> Some Dir)"
  using wf proof (cases rule: find_node_cases [where p = new])
    case (missing err)
    then have "comps new \<noteq> []" by auto
    with missing run fo show ?thesis by (auto simp: OsRename_def split: option.splits if_splits)
  next
    case dir
    with run fo show ?thesis by (auto simp: OsRename_def split: option.splits)
  next
    case (plain bs' t')
    then have "comps new \<noteq> []" by auto
    with plain run fo wf_disk_parent [OF wf, of "comps new"] show ?thesis
      by (auto simp: OsRename_def split: option.splits)
  qed
  with moved src(2) oldne show "r \<noteq> None \<Longrightarrow> d' = d"
    and "r = None \<Longrightarrow> wf_disk d' \<and> comps new \<noteq> [] \<and> node_at d' (comps old) = None \<and>
      node_at d' (comps new) = Some (File bs t) \<and>
      (\<forall>q. q \<noteq> comps old \<and> q \<noteq> comps new \<longrightarrow> node_at d' q = node_at d q)" by auto
qed

end
