(* ===== verification/Data_Node_Laws.thy ===== *)
theory Data_Node_Laws
  imports Data_Node Disk_Laws
begin

text \<open>
  What the data node's handlers do to the contents they keep, whatever the environment does to
  their system calls. Contents are read through \<^const>\<open>GetData\<close>: \<open>holds n path\<close> is what
  the node would return for a path.
\<close>

subsection \<open>Paths\<close>

definition vcomps :: "string \<Rightarrow> string list" where
  "vcomps path = comps (slash # TrimPrefix path [slash])"

lemma vcomps_clean: "w \<in> set (vcomps path) \<Longrightarrow> clean_name w"
proof -
  obtain ws where "Clean (slash # TrimPrefix path [slash]) = abs_path ws"
    "\<forall>w \<in> set ws. valid_name w \<and> w \<noteq> dot \<and> w \<noteq> dotdot" by (rule Clean_rooted)
  then have "\<forall>w \<in> set ws. clean_name w" "vcomps path = comps (abs_path ws)"
    using comps_Clean [of "slash # TrimPrefix path [slash]"] by (simp_all add: vcomps_def clean_name_def)
  then show "w \<in> set (vcomps path) \<Longrightarrow> clean_name w" by (simp add: comps_abs_path)
qed

lemma clean_vcomps: "Clean (slash # TrimPrefix path [slash]) = abs_path (vcomps path)"
proof -
  have "rooted (slash # TrimPrefix path [slash])" by (simp add: rooted_def)
  then show ?thesis
    by (simp add: Clean_canon canon_def vcomps_def abs_path_def)
qed

lemma resolvePath_eq: "resolvePath dir path =
    (if Contains (abs_path (vcomps path)) dotdot then Inl (''invalid path: '' @ path)
     else Inr (FilepathJoin dir (abs_path (vcomps path))))"
  by (simp add: resolvePath_def Let_def clean_vcomps del: append.simps add: append_Cons append_Nil)

text \<open>A resolved path lies below the data directory, at the components of the virtual path.\<close>

lemma resolved_real:
  assumes "resolvePath dir path = Inr rp"
  obtains r where "rp = canon r (comps dir @ vcomps path)" "normal r (comps dir @ vcomps path)"
    "comps rp = comps dir @ vcomps path"
proof -
  have v: "\<forall>w \<in> set (vcomps path). clean_name w" using vcomps_clean by blast
  have rp: "rp = FilepathJoin dir (abs_path (vcomps path))"
    using assms by (simp add: resolvePath_eq split: if_splits)
  obtain r where r: "rp = canon r (comps dir @ vcomps path)" "normal r (comps dir @ vcomps path)"
  proof (cases "dir = []")
    case True
    have "comps dir = []" by (simp add: True comps_def)
    moreover have "rp = canon True (vcomps path)"
      using comps_abs_path [OF v] True
      by (simp add: rp FilepathJoin_def abs_path_def Clean_canon rooted_def)
    ultimately show ?thesis using that normal_clean [OF v] by simp
  next
    case False
    show ?thesis
      by (rule that [of "rooted dir"])
        (simp_all add: rp join_abs_path [OF v False] normal_append [OF comps_normal v])
  qed
  with comps_canon show thesis by (intro that) auto
qed

lemma clean_name_tmp: "clean_name w \<Longrightarrow> clean_name (w @ tmp_ext)"
  by (simp add: clean_name_def valid_name_def tmp_ext_def slash_def dot_def dotdot_def)

definition tmp_of :: "string list \<Rightarrow> string list" where
  "tmp_of ws = butlast ws @ [last ws @ tmp_ext]"

lemma tmp_of_neq [simp]: "ws \<noteq> [] \<Longrightarrow> tmp_of ws \<noteq> ws"
proof
  assume "ws \<noteq> []" "tmp_of ws = ws"
  then have "last (tmp_of ws) = last ws" by simp
  then show False by (simp add: tmp_of_def tmp_ext_def)
qed

lemma tmp_of_clean:
  assumes "vcomps path \<noteq> []"
  shows "\<forall>w \<in> set (tmp_of (vcomps path)). clean_name w"
  using vcomps_clean [of _ path] clean_name_tmp [OF vcomps_clean [OF last_in_set [OF assms]]]
  by (auto simp: tmp_of_def dest: in_set_butlastD)

lemma resolved_paths:
  assumes "resolvePath dir path = Inr rp" "vcomps path \<noteq> []"
  shows "comps rp = comps dir @ vcomps path"
    and "comps (FilepathDir rp) = comps dir @ butlast (vcomps path)"
    and "comps (rp @ tmp_ext) = comps dir @ tmp_of (vcomps path)"
proof -
  obtain r where r: "rp = canon r (comps dir @ vcomps path)" "normal r (comps dir @ vcomps path)"
    "comps rp = comps dir @ vcomps path" by (rule resolved_real [OF assms(1)])
  define es where "es = comps dir @ butlast (vcomps path)"
  define w where "w = last (vcomps path)"
  have split: "comps dir @ vcomps path = es @ [w]" using assms(2) by (simp add: es_def w_def)
  have w: "clean_name (w @ tmp_ext)"
    unfolding w_def by (rule clean_name_tmp [OF vcomps_clean [OF last_in_set [OF assms(2)]]])
  from r(3) show "comps rp = comps dir @ vcomps path" .
  from comps_Dir [of r es w] r(1,2) split
  show "comps (FilepathDir rp) = comps dir @ butlast (vcomps path)" by (simp add: es_def)
  from comps_extended [of r es w tmp_ext] r(1,2) split w
  show "comps (rp @ tmp_ext) = comps dir @ tmp_of (vcomps path)"
    by (simp add: es_def w_def tmp_of_def)
qed

lemma made_dirs_clean:
  assumes "resolvePath dir path = Inr rp" "prefix (comps dir @ q) (comps (FilepathDir rp))" "w \<in> set q"
  shows "clean_name w"
proof -
  obtain r where r: "rp = canon r (comps dir @ vcomps path)" "normal r (comps dir @ vcomps path)"
    by (rule resolved_real [OF assms(1)])
  from assms(2) have "prefix (comps dir @ q) (comps dir @ vcomps path)"
    using comps_Dir_butlast [OF r(2)] r(1) prefix_butlast prefix_order.trans by metis
  then have "prefix q (vcomps path)" by simp
  with assms(3) show ?thesis using vcomps_clean set_mono_prefix by blast
qed

subsection \<open>Contents\<close>

definition stored :: "data_node \<Rightarrow> string list \<Rightarrow> byte list option" where
  "stored n q = (case node_at (dn_disk n) (comps (dataDir n) @ q) of
     Some (File bs _) \<Rightarrow> Some bs | _ \<Rightarrow> None)"

definition holds :: "data_node \<Rightarrow> string \<Rightarrow> byte list option" where
  "holds n path = (case GetData calm path n of Inr bs \<Rightarrow> Some bs | Inl _ \<Rightarrow> None)"

text \<open>The invariant of a data node: a well-formed disk, with plain names below the data directory.\<close>

definition dn_inv :: "data_node \<Rightarrow> bool" where
  "dn_inv n \<longleftrightarrow> wf_disk (dn_disk n) \<and>
     (\<forall>q. node_at (dn_disk n) (comps (dataDir n) @ q) \<noteq> None \<longrightarrow> (\<forall>w \<in> set q. clean_name w))"

lemma holds_stored:
  assumes "dn_inv n"
  shows "holds n path =
    (if is_ok (resolvePath (dataDir n) path) then stored n (vcomps path) else None)"
proof (cases "resolvePath (dataDir n) path")
  case (Inr rp)
  obtain r where r: "comps rp = comps (dataDir n) @ vcomps path" by (rule resolved_real [OF Inr])
  from assms [unfolded dn_inv_def, THEN conjunct1] Inr r show ?thesis
    by (cases rule: find_node_cases [where p = rp])
      (auto simp: holds_def GetData_def ReadFile_def calm_def stored_def failed_def)
qed (simp add: holds_def GetData_def)

text \<open>What MkdirAll of a parent directory does to contents: nothing.\<close>

lemma stored_MkdirAll:
  assumes "wf_disk (dn_disk n)" "MkdirAll env p (dn_disk n) = Inr d"
  shows "stored (n\<lparr>dn_disk := d\<rparr>) q = stored n q"
  using MkdirAll_Inr(2,3) [OF assms, where r = "comps (dataDir n) @ q"]
  by (auto simp: stored_def split: option.splits fnode.splits)

lemma stored_only:
  assumes "only (comps (dataDir n) @ k) (dn_disk n) d" "q \<noteq> k"
  shows "stored (n\<lparr>dn_disk := d\<rparr>) q = stored n q"
  using assms by (simp add: stored_def only_def)

text \<open>
  The effect of a handler on contents: it keeps the invariant and the data directory, and changes
  no content but those in \<open>ks\<close>.
\<close>

definition frame :: "string list set \<Rightarrow> data_node \<Rightarrow> data_node \<Rightarrow> bool" where
  "frame ks n n' \<longleftrightarrow> dn_inv n' \<and> dataDir n' = dataDir n \<and> (\<forall>q. q \<notin> ks \<longrightarrow> stored n' q = stored n q)"

lemma frame_refl: "dn_inv n \<Longrightarrow> frame ks n n"
  by (simp add: frame_def)

lemma frame_only:
  assumes "frame ks n n1" "wf_disk d" "only (comps (dataDir n) @ k) (dn_disk n1) d" "k \<in> ks"
    and "\<forall>w \<in> set k. clean_name w"
  shows "frame ks n (n1\<lparr>dn_disk := d\<rparr>)"
proof -
  have "stored (n1\<lparr>dn_disk := d\<rparr>) q = stored n q" if "q \<notin> ks" for q
    using assms(1,3,4) that stored_only [of n1 k d q] by (auto simp: frame_def)
  moreover have "clean_name w" if "node_at d (comps (dataDir n) @ q) \<noteq> None" "w \<in> set q" for q w
    using assms(1,3,5) that by (cases "q = k") (auto simp: only_def frame_def dn_inv_def)
  ultimately show ?thesis using assms(1,2) by (simp add: frame_def dn_inv_def)
qed

lemma frame_Mkdir:
  assumes "dn_inv n" "resolvePath (dataDir n) path = Inr rp"
    and "MkdirAll env (FilepathDir rp) (dn_disk n) = Inr d"
  shows "frame ks n (n\<lparr>dn_disk := d\<rparr>)"
proof -
  have wf: "wf_disk (dn_disk n)" using assms(1) by (simp add: dn_inv_def)
  have "clean_name w" if "node_at d (comps (dataDir n) @ q) \<noteq> None" "w \<in> set q" for q w
    using MkdirAll_Inr(2) [OF wf assms(3), where r = "comps (dataDir n) @ q"] that assms(1)
      made_dirs_clean [OF assms(2), of q w] by (auto simp: dn_inv_def split: if_splits)
  with MkdirAll_Inr(1) [OF wf assms(3)] stored_MkdirAll [OF wf assms(3)] show ?thesis
    by (simp add: frame_def dn_inv_def)
qed

lemma frame_stored: "frame ks n n' \<Longrightarrow> q \<notin> ks \<Longrightarrow> stored n' q = stored n q"
  by (simp add: frame_def)

lemma stored_at: "node_at d (comps (dataDir n) @ q) = Some (File bs t) \<Longrightarrow>
    stored (n\<lparr>dn_disk := d\<rparr>) q = Some bs"
  by (simp add: stored_def)

subsection \<open>StoreData\<close>

lemma StoreData_effect:
  assumes inv: "dn_inv n" and rp: "resolvePath (dataDir n) (sa_Path args) = Inr rp"
    and ws: "vcomps (sa_Path args) = ws" "ws \<noteq> []"
    and run: "StoreData env now args n = (r, n')"
  shows "frame {ws, tmp_of ws} n n' \<and>
    stored n' ws = (if r = Inr True then Some (sa_Content args) else stored n ws)"
proof -
  let ?ks = "{ws, tmp_of ws}"
  note ps = resolved_paths [OF rp, unfolded ws(1), OF ws(2)]
  have ct: "\<forall>w \<in> set (tmp_of ws). clean_name w"
    using tmp_of_clean [of "sa_Path args"] ws by simp
  have wf: "wf_disk (dn_disk n)" using inv by (simp add: dn_inv_def)
  show ?thesis
  proof (cases "MkdirAll env (FilepathDir rp) (dn_disk n)")
    case (Inl err)
    with run rp frame_refl [OF inv] show ?thesis
      by (auto simp: StoreData_def with_path_def failed_def)
  next
    case (Inr d1)
    let ?n1 = "n\<lparr>dn_disk := d1\<rparr>"
    have f1: "frame ?ks n ?n1" and wf1: "wf_disk d1"
      using frame_Mkdir [OF inv rp Inr] MkdirAll_Inr(1) [OF wf Inr] by auto
    have s1: "stored ?n1 ws = stored n ws" by (rule stored_MkdirAll [OF wf Inr])
    obtain r2 d2 where w: "WriteFile env now (rp @ tmp_ext) (sa_Content args) d1 = (r2, d2)"
      by (cases "WriteFile env now (rp @ tmp_ext) (sa_Content args) d1")
    note we = WriteFile_effect [OF wf1 w, unfolded ps(3)]
    have f2: "frame ?ks n (n\<lparr>dn_disk := d2\<rparr>)"
      using frame_only [OF f1, of d2 "tmp_of ws"] we(1) ct by simp
    have s2: "stored (n\<lparr>dn_disk := d2\<rparr>) ws = stored n ws"
      using stored_only [of ?n1 "tmp_of ws" d2 ws] we(1) s1 ws(2) by (simp add: tmp_of_neq [symmetric])
    show ?thesis
    proof (cases r2)
      case (Some err)
      with run rp Inr w f2 s2 show ?thesis by (auto simp: StoreData_def with_path_def failed_def Let_def)
    next
      case None
      from we(2) None obtain t where tmp: "node_at d2 (comps (rp @ tmp_ext)) = Some (File (sa_Content args) t)"
        by (auto simp: ps(3))
      have ne: "comps (rp @ tmp_ext) \<noteq> comps rp" using ws(2) by (simp add: ps)
      obtain r3 d3 where m: "OsRename env (rp @ tmp_ext) rp d2 = (r3, d3)" by (cases "OsRename env (rp @ tmp_ext) rp d2")
      note re = OsRename_effect [OF we(1) [THEN conjunct1] tmp ne m]
      show ?thesis
      proof (cases r3)
        case (Some err)
        obtain r4 d4 where rm: "Remove env (rp @ tmp_ext) d2 = (r4, d4)" by (cases "Remove env (rp @ tmp_ext) d2")
        note rme = Remove_effect(1) [OF we(1) [THEN conjunct1] rm, unfolded ps(3)]
        have "frame ?ks n (n\<lparr>dn_disk := d4\<rparr>)"
          using frame_only [OF f2, of d4 "tmp_of ws"] rme ct by simp
        moreover have "stored (n\<lparr>dn_disk := d4\<rparr>) ws = stored n ws"
          using stored_only [of "n\<lparr>dn_disk := d2\<rparr>" "tmp_of ws" d4 ws] rme s2 ws(2)
          by (simp add: tmp_of_neq [symmetric])
        ultimately show ?thesis using run rp Inr w m None Some re(1) rm
          by (auto simp: StoreData_def with_path_def failed_def Let_def)
      next
        case rn: None
        from re(2) [OF rn] have "wf_disk d3"
          "node_at d3 (comps rp) = Some (File (sa_Content args) t)"
          and eq: "\<And>q. q \<notin> ?ks \<Longrightarrow> node_at d3 (comps (dataDir n) @ q) = node_at d2 (comps (dataDir n) @ q)"
          by (auto simp: ps)
        moreover have "clean_name w" if "node_at d3 (comps (dataDir n) @ q) \<noteq> None" "w \<in> set q" for q w
          using f2 eq [of q] that ct vcomps_clean [of w "sa_Path args"] ws(1)
          by (cases "q \<in> ?ks") (auto simp: frame_def dn_inv_def)
        ultimately
        have "frame ?ks n (n\<lparr>dn_disk := d3\<rparr>)" "stored (n\<lparr>dn_disk := d3\<rparr>) ws = Some (sa_Content args)"
          using f2 by (simp_all add: frame_def dn_inv_def stored_def ps(1))
        with run rp Inr w m None rn show ?thesis
          by (auto simp: StoreData_def with_path_def failed_def Let_def)
      qed
    qed
  qed
qed

subsection \<open>DeleteData\<close>

lemma DeleteData_effect:
  assumes inv: "dn_inv n" and rp: "resolvePath (dataDir n) path = Inr rp"
    and run: "DeleteData env path n = (r, n')"
  shows "frame {vcomps path} n n' \<and>
    stored n' (vcomps path) = (if r = Inr True then None else stored n (vcomps path))"
proof -
  obtain c where c: "comps rp = comps (dataDir n) @ vcomps path" by (rule resolved_real [OF rp])
  have wf: "wf_disk (dn_disk n)" using inv by (simp add: dn_inv_def)
  obtain e d where rm: "Remove env rp (dn_disk n) = (e, d)" by (cases "Remove env rp (dn_disk n)")
  note re = Remove_effect [OF wf rm]
  have n': "n' = n\<lparr>dn_disk := d\<rparr>" and r: "r = Inr True \<longleftrightarrow> (\<forall>err. e = Some err \<longrightarrow> IsNotExist err)"
    using run rp rm by (auto simp: DeleteData_def with_path_def failed_def split: option.splits if_splits)
  have "frame {vcomps path} n n'"
    unfolding n' using frame_only [OF frame_refl [OF inv], of d "vcomps path"] re(1) c vcomps_clean by auto
  moreover have "stored n' (vcomps path) = (if r = Inr True then None else stored n (vcomps path))"
  proof (cases e)
    case None
    with re(2) r show ?thesis by (simp add: n' stored_def c)
  next
    case (Some err)
    with re(3) have "d = dn_disk n" by simp
    with Some re(4) r show ?thesis by (cases "IsNotExist err") (auto simp: n' stored_def c)
  qed
  ultimately show ?thesis by blast
qed

subsection \<open>Writes in place\<close>

lemma file_bytes_stored:
  "comps rp = comps (dataDir n) @ ws \<Longrightarrow> file_bytes (dn_disk n) rp =
    (case stored n ws of Some bs \<Rightarrow> bs | None \<Rightarrow> [])"
  by (auto simp: file_bytes_def stored_def split: option.splits fnode.splits)

text \<open>Making the parent and opening the file leaves its bytes, or an empty file.\<close>

lemma open_effect:
  assumes inv: "dn_inv n" and path: "resolvePath (dataDir n) path = Inr rp" "vcomps path = ws"
    and mk: "MkdirAll env (FilepathDir rp) (dn_disk n) = Inr d1" and op: "open_create env False now rp d1 = Inr d2"
  shows "frame {ws} n (n\<lparr>dn_disk := d2\<rparr>)"
    and "\<exists>t. node_at d2 (comps rp) = Some (File (case stored n ws of Some bs \<Rightarrow> bs | None \<Rightarrow> []) t)"
proof -
  have wf: "wf_disk (dn_disk n)" using inv by (simp add: dn_inv_def)
  have rp: "comps rp = comps (dataDir n) @ ws" using resolved_real [OF path(1)] path(2) by metis
  have cl: "\<forall>w \<in> set ws. clean_name w" using vcomps_clean path(2) by blast
  note o = open_create_Inr [OF MkdirAll_Inr(1) [OF wf mk] op]
  show "frame {ws} n (n\<lparr>dn_disk := d2\<rparr>)"
    using frame_only [OF frame_Mkdir [OF inv path(1) mk], of d2 ws] o rp cl by simp
  show "\<exists>t. node_at d2 (comps rp) = Some (File (case stored n ws of Some bs \<Rightarrow> bs | None \<Rightarrow> []) t)"
    using o file_bytes_stored [of rp "n\<lparr>dn_disk := d1\<rparr>" ws] rp stored_MkdirAll [OF wf mk, of ws] by simp
qed

definition old_bytes :: "data_node \<Rightarrow> string list \<Rightarrow> byte list" where
  "old_bytes n ws = (case stored n ws of Some bs \<Rightarrow> bs | None \<Rightarrow> [])"

lemma PartialWrite_effect:
  assumes inv: "dn_inv n" and rp: "resolvePath (dataDir n) (pw_Path args) = Inr rp"
    and ws: "vcomps (pw_Path args) = ws" and run: "PartialWrite env now args n = (r, n')"
  shows "frame {ws} n n'"
    and "r = Inr True \<Longrightarrow> sint (pw_Offset args) \<ge> 0 \<and> stored n' ws =
      Some (if pw_Data args = [] then old_bytes n ws
            else splice (nat (sint (pw_Offset args))) (pw_Data args) (old_bytes n ws))"
proof -
  obtain c where c: "comps rp = comps (dataDir n) @ ws" using resolved_real [OF rp] ws by metis
  have "frame {ws} n n' \<and> (r = Inr True \<longrightarrow> sint (pw_Offset args) \<ge> 0 \<and> stored n' ws =
      Some (if pw_Data args = [] then old_bytes n ws
            else splice (nat (sint (pw_Offset args))) (pw_Data args) (old_bytes n ws)))"
  proof (cases "MkdirAll env (FilepathDir rp) (dn_disk n)")
    case (Inl err)
    with run rp frame_refl [OF inv] show ?thesis
      by (auto simp: PartialWrite_def with_path_def failed_def)
  next
    case d1: (Inr d1)
    show ?thesis
    proof (cases "open_create env False now rp d1")
      case (Inl err)
      with d1 run rp frame_Mkdir [OF inv rp d1] show ?thesis
        by (auto simp: PartialWrite_def with_path_def failed_def)
    next
      case d2: (Inr d2)
      note o = open_effect [OF inv rp ws d1 d2, folded old_bytes_def]
      from o(2) obtain t where t: "node_at d2 (comps rp) = Some (File (old_bytes n ws) t)" by blast
      have wf2: "wf_disk d2" using o(1) by (simp add: frame_def dn_inv_def)
      obtain k e d3 where w: "OsWriteAt env now rp (pw_Data args) (pw_Offset args) d2 = (k, e, d3)"
        by (cases "OsWriteAt env now rp (pw_Data args) (pw_Offset args) d2")
      note we = OsWriteAt_effect [OF wf2 t w]
      have f3: "frame {ws} n (n\<lparr>dn_disk := d3\<rparr>)"
        using frame_only [OF o(1), of d3 ws] we(1) c ws vcomps_clean [of _ "pw_Path args"] by simp
      have "e = None \<Longrightarrow> stored (n\<lparr>dn_disk := d3\<rparr>) ws = Some (if pw_Data args = [] then old_bytes n ws
            else splice (nat (sint (pw_Offset args))) (pw_Data args) (old_bytes n ws))"
        using we(2) c by (auto simp: stored_def)
      with d1 d2 w run rp f3 we(2) show ?thesis
        by (cases e) (auto simp: PartialWrite_def with_path_def failed_def split: if_splits)
    qed
  qed
  then show "frame {ws} n n'"
    and "r = Inr True \<Longrightarrow> sint (pw_Offset args) \<ge> 0 \<and> stored n' ws =
      Some (if pw_Data args = [] then old_bytes n ws
            else splice (nat (sint (pw_Offset args))) (pw_Data args) (old_bytes n ws))" by auto
qed

lemma TruncateData_effect:
  assumes inv: "dn_inv n" and rp: "resolvePath (dataDir n) (ta_Path args) = Inr rp"
    and ws: "vcomps (ta_Path args) = ws" and run: "TruncateData env now args n = (r, n')"
  shows "frame {ws} n n'"
    and "r = Inr True \<Longrightarrow> sint (ta_Size args) \<ge> 0 \<and>
      stored n' ws = Some (resize (nat (sint (ta_Size args))) (old_bytes n ws))"
    and "r = Inr True \<Longrightarrow> sint (ta_Size args) = 0 \<Longrightarrow> stored n ws \<noteq> None"
proof -
  obtain c where c: "comps rp = comps (dataDir n) @ ws" using resolved_real [OF rp] ws by metis
  define trunc where "trunc = (\<lambda>d. case OsTruncate env now rp (ta_Size args) d of
      (Some err, d) \<Rightarrow> (failed ''failed to truncate data: '' err, n\<lparr>dn_disk := d\<rparr>)
    | (None, d) \<Rightarrow> (Inr True :: bool result, n\<lparr>dn_disk := d\<rparr>))"
  have trunc: "frame {ws} n n' \<and> (r = Inr True \<longrightarrow> sint (ta_Size args) \<ge> 0 \<and>
      (\<exists>bs t. node_at d (comps rp) = Some (File bs t) \<and>
        stored n' ws = Some (resize (nat (sint (ta_Size args))) bs)))"
    if f: "frame {ws} n (n\<lparr>dn_disk := d\<rparr>)" and t: "trunc d = (r, n')" for d
  proof -
    have wf: "wf_disk d" using f by (simp add: frame_def dn_inv_def)
    obtain e d' where e: "OsTruncate env now rp (ta_Size args) d = (e, d')"
      by (cases "OsTruncate env now rp (ta_Size args) d")
    note te = OsTruncate_effect [OF wf e]
    have "frame {ws} n (n\<lparr>dn_disk := d'\<rparr>)"
      using frame_only [OF f, of d' ws] te(1) c ws vcomps_clean [of _ "ta_Path args"] by simp
    with t e te(2) c show ?thesis
      by (cases e) (auto simp: trunc_def failed_def stored_def)
  qed
  have "frame {ws} n n' \<and> (r = Inr True \<longrightarrow> sint (ta_Size args) \<ge> 0 \<and>
      stored n' ws = Some (resize (nat (sint (ta_Size args))) (old_bytes n ws)) \<and>
      (sint (ta_Size args) = 0 \<longrightarrow> stored n ws \<noteq> None))"
  proof (cases "sint (ta_Size args) > 0")
    case False
    with run rp have "trunc (dn_disk n) = (r, n')"
      by (simp add: TruncateData_def with_path_def trunc_def Let_def)
    from trunc [OF _ this] frame_refl [OF inv] c show ?thesis
      by (auto simp: stored_def old_bytes_def)
  next
    case True
    show ?thesis
    proof (cases "MkdirAll env (FilepathDir rp) (dn_disk n)")
      case (Inl err)
      with True run rp frame_refl [OF inv] show ?thesis
        by (auto simp: TruncateData_def with_path_def failed_def)
    next
      case d1: (Inr d1)
      show ?thesis
      proof (cases "open_create env False now rp d1")
        case (Inl err)
        with True d1 run rp frame_Mkdir [OF inv rp d1] show ?thesis
          by (auto simp: TruncateData_def with_path_def failed_def)
      next
        case d2: (Inr d2)
        from True run rp d1 d2 have "trunc d2 = (r, n')"
          by (simp add: TruncateData_def with_path_def trunc_def Let_def)
        from trunc [OF _ this] open_effect [OF inv rp ws d1 d2, folded old_bytes_def] True
        show ?thesis by auto
      qed
    qed
  qed
  then show "frame {ws} n n'"
    and "r = Inr True \<Longrightarrow> sint (ta_Size args) \<ge> 0 \<and>
      stored n' ws = Some (resize (nat (sint (ta_Size args))) (old_bytes n ws))"
    and "r = Inr True \<Longrightarrow> sint (ta_Size args) = 0 \<Longrightarrow> stored n ws \<noteq> None" by auto
qed

end
