(* ===== verification/Blob_Store.thy ===== *)
theory Blob_Store
  imports Fs_Types
begin

text \<open>
  What other components rely on when they call a data node: its \<^verbatim>\<open>DataService\<close> as an
  interface. The copying node reads ranges, the garbage collector lists and deletes. The laws are
  stated over the contents a node keeps under its paths; \<open>Data_Service\<close> interprets the interfaces
  on the data node's handlers.
\<close>

text \<open>Range reads that answer from the bytes \<open>bs\<close> of one file.\<close>

definition serves :: "(RangeReadArgs \<Rightarrow> RangeReadReply result) \<Rightarrow> string \<Rightarrow> byte list \<Rightarrow> bool" where
  "serves read path bs \<longleftrightarrow> (\<forall>off len. sint off \<ge> 0 \<and> sint len \<ge> 0 \<longrightarrow>
     (\<exists>reply. read \<lparr>rr_Path = path, rr_Offset = off, rr_Length = len\<rparr> = Inr reply \<and>
        rrr_Data reply = take (nat (sint len)) (drop (nat (sint off)) bs)))"

locale blob_reader =
  fixes inv :: "'n \<Rightarrow> bool"
    and content :: "'n \<Rightarrow> string \<Rightarrow> byte list option"
    and range :: "'n \<Rightarrow> RangeReadArgs \<Rightarrow> RangeReadReply result"
  assumes range_serves: "inv n \<Longrightarrow> content n path = Some bs \<Longrightarrow> serves (range n) path bs"

text \<open>
  A store that lists and deletes. Listed paths are canonical, and deleting under a canonical path
  touches that path only.
\<close>

locale blob_store = blob_reader inv content range
  for inv :: "'n \<Rightarrow> bool" and content :: "'n \<Rightarrow> string \<Rightarrow> byte list option"
    and range :: "'n \<Rightarrow> RangeReadArgs \<Rightarrow> RangeReadReply result" +
  fixes canonical :: "string \<Rightarrow> bool"
    and list :: "'n \<Rightarrow> NodeFile list result"
    and delete :: "string \<Rightarrow> 'n \<Rightarrow> bool result \<times> 'n"
  assumes list_canonical: "inv n \<Longrightarrow> list n = Inr fs \<Longrightarrow> nf \<in> set fs \<Longrightarrow> canonical (nf_Path nf)"
    and delete_inv: "inv n \<Longrightarrow> canonical p \<Longrightarrow> delete p n = (r, n') \<Longrightarrow> inv n'"
    and delete_other: "inv n \<Longrightarrow> canonical p \<Longrightarrow> canonical q \<Longrightarrow> p \<noteq> q \<Longrightarrow>
      delete p n = (r, n') \<Longrightarrow> content n' q = content n q"
    and delete_done: "inv n \<Longrightarrow> delete p n = (Inr True, n') \<Longrightarrow> content n' p = None"
    and delete_failed: "inv n \<Longrightarrow> delete p n = (r, n') \<Longrightarrow> r \<noteq> Inr True \<Longrightarrow> content n' p = content n p"

end
