(* ===== verification/Replicate_File.thy ===== *)
theory Replicate_File
  imports Data_Node_Laws Blob_Store
begin

text \<open>
  \<^verbatim>\<open>ReplicateFile\<close> of the data node: the target pulls a file from a source node in chunks and
  writes it to its own disk. The loop runs until the offset reaches the announced size; nothing in
  it makes the offset grow when the source has no more bytes, so it is a partial function and
  \<^const>\<open>None\<close> means that the call does not return. The network is an argument: dialling the
  source, and its \<^verbatim>\<open>RangeRead\<close>.
\<close>

definition replicateChunkSize :: int64 where
  "replicateChunkSize = push_bit 20 1"

definition next_chunk :: "int64 \<Rightarrow> int64 \<Rightarrow> int64" where
  "next_chunk offset fsz =
     (let chunkLen = replicateChunkSize
      in if sint (offset + chunkLen) > sint fsz then fsz - offset else chunkLen)"

text \<open>One turn of the loop ends it, with an error or without, or moves the offset and the disk.\<close>

definition pull_turn ::
  "os_env \<Rightarrow> time \<Rightarrow> (RangeReadArgs \<Rightarrow> RangeReadReply result) \<Rightarrow> ReplicateFileArgs \<Rightarrow> string \<Rightarrow>
   int64 \<Rightarrow> disk \<Rightarrow> (error option \<times> disk) + (int64 \<times> disk)" where
  "pull_turn env now read args realPath offset d =
     (if \<not> sint offset < sint (rf_FileSize args) then Inl (None, d)
      else (case read \<lparr>rr_Path = rf_SourceRemotePath args, rr_Offset = offset,
                       rr_Length = next_chunk offset (rf_FileSize args)\<rparr> of
          Inl err \<Rightarrow> Inl (Some (''range read from source at offset '' @ show_nat (nat (sint offset)) @
                               '': '' @ err), d)
        | Inr rangeReply \<Rightarrow>
           (case OsWriteAt env now realPath (rrr_Data rangeReply) offset d of
              (n, Some err, d) \<Rightarrow>
                Inl (Some (''write local at offset '' @ show_nat (nat (sint offset)) @ '': '' @
                           err_text err), d)
            | (n, None, d) \<Rightarrow>
                if n \<noteq> length (rrr_Data rangeReply)
                then Inl (Some (''short write at offset '' @ show_nat (nat (sint offset)) @ '': '' @
                                show_nat n @ '' != '' @ show_nat (length (rrr_Data rangeReply))), d)
                else Inr (offset + of_nat n, d))))"

partial_function (option) pull ::
  "os_env \<Rightarrow> time \<Rightarrow> (RangeReadArgs \<Rightarrow> RangeReadReply result) \<Rightarrow> ReplicateFileArgs \<Rightarrow> string \<Rightarrow>
   int64 \<Rightarrow> disk \<Rightarrow> (error option \<times> disk) option" where
  "pull env now read args realPath offset d =
     (case pull_turn env now read args realPath offset d of
        Inl end_of_loop \<Rightarrow> Some end_of_loop
      | Inr (offset, d) \<Rightarrow> pull env now read args realPath offset d)"

record net =
  Dial :: "string \<Rightarrow> error option"
  CallRangeRead :: "string \<Rightarrow> RangeReadArgs \<Rightarrow> RangeReadReply result"

definition ReplicateFile ::
  "os_env \<Rightarrow> time \<Rightarrow> net \<Rightarrow> ReplicateFileArgs \<Rightarrow> data_node \<Rightarrow> (bool result \<times> data_node) option" where
  "ReplicateFile env now net args n =
     (case Dial net (rf_SourceAddr args) of
        Some err \<Rightarrow>
          Some (Inl (''cannot connect to source data node at '' @ rf_SourceAddr args @ '': '' @ err), n)
      | None \<Rightarrow>
         (case resolvePath (dataDir n) (rf_TargetRemotePath args) of
            Inl err \<Rightarrow> Some (Inl err, n)
          | Inr realPath \<Rightarrow>
             (case MkdirAll env (FilepathDir realPath) (dn_disk n) of
                Inl err \<Rightarrow> Some (failed ''ensure parent dir failed: '' err, n)
              | Inr d \<Rightarrow>
                 (case open_create env True now realPath d of
                    Inl err \<Rightarrow> Some (failed ''failed to open target file for replicate: '' err,
                                     n\<lparr>dn_disk := d\<rparr>)
                  | Inr d \<Rightarrow>
                     (case pull env now (CallRangeRead net (rf_SourceAddr args)) args realPath 0 d of
                        None \<Rightarrow> None
                      | Some (Some err, d) \<Rightarrow> Some (Inl err, n\<lparr>dn_disk := d\<rparr>)
                      | Some (None, d) \<Rightarrow>
                          (case fails env SSync realPath of
                             Some err \<Rightarrow> Some (Inl (''fsync target file after replicate: '' @ err),
                                               n\<lparr>dn_disk := d\<rparr>)
                           | None \<Rightarrow> Some (Inr True, n\<lparr>dn_disk := d\<rparr>)))))))"

subsection \<open>The loop\<close>

lemma next_chunk:
  assumes "k < fsz" "fsz < 2 ^ 62"
  shows "sint (next_chunk (of_nat k) (of_nat fsz)) = int (min (2 ^ 20) (fsz - k))"
proof -
  have b: "int k < int fsz" "int fsz < 2 ^ 62"
    using assms by simp_all
  have chunk: "replicateChunkSize = word_of_int (2 ^ 20)" by (simp add: replicateChunkSize_def push_bit_eq_mult)
  have "sint (of_nat k + replicateChunkSize) = int k + 2 ^ 20"
    using sint_of_int64 [of "int k + 2 ^ 20"] b by (simp add: chunk)
  moreover have "sint (of_nat fsz :: int64) = int fsz"
    using assms(2) by (intro sint_of_nat64) simp
  moreover have "sint (of_nat fsz - of_nat k :: int64) = int (fsz - k)"
    using sint_of_nat64 [of "fsz - k"] assms by (simp add: of_nat_diff)
  moreover have "sint replicateChunkSize = 2 ^ 20"
    using sint_of_int64 [of "2 ^ 20"] by (simp add: chunk)
  ultimately show ?thesis using b by (simp add: next_chunk_def Let_def min_def) linarith
qed

lemma splice_append: "k \<le> length bs \<Longrightarrow>
    splice k (take c (drop k bs)) (take k bs) = take (k + c) bs"
  by (simp add: splice_def take_add)

text \<open>A turn on a source that serves \<open>bs\<close>, with \<open>k\<close> bytes pulled so far.\<close>

lemma pull_turn_serves:
  assumes sv: "serves read (rf_SourceRemotePath args) bs"
    and sz: "rf_FileSize args = of_nat fsz" "fsz < 2 ^ 62" and k: "k < fsz" "k \<le> length bs"
    and d: "wf_disk d" "node_at d (comps rp) = Some (File (take k bs) t)"
    and data: "data = take (min (2 ^ 20) (fsz - k)) (drop k bs)"
  shows "(\<exists>err d'. pull_turn env now read args rp (of_nat k) d = Inl (Some err, d') \<and>
        wf_disk d' \<and> only (comps rp) d d' \<and> fails env SWrite rp \<noteq> None) \<or>
      (\<exists>d' t'. pull_turn env now read args rp (of_nat k) d = Inr (of_nat (k + length data), d') \<and>
        wf_disk d' \<and> only (comps rp) d d' \<and>
        node_at d' (comps rp) = Some (File (take (k + length data) bs) t'))"
proof -
  have s: "sint (of_nat k :: int64) = int k" "sint (of_nat fsz :: int64) = int fsz"
    using sz(2) k by (auto intro: sint_of_nat64)
  have "sint (next_chunk (of_nat k) (of_nat fsz)) = int (min (2 ^ 20) (fsz - k))"
    by (rule next_chunk [OF k(1) sz(2)])
  with sv s obtain reply where reply: "read \<lparr>rr_Path = rf_SourceRemotePath args, rr_Offset = of_nat k,
      rr_Length = next_chunk (of_nat k) (of_nat fsz)\<rparr> = Inr reply" "rrr_Data reply = data"
    unfolding serves_def data by (metis nat_int of_nat_0_le_iff)
  obtain n e d' where w: "OsWriteAt env now rp data (of_nat k) d = (n, e, d')"
    by (cases "OsWriteAt env now rp data (of_nat k) d")
  note we = OsWriteAt_effect [OF d w]
  show ?thesis
  proof (cases e)
    case (Some err)
    have "fails env SWrite rp \<noteq> None"
      using w Some s by (auto simp: OsWriteAt_def split: if_splits option.splits)
    with reply w Some s k we(1) show ?thesis by (simp add: pull_turn_def sz(1))
  next
    case None
    have "take (length (take c xs)) xs = take c xs" for c and xs :: "byte list"
      by (cases "c \<le> length xs") simp_all
    then have "take (length data) (drop k bs) = data" unfolding data .
    then have "splice k data (take k bs) = take (k + length data) bs"
      using splice_append [OF k(2), of "length data"] by simp
    moreover have "data = [] \<Longrightarrow> take k bs = take (k + length data) bs" by simp
    ultimately have "\<exists>t'. node_at d' (comps rp) = Some (File (take (k + length data) bs) t')"
      using we(2) [OF None] s by (auto split: if_splits)
    with reply w None s k we show ?thesis by (simp add: pull_turn_def sz(1))
  qed
qed

lemma pull_done: "sint offset \<ge> sint (rf_FileSize args) \<Longrightarrow> pull env now read args rp offset d = Some (None, d)"
  by (subst pull.simps) (simp add: pull_turn_def)

text \<open>A source with fewer bytes than announced keeps the loop turning for ever.\<close>

lemma pull_hangs:
  assumes sv: "serves read (rf_SourceRemotePath args) bs"
    and sz: "rf_FileSize args = of_nat fsz" "fsz < 2 ^ 62" "length bs < fsz"
    and calm: "fails env SWrite rp = None"
    and d: "wf_disk d" "node_at d (comps rp) = Some (File (take k bs) t)" "k \<le> length bs"
  shows "pull env now read args rp (of_nat k) d = None"
proof -
  define stuck where "stuck = (\<lambda>e w r a p off d'. e = env \<and> w = now \<and> r = read \<and> a = args \<and> p = rp \<and>
    wf_disk d' \<and> (\<exists>j t. j \<le> length bs \<and> off = (of_nat j :: int64) \<and>
      node_at d' (comps rp) = Some (File (take j bs) t)))"
  have "\<not> stuck e w r a p off d'" if "pull e w r a p off d' = Some y" for e w r a p off d' y
  proof (rule pull.raw_induct [where P = "\<lambda>e w r a p off d' y. \<not> stuck e w r a p off d'", OF _ that])
    fix f e w r a p off d' y
    assume IH: "\<And>e w r a p off d' y. f e w r a p off d' = Some y \<Longrightarrow> \<not> stuck e w r a p off d'"
      and body: "(case pull_turn e w r a p off d' of Inl x \<Rightarrow> Some x
        | Inr (off, d) \<Rightarrow> f e w r a p off d) = Some y"
    show "\<not> stuck e w r a p off d'"
    proof
      assume "stuck e w r a p off d'"
      then obtain j t where st: "e = env" "w = now" "r = read" "a = args" "p = rp" "wf_disk d'"
        "j \<le> length bs" "off = of_nat j" "node_at d' (comps rp) = Some (File (take j bs) t)"
        by (auto simp: stuck_def)
      define data where "data = take (min (2 ^ 20) (fsz - j)) (drop j bs)"
      have "j < fsz" using st(7) sz(3) by simp
      from pull_turn_serves [OF sv sz(1,2) this st(7,6,9) data_def] calm
      obtain d'' t' where turn: "pull_turn env now read args rp (of_nat j) d' = Inr (of_nat (j + length data), d'')"
        "wf_disk d''" "node_at d'' (comps rp) = Some (File (take (j + length data) bs) t')"
        by blast
      with body have nxt: "f env now read args rp (of_nat (j + length data)) d'' = Some y" by (simp add: st)
      have "j + length data \<le> length bs" using st(7) by (simp add: data_def)
      with turn have "stuck env now read args rp (of_nat (j + length data)) d''"
        unfolding stuck_def by blast
      with IH [OF nxt] show False by simp
    qed
  qed
  moreover have "stuck env now read args rp (of_nat k) d" using d by (auto simp: stuck_def)
  ultimately show ?thesis by (metis not_Some_eq)
qed

context blob_reader
begin

text \<open>The loop ends, and when it reports no error the target has the source's bytes.\<close>

lemma pull_copies:
  assumes "inv src" "content src (rf_SourceRemotePath args) = Some bs"
    and sz: "rf_FileSize args = of_nat fsz" "fsz < 2 ^ 62" "fsz \<le> length bs"
  shows "wf_disk d \<Longrightarrow> node_at d (comps rp) = Some (File (take k bs) t) \<Longrightarrow> k \<le> fsz \<Longrightarrow>
    \<exists>r d'. pull env now (range src) args rp (of_nat k) d = Some (r, d') \<and>
      wf_disk d' \<and> only (comps rp) d d' \<and>
      (r = None \<longrightarrow> (\<exists>t'. node_at d' (comps rp) = Some (File (take fsz bs) t'))) \<and>
      (fails env SWrite rp = None \<longrightarrow> r = None)"
proof (induction "fsz - k" arbitrary: k d t rule: less_induct)
  case less
  have sv: "serves (range src) (rf_SourceRemotePath args) bs" by (rule range_serves [OF assms(1,2)])
  have s: "sint (of_nat fsz :: int64) = int fsz" "sint (of_nat k :: int64) = int k"
    using sz(2) less.prems(3) by (auto intro: sint_of_nat64)
  show ?case
  proof (cases "k = fsz")
    case True
    with pull_done [of args "of_nat k"] less.prems show ?thesis by (auto simp: sz(1))
  next
    case False
    with less.prems(3) have k: "k < fsz" by simp
    define data where "data = take (min (2 ^ 20) (fsz - k)) (drop k bs)"
    have data: "0 < length data" "k + length data \<le> fsz" using k sz(3) by (auto simp: data_def)
    have le: "k \<le> length bs" using less.prems(3) sz(3) by simp
    from pull_turn_serves [OF sv sz(1,2) k le less.prems(1,2) data_def, of env now]
    consider err d' where "pull_turn env now (range src) args rp (of_nat k) d = Inl (Some err, d')"
        "wf_disk d'" "only (comps rp) d d'" "fails env SWrite rp \<noteq> None"
      | d' t' where "pull_turn env now (range src) args rp (of_nat k) d = Inr (of_nat (k + length data), d')"
        "wf_disk d'" "only (comps rp) d d'" "node_at d' (comps rp) = Some (File (take (k + length data) bs) t')"
      by blast
    then show ?thesis
    proof cases
      case 1
      then show ?thesis by (subst pull.simps) auto
    next
      case 2
      then have "pull env now (range src) args rp (of_nat k) d =
          pull env now (range src) args rp (of_nat (k + length data)) d'"
        by (subst pull.simps) simp
      moreover have "fsz - (k + length data) < fsz - k" using data k by arith
      ultimately show ?thesis
        using less.hyps [OF _ 2(2,4) data(2)] 2(3) by (fastforce intro: only_trans)
    qed
  qed
qed

end

end
