(* ===== verification/Data_Node_Props.thy ===== *)
theory Data_Node_Props
  imports Data_Node_Laws
begin

text \<open>
  What clients of a data node can rely on. The environment of the system calls is arbitrary in the
  statements about writes: whichever call fails, the reply says what happened.
\<close>

definition demo_dn :: data_node where
  "demo_dn = (case NewDataNode calm ''/srv/dn'' ''mds'' ''n1'' [] of
     Inr n \<Rightarrow> n | Inl _ \<Rightarrow> \<lparr>dataDir = [], mdsAddr = [], dn_addr = [], HeartbeatInterval = 0, dn_disk = []\<rparr>)"

lemma wf_empty_disk: "wf_disk []"
  by (simp add: wf_disk_def keys_def)

text \<open>A node started on an empty disk.\<close>

lemma NewDataNode_inv:
  assumes "NewDataNode env dir m a [] = Inr n"
  shows "dn_inv n"
proof -
  from assms obtain d where mk: "MkdirAll env dir [] = Inr d"
    and n: "dataDir n = dir" "dn_disk n = d" by (auto simp: NewDataNode_def split: sum.splits)
  have "node_at d (comps dir @ q) = None" if "q \<noteq> []" for q
    using MkdirAll_Inr(2) [OF wf_empty_disk mk, where r = "comps dir @ q"] that
    by (simp add: node_at_def)
  then have "clean_name w" if "node_at d (comps dir @ q) \<noteq> None" "w \<in> set q" for q w
    using that by (metis empty_iff list.set(1))
  with MkdirAll_Inr(1) [OF wf_empty_disk mk] show ?thesis by (simp add: dn_inv_def n)
qed

lemma demo_dn_inv: "dn_inv demo_dn"
proof -
  have "is_ok (NewDataNode calm ''/srv/dn'' ''mds'' ''n1'' [])" by code_simp
  with NewDataNode_inv show ?thesis by (auto simp: demo_dn_def is_ok_iff)
qed

lemma frame_holds:
  assumes "dn_inv n" "frame ks n n'" "vcomps q \<notin> ks"
  shows "holds n' q = holds n q"
  using assms holds_stored [of n q] holds_stored [of n' q] by (simp add: frame_def)

text \<open>A path whose deletion succeeded is missing with its parent in place, or was missing.\<close>

lemma again_deleted:
  assumes inv: "dn_inv n" and rp: "resolvePath (dataDir n) path = Inr rp"
    and run: "DeleteData env path n = (Inr True, n')"
  shows "DeleteData calm path n' = (Inr True, n')"
proof -
  have wf: "wf_disk (dn_disk n)" using inv by (simp add: dn_inv_def)
  obtain e d where rm: "Remove env rp (dn_disk n) = (e, d)" by (cases "Remove env rp (dn_disk n)")
  note re = Remove_effect [OF wf rm]
  have n': "n' = n\<lparr>dn_disk := d\<rparr>" and ok: "\<forall>err. e = Some err \<longrightarrow> IsNotExist err"
    using run rp rm by (auto simp: DeleteData_def with_path_def failed_def split: option.splits if_splits)
  have "\<exists>err. find_node d rp = Inl err \<and> IsNotExist err"
  proof (cases e)
    case None
    with re(2) have gone: "node_at d (comps rp) = None" and ne: "comps rp \<noteq> []" by simp_all
    have "node_at (dn_disk n) (comps rp) \<noteq> None"
      using None rm wf by (auto simp: Remove_def find_node_def split: option.splits if_splits sum.splits)
    with wf_disk_parent [OF wf this ne] re(1) ne
    have "node_at d (butlast (comps rp)) = Some Dir" by (simp add: only_def)
    with find_node_missing [of d rp] re(1) gone show ?thesis
      by (simp add: not_found_def IsNotExist_def)
  next
    case (Some err)
    with re(3) ok rm show ?thesis
      by (auto simp: Remove_def IsNotExist_def split: option.splits sum.splits fnode.splits if_splits os_error.splits)
  qed
  with rp show ?thesis
    by (auto simp: DeleteData_def with_path_def n' Remove_def calm_def)
qed

subsection \<open>Confinement\<close>

text \<open>
  C31 (confinement). Whatever path a client sends, the node works below its data directory: the
  components of the resolved path are those of the data directory followed by plain names, none of
  them empty, \<^verbatim>\<open>.\<close> or \<^verbatim>\<open>..\<close>, with no slash in them.
\<close>

theorem resolve_confined:
  "case resolvePath dir path of
     Inl err \<Rightarrow> err = ''invalid path: '' @ path
   | Inr rp \<Rightarrow> \<exists>ws. comps rp = comps dir @ ws \<and> list_all clean_name ws"
proof (cases "resolvePath dir path")
  case (Inl err)
  then show ?thesis by (simp add: resolvePath_eq split: if_splits)
next
  case (Inr rp)
  obtain r where "comps rp = comps dir @ vcomps path" by (rule resolved_real [OF Inr])
  with Inr vcomps_clean show ?thesis by (auto simp: list_all_iff)
qed

subsection \<open>Whole files\<close>

text \<open>
  C28 (atomic store). StoreData either replies true and the file has exactly the new content, or
  returns an error and the file has the content it had before, whichever of its system calls
  failed, half-done writes included. No other file changes but the temporary one next to it.
\<close>

theorem store_atomic:
  assumes "dn_inv n" "is_ok (resolvePath (dataDir n) (sa_Path args))"
    and "vcomps (sa_Path args) = ws" "ws \<noteq> []"
    and "StoreData env now args n = (r, n')"
  shows "dn_inv n' \<and>
    holds n' (sa_Path args) = (if r = Inr True then Some (sa_Content args) else holds n (sa_Path args)) \<and>
    (\<forall>q. vcomps q \<noteq> ws \<and> vcomps q \<noteq> tmp_of ws \<longrightarrow> holds n' q = holds n q)"
proof -
  from assms(2) obtain rp where rp: "resolvePath (dataDir n) (sa_Path args) = Inr rp"
    by (auto simp: is_ok_iff)
  note e = StoreData_effect [OF assms(1) rp assms(3,4,5)]
  then have "dn_inv n'" "dataDir n' = dataDir n" by (simp_all add: frame_def)
  with e assms(1,3) rp show ?thesis
    by (auto simp: holds_stored frame_def)
qed

theorem store_atomic_witness:
  "\<exists>r n'. StoreData (calm\<lparr>fails := (\<lambda>c p. if c = SRename then Some ''EIO'' else None)\<rparr>) 5
       \<lparr>sa_Path = ''/data/F'', sa_Content = [1, 2]\<rparr> demo_dn = (r, n') \<and>
     holds n' ''/data/F'' = None"
proof -
  let ?env = "calm\<lparr>fails := (\<lambda>c p. if c = SRename then Some ''EIO'' else None)\<rparr>"
  let ?a = "\<lparr>sa_Path = ''/data/F'', sa_Content = [1, 2]\<rparr>"
  obtain r n' where run: "StoreData ?env 5 ?a demo_dn = (r, n')" by (cases "StoreData ?env 5 ?a demo_dn")
  have f: "fst (StoreData ?env 5 ?a demo_dn) \<noteq> Inr True" "holds demo_dn (sa_Path ?a) = None"
    "is_ok (resolvePath (dataDir demo_dn) (sa_Path ?a))" "vcomps (sa_Path ?a) \<noteq> []" by code_simp+
  from store_atomic [OF demo_dn_inv f(3) refl f(4) run] f(1,2) run show ?thesis by auto
qed

text \<open>
  A delete that replies true leaves nothing at the path, and one that returns an
  error leaves the content as it was; other files keep theirs. It is idempotent: repeated on a quiet
  system it replies true again.
\<close>

theorem delete_data:
  assumes "dn_inv n" "is_ok (resolvePath (dataDir n) path)" "DeleteData env path n = (r, n')"
  shows "dn_inv n' \<and> holds n' path = (if r = Inr True then None else holds n path) \<and>
    (\<forall>q. vcomps q \<noteq> vcomps path \<longrightarrow> holds n' q = holds n q) \<and>
    (r = Inr True \<longrightarrow> DeleteData calm path n' = (Inr True, n'))"
proof -
  from assms(2) obtain rp where rp: "resolvePath (dataDir n) path = Inr rp" by (auto simp: is_ok_iff)
  note e = DeleteData_effect [OF assms(1) rp assms(3)]
  then have n': "dn_inv n'" "dataDir n' = dataDir n" by (simp_all add: frame_def)
  have "DeleteData calm path n' = (Inr True, n')" if "r = Inr True"
    using again_deleted [OF assms(1) rp] assms(3) that by simp
  with e n' assms(1) rp show ?thesis
    by (auto simp: holds_stored frame_def)
qed

theorem delete_data_witness:
  "\<exists>n n'. DeleteData calm ''/data/F'' n = (Inr True, n') \<and> holds n ''/data/F'' = Some [1, 2] \<and>
     holds n' ''/data/F'' = None \<and> DeleteData calm ''/data/F'' n' = (Inr True, n')"
proof -
  let ?a = "\<lparr>sa_Path = ''/data/F'', sa_Content = [1, 2]\<rparr>"
  obtain r n where run: "StoreData calm 5 ?a demo_dn = (r, n)" by (cases "StoreData calm 5 ?a demo_dn")
  have f: "fst (StoreData calm 5 ?a demo_dn) = Inr True"
    "is_ok (resolvePath (dataDir demo_dn) (sa_Path ?a))" "vcomps (sa_Path ?a) \<noteq> []" by code_simp+
  obtain rp where rp: "resolvePath (dataDir demo_dn) (sa_Path ?a) = Inr rp"
    using f(2) by (auto simp: is_ok_iff)
  from StoreData_effect [OF demo_dn_inv rp refl f(3) run] f(1) run
  have n: "dn_inv n" "dataDir n = dataDir demo_dn" "holds n ''/data/F'' = Some [1, 2]"
    using rp by (auto simp: frame_def holds_stored)
  obtain r' n' where del: "DeleteData calm ''/data/F'' n = (r', n')" by (cases "DeleteData calm ''/data/F'' n")
  have "fst (DeleteData calm ''/data/F'' (snd (StoreData calm 5 ?a demo_dn))) = Inr True" by code_simp
  with run del have "r' = Inr True" by simp
  with delete_data [OF n(1) _ del] n f(2) del show ?thesis by auto
qed

subsection \<open>Ranges\<close>

lemma length_splice: "new \<noteq> [] \<Longrightarrow> length (splice off new bs) = max (length bs) (off + length new)"
  by (cases new) (auto simp: splice_def max_def)

lemma nth_splice:
  assumes "i < length (splice off new bs)" "new \<noteq> []"
  shows "splice off new bs ! i =
    (if off \<le> i \<and> i < off + length new then new ! (i - off) else if i < length bs then bs ! i else 0)"
  using assms length_splice [OF assms(2), of off bs]
  by (auto simp: splice_def nth_append min_def)

lemma take_drop_splice: "take (length new) (drop off (splice off new bs)) = new"
  by (simp add: splice_def)

lemma calm_fails: "fails calm c p = None"
  by (simp add: calm_def)

lemma calm_makes: "\<not> make_max calm < sint (len :: int64)"
  using sint_lt [of len] by (simp add: calm_def)

lemma RangeRead_stored:
  assumes inv: "dn_inv n" and ok: "is_ok (resolvePath (dataDir n) (rr_Path args))"
    and "stored n (vcomps (rr_Path args)) = Some bs"
    and "sint (rr_Length args) \<ge> 0" "sint (rr_Offset args) \<ge> 0"
  shows "RangeRead calm args n reply = Some (Inr (reply\<lparr>
    rrr_Data := take (nat (sint (rr_Length args))) (drop (nat (sint (rr_Offset args))) bs),
    rrr_EOF := rrr_EOF reply \<or> length (take (nat (sint (rr_Length args)))
      (drop (nat (sint (rr_Offset args))) bs)) < nat (sint (rr_Length args))\<rparr>))"
proof -
  from ok obtain rp where rp: "resolvePath (dataDir n) (rr_Path args) = Inr rp" by (auto simp: is_ok_iff)
  obtain r where c: "comps rp = comps (dataDir n) @ vcomps (rr_Path args)" by (rule resolved_real [OF rp])
  from assms(3) obtain t where "node_at (dn_disk n) (comps rp) = Some (File bs t)"
    by (auto simp: stored_def c split: option.splits fnode.splits)
  then have "find_node (dn_disk n) rp = Inr (File bs t)"
    using inv by (simp add: find_node_Inr dn_inv_def)
  with rp assms(4,5) calm_fails calm_makes [of "rr_Length args"] show ?thesis
    by (simp add: RangeRead_def Let_def)
qed

text \<open>
  A read within a stored file returns the bytes of the range that the file has,
  and sets the end-of-file flag when those are fewer than asked for.
\<close>

theorem range_read:
  assumes "dn_inv n" "holds n (rr_Path args) = Some bs"
    and "off = nat (sint (rr_Offset args))" "len = nat (sint (rr_Length args))"
    and "sint (rr_Offset args) \<ge> 0" "sint (rr_Length args) \<ge> 0"
  shows "\<exists>reply'. RangeRead calm args n reply = Some (Inr reply') \<and>
    rrr_Data reply' = take len (drop off bs) \<and>
    rrr_EOF reply' = (rrr_EOF reply \<or> len > length bs - off)"
proof -
  from assms(1,2) have "is_ok (resolvePath (dataDir n) (rr_Path args))"
    "stored n (vcomps (rr_Path args)) = Some bs" by (auto simp: holds_stored split: if_splits)
  from RangeRead_stored [OF assms(1) this assms(6,5), of reply] show ?thesis
    by (auto simp: assms(3,4))
qed

theorem range_read_witness:
  "\<exists>n. holds n ''/data/F'' = Some [1, 2, 3] \<and>
     (\<exists>reply. RangeRead calm \<lparr>rr_Path = ''/data/F'', rr_Offset = 1, rr_Length = 9\<rparr> n
        \<lparr>rrr_Data = [], rrr_EOF = False\<rparr> = Some (Inr reply) \<and> rrr_Data reply = [2, 3] \<and> rrr_EOF reply)"
proof -
  let ?a = "\<lparr>sa_Path = ''/data/F'', sa_Content = [1, 2, 3]\<rparr>"
  let ?r = "\<lparr>rr_Path = ''/data/F'', rr_Offset = 1, rr_Length = 9\<rparr> :: RangeReadArgs"
  obtain r n where run: "StoreData calm 5 ?a demo_dn = (r, n)" by (cases "StoreData calm 5 ?a demo_dn")
  have f: "is_ok (resolvePath (dataDir demo_dn) (sa_Path ?a))" "vcomps (sa_Path ?a) \<noteq> []" by code_simp+
  obtain rp where rp: "resolvePath (dataDir demo_dn) (sa_Path ?a) = Inr rp"
    using f(1) by (auto simp: is_ok_iff)
  from StoreData_effect [OF demo_dn_inv rp refl f(2) run] have "dn_inv n" by (simp add: frame_def)
  moreover have "holds (snd (StoreData calm 5 ?a demo_dn)) ''/data/F'' = Some [1, 2, 3]" by code_simp
  ultimately show ?thesis
    using range_read [of n ?r "[1, 2, 3]" 1 9 "\<lparr>rrr_Data = [], rrr_EOF = False\<rparr>"] run by auto
qed

text \<open>
  C29 (write, then read). After a successful non-empty write the file is as long as it was or as the
  write reaches, the written range holds the data, a gap in front of it reads as zero and all other
  bytes are the old ones. Reading the range back returns exactly the data. No other file changes.
\<close>

theorem write_then_read:
  assumes "dn_inv n" "is_ok (resolvePath (dataDir n) (pw_Path args))"
    and "PartialWrite env now args n = (Inr True, n')"
    and "data = pw_Data args" "off = nat (sint (pw_Offset args))" "data \<noteq> []" "length data < 2 ^ 63"
    and "old = (case holds n (pw_Path args) of Some bs \<Rightarrow> bs | None \<Rightarrow> [])"
  shows "dn_inv n' \<and> (\<exists>bs. holds n' (pw_Path args) = Some bs \<and>
      length bs = max (length old) (off + length data) \<and>
      (\<forall>i < length bs. bs ! i = (if off \<le> i \<and> i < off + length data then data ! (i - off)
                               else if i < length old then old ! i else 0))) \<and>
    RangeRead calm \<lparr>rr_Path = pw_Path args, rr_Offset = pw_Offset args,
        rr_Length = of_nat (length data)\<rparr> n' reply = Some (Inr (reply\<lparr>rrr_Data := data\<rparr>)) \<and>
    (\<forall>q. vcomps q \<noteq> vcomps (pw_Path args) \<longrightarrow> holds n' q = holds n q)"
proof -
  from assms(2) obtain rp where rp: "resolvePath (dataDir n) (pw_Path args) = Inr rp"
    by (auto simp: is_ok_iff)
  note e = PartialWrite_effect [OF assms(1) rp refl assms(3)]
  from e(1) have n': "dn_inv n'" "dataDir n' = dataDir n" by (simp_all add: frame_def)
  have old: "old_bytes n (vcomps (pw_Path args)) = old"
    using assms(1,8) rp by (simp add: old_bytes_def holds_stored)
  from e(2) assms(4-6) old have st: "sint (pw_Offset args) \<ge> 0"
    "stored n' (vcomps (pw_Path args)) = Some (splice off data old)" by simp_all
  have "sint (of_nat (length data) :: int64) = int (length data)"
    by (rule sint_of_nat64 [OF assms(7)])
  with RangeRead_stored [OF n'(1), of "\<lparr>rr_Path = pw_Path args, rr_Offset = pw_Offset args,
      rr_Length = of_nat (length data)\<rparr>" "splice off data old" reply] st n' rp assms(5,6)
  have "RangeRead calm \<lparr>rr_Path = pw_Path args, rr_Offset = pw_Offset args,
        rr_Length = of_nat (length data)\<rparr> n' reply = Some (Inr (reply\<lparr>rrr_Data := data\<rparr>))"
    by (simp add: take_drop_splice)
  moreover have "holds n' (pw_Path args) = Some (splice off data old)"
    using n' rp st(2) by (simp add: holds_stored)
  moreover have "\<forall>q. vcomps q \<noteq> vcomps (pw_Path args) \<longrightarrow> holds n' q = holds n q"
    using frame_holds [OF assms(1) e(1)] by simp
  ultimately show ?thesis
    using n'(1) length_splice [OF assms(6), of off old] nth_splice [OF _ assms(6), of _ off old] by auto
qed

theorem write_then_read_witness:
  "\<exists>n'. PartialWrite calm 5 \<lparr>pw_Path = ''/data/F'', pw_Offset = 2, pw_Data = [7]\<rparr> demo_dn = (Inr True, n') \<and>
     (\<exists>bs. holds n' ''/data/F'' = Some bs \<and> length bs = 3 \<and> bs ! 0 = 0 \<and> bs ! 2 = 7)"
proof -
  let ?a = "\<lparr>pw_Path = ''/data/F'', pw_Offset = 2, pw_Data = [7]\<rparr> :: PartialWriteArgs"
  obtain r n' where run: "PartialWrite calm 5 ?a demo_dn = (r, n')" by (cases "PartialWrite calm 5 ?a demo_dn")
  have f: "is_ok (resolvePath (dataDir demo_dn) (pw_Path ?a))"
    "fst (PartialWrite calm 5 ?a demo_dn) = Inr True" "holds demo_dn (pw_Path ?a) = None" by code_simp+
  with run have "PartialWrite calm 5 ?a demo_dn = (Inr True, n')" by simp
  from write_then_read [OF demo_dn_inv f(1) this, of "[7]" 2 "[]"] f(3) this
  show ?thesis by fastforce
qed

subsection \<open>Truncation\<close>

text \<open>
  A file can be made or opened at a path: there is no directory, and no file stands where the path
  needs a directory.
\<close>

definition room :: "data_node \<Rightarrow> string list \<Rightarrow> bool" where
  "room n ws \<longleftrightarrow> node_at (dn_disk n) (comps (dataDir n) @ ws) \<noteq> Some Dir \<and>
     (\<forall>p bs t. strict_prefix p (comps (dataDir n) @ ws) \<longrightarrow> node_at (dn_disk n) p \<noteq> Some (File bs t))"

lemma open_calm_iff:
  assumes inv: "dn_inv n" and rp: "resolvePath (dataDir n) path = Inr rp"
  shows "(\<exists>d1 d2. MkdirAll calm (FilepathDir rp) (dn_disk n) = Inr d1 \<and>
      open_create calm False now rp d1 = Inr d2) \<longleftrightarrow> room n (vcomps path)"
proof -
  have wf: "wf_disk (dn_disk n)" using inv by (simp add: dn_inv_def)
  obtain r where r: "rp = canon r (comps (dataDir n) @ vcomps path)"
    "normal r (comps (dataDir n) @ vcomps path)" "comps rp = comps (dataDir n) @ vcomps path"
    by (rule resolved_real [OF rp])
  have dir: "comps (FilepathDir rp) = butlast (comps rp)"
    using comps_Dir_butlast [OF r(2)] r(1,3) by simp
  have up: "prefix p (butlast (comps rp)) \<longleftrightarrow> strict_prefix p (comps rp)" if "comps rp \<noteq> []" for p
    using that by (cases "comps rp" rule: rev_cases) (auto simp: strict_prefix_def)
  show ?thesis
  proof
    assume "\<exists>d1 d2. MkdirAll calm (FilepathDir rp) (dn_disk n) = Inr d1 \<and>
      open_create calm False now rp d1 = Inr d2"
    then obtain d1 d2 where d: "MkdirAll calm (FilepathDir rp) (dn_disk n) = Inr d1"
      "open_create calm False now rp d1 = Inr d2" by blast
    note m = MkdirAll_Inr [OF wf d(1), unfolded dir]
    note o = open_create_Inr [OF m(1) d(2)]
    from o have ne: "comps rp \<noteq> []" by blast
    have "\<not> prefix (comps rp) (butlast (comps rp))" using up [OF ne] by (simp add: strict_prefix_def)
    with m(2) [of "comps rp"] have "node_at d1 (comps rp) = node_at (dn_disk n) (comps rp)" by simp
    moreover have "node_at d1 (comps rp) \<noteq> Some Dir"
    proof
      assume "node_at d1 (comps rp) = Some Dir"
      then have "find_node d1 rp = Inr Dir" by (simp add: find_node_Inr [OF m(1)])
      with d(2) show False by (simp add: open_create_def calm_fails)
    qed
    moreover have "node_at (dn_disk n) p \<noteq> Some (File bs t)" if "strict_prefix p (comps rp)" for p bs t
      using m(3) [of p] up [OF ne] that by blast
    ultimately show "room n (vcomps path)" by (auto simp: room_def r(3))
  next
    assume rm: "room n (vcomps path)"
    then have ne: "comps rp \<noteq> []" by (auto simp: room_def r(3))
    have "\<not> list_ex (\<lambda>q. is_file (map_of (dn_disk n) q)) (prefixes (comps (FilepathDir rp)))"
      using rm by (auto simp: list_ex_iff is_file_iff [OF wf] dir up [OF ne] room_def r(3) [symmetric])
    then obtain d1 where d1: "MkdirAll calm (FilepathDir rp) (dn_disk n) = Inr d1"
      by (simp add: MkdirAll_def calm_fails)
    note m = MkdirAll_Inr [OF wf d1, unfolded dir]
    have "\<not> prefix (comps rp) (butlast (comps rp))" using up [OF ne] by (simp add: strict_prefix_def)
    with m(2) rm have no: "node_at d1 (comps rp) \<noteq> Some Dir" by (simp add: room_def r(3))
    have pd: "node_at d1 (butlast (comps rp)) = Some Dir" using m(2) by simp
    from m(1) have "\<exists>d2. open_create calm False now rp d1 = Inr d2"
    proof (cases rule: find_node_cases [where p = rp])
      case (missing err)
      have "\<not> blocked d1 (comps rp)"
        using m(2) up [OF ne] by (auto simp: blocked_iff [OF m(1)])
      with missing have "IsNotExist err"
        by (auto simp: find_node_def not_found_def IsNotExist_def split: if_splits option.splits)
      with missing pd show ?thesis by (simp add: open_create_def calm_fails)
    qed (use no in \<open>auto simp: open_create_def calm_fails\<close>)
    with d1 show "\<exists>d1 d2. MkdirAll calm (FilepathDir rp) (dn_disk n) = Inr d1 \<and>
      open_create calm False now rp d1 = Inr d2" by blast
  qed
qed

text \<open>When nothing outside the node fails, a truncation fails for these reasons only.\<close>

lemma TruncateData_calm_iff:
  assumes inv: "dn_inv n" and rp: "resolvePath (dataDir n) (ta_Path args) = Inr rp"
  shows "fst (TruncateData calm now args n) = Inr True \<longleftrightarrow> sint (ta_Size args) \<ge> 0 \<and>
    (if sint (ta_Size args) = 0 then stored n (vcomps (ta_Path args)) \<noteq> None
     else room n (vcomps (ta_Path args)))"
proof -
  have wf: "wf_disk (dn_disk n)" using inv by (simp add: dn_inv_def)
  have c: "comps rp = comps (dataDir n) @ vcomps (ta_Path args)" using resolved_real [OF rp] by metis
  have trunc: "fst (OsTruncate calm now rp (ta_Size args) d) = None \<longleftrightarrow>
      sint (ta_Size args) \<ge> 0 \<and> (\<exists>bs t. node_at d (comps rp) = Some (File bs t))" if "wf_disk d" for d
    using that by (cases rule: find_node_cases [where p = rp]) (auto simp: OsTruncate_def calm_fails)
  show ?thesis
  proof (cases "sint (ta_Size args) > 0")
    case False
    then show ?thesis using trunc [OF wf] rp
      by (auto simp: TruncateData_def with_path_def failed_def stored_def c Let_def
        split: prod.splits option.splits fnode.splits)
  next
    case pos: True
    show ?thesis
    proof (cases "room n (vcomps (ta_Path args))")
      case False
      with pos rp open_calm_iff [OF inv rp, of now] show ?thesis
        by (auto simp: TruncateData_def with_path_def failed_def split: sum.splits)
    next
      case True
      with open_calm_iff [OF inv rp, of now] obtain d1 d2 where
        d: "MkdirAll calm (FilepathDir rp) (dn_disk n) = Inr d1" "open_create calm False now rp d1 = Inr d2"
        by blast
      note o = open_create_Inr [OF MkdirAll_Inr(1) [OF wf d(1)] d(2)]
      from o trunc [of d2] pos have "fst (OsTruncate calm now rp (ta_Size args) d2) = None" by auto
      with pos rp d True show ?thesis
        by (auto simp: TruncateData_def with_path_def Let_def split: prod.splits option.splits)
    qed
  qed
qed

text \<open>A truncation that fails leaves the bytes, but may have made the file.\<close>

lemma TruncateData_error:
  assumes inv: "dn_inv n" and rp: "resolvePath (dataDir n) (ta_Path args) = Inr rp"
    and ws: "vcomps (ta_Path args) = ws" and run: "TruncateData env now args n = (Inl err, n')"
  shows "stored n' ws = stored n ws \<or> sint (ta_Size args) > 0 \<and> stored n ws = None \<and> stored n' ws = Some []"
proof -
  have wf: "wf_disk (dn_disk n)" using inv by (simp add: dn_inv_def)
  have c: "comps rp = comps (dataDir n) @ ws" using resolved_real [OF rp] ws by metis
  have keep: "d' = d" if "OsTruncate env now rp (ta_Size args) d = (Some e, d')" for d d' e
    using that by (auto simp: OsTruncate_def split: option.splits if_splits sum.splits fnode.splits)
  show ?thesis
  proof (cases "sint (ta_Size args) > 0")
    case False
    with run rp have "n' = n"
      by (auto simp: TruncateData_def with_path_def Let_def split: prod.splits option.splits dest: keep)
    then show ?thesis by simp
  next
    case True
    consider (1) err where "MkdirAll env (FilepathDir rp) (dn_disk n) = Inl err"
      | (2) d1 err where "MkdirAll env (FilepathDir rp) (dn_disk n) = Inr d1"
          "open_create env False now rp d1 = Inl err"
      | (3) d1 d2 where "MkdirAll env (FilepathDir rp) (dn_disk n) = Inr d1"
          "open_create env False now rp d1 = Inr d2"
      by (metis sum.exhaust)
    then show ?thesis
    proof cases
      case 1
      with True run rp show ?thesis by (simp add: TruncateData_def with_path_def)
    next
      case 2
      with True run rp have "n' = n\<lparr>dn_disk := d1\<rparr>" by (simp add: TruncateData_def with_path_def)
      with stored_MkdirAll [OF wf 2(1)] show ?thesis by simp
    next
      case 3
      with True run rp have "n' = n\<lparr>dn_disk := d2\<rparr>"
        by (auto simp: TruncateData_def with_path_def Let_def split: prod.splits option.splits dest: keep)
      with open_effect(2) [OF inv rp ws 3] have "stored n' ws = Some (old_bytes n ws)"
        by (auto simp: stored_def c old_bytes_def)
      with True show ?thesis by (cases "stored n ws") (simp_all add: old_bytes_def)
    qed
  qed
qed

text \<open>
  C30 (truncate). A truncation that replies true leaves the file with the asked size: the old bytes
  up to it, zeros behind them. Otherwise it is an error, and the file keeps its bytes; an error
  behind the creation of a missing file leaves it empty. When no system call fails on its own
  account, the reply is true exactly when the size is positive and a file can be made or opened at
  the path, or the size is zero and the file exists: a missing file truncated to a positive size is
  created, while a negative size, and size zero of a missing file, are errors. A path that does not
  resolve changes nothing. Other files keep their content always.
\<close>

theorem truncate_outcome:
  assumes "dn_inv n" "TruncateData env now args n = (r, n')"
    and "size_n = sint (ta_Size args)" "old = holds n (ta_Path args)"
  shows "dn_inv n' \<and> (\<forall>q. vcomps q \<noteq> vcomps (ta_Path args) \<longrightarrow> holds n' q = holds n q) \<and>
    (if \<not> is_ok (resolvePath (dataDir n) (ta_Path args))
     then r = Inl (''invalid path: '' @ ta_Path args) \<and> n' = n
     else (if r = Inr True then size_n \<ge> 0 \<and> holds n' (ta_Path args) =
             Some (let bs = (case old of Some bs \<Rightarrow> bs | None \<Rightarrow> [])
                   in take (nat size_n) bs @ replicate (nat size_n - length bs) 0)
           else (\<exists>msg. r = Inl msg) \<and> (holds n' (ta_Path args) = old \<or>
             size_n > 0 \<and> old = None \<and> holds n' (ta_Path args) = Some [])) \<and>
          (env = calm \<longrightarrow> (r = Inr True \<longleftrightarrow> size_n > 0 \<and> room n (vcomps (ta_Path args)) \<or>
             size_n = 0 \<and> old \<noteq> None)))"
proof (cases "is_ok (resolvePath (dataDir n) (ta_Path args))")
  case False
  then obtain err where e: "resolvePath (dataDir n) (ta_Path args) = Inl err"
    by (cases "resolvePath (dataDir n) (ta_Path args)") auto
  then have "err = ''invalid path: '' @ ta_Path args"
    by (auto simp: resolvePath_def Let_def split: if_splits)
  with e assms(1,2) show ?thesis by (simp add: TruncateData_def with_path_def)
next
  case True
  then obtain rp where rp: "resolvePath (dataDir n) (ta_Path args) = Inr rp"
    by (auto simp: is_ok_iff)
  note e = TruncateData_effect [OF assms(1) rp refl assms(2)]
  from e(1) have n': "dn_inv n'" "dataDir n' = dataDir n" by (simp_all add: frame_def)
  have h: "holds n (ta_Path args) = stored n (vcomps (ta_Path args))"
    "holds n' (ta_Path args) = stored n' (vcomps (ta_Path args))"
    using assms(1) n' rp by (simp_all add: holds_stored)
  have "\<forall>q. vcomps q \<noteq> vcomps (ta_Path args) \<longrightarrow> holds n' q = holds n q"
    using frame_holds [OF assms(1) e(1)] by simp
  moreover have "\<exists>msg. r = Inl msg" if "r \<noteq> Inr True"
    using that assms(2) rp
    by (auto simp: TruncateData_def with_path_def failed_def Let_def
      split: if_splits sum.splits prod.splits option.splits)
  moreover have "env = calm \<longrightarrow> (r = Inr True \<longleftrightarrow> size_n > 0 \<and> room n (vcomps (ta_Path args)) \<or>
      size_n = 0 \<and> old \<noteq> None)"
    using TruncateData_calm_iff [OF assms(1) rp, of now] assms(2)
    by (cases "sint (ta_Size args) = 0") (auto simp: h assms(3,4))
  moreover have "stored n' (vcomps (ta_Path args)) = old \<or>
      size_n > 0 \<and> old = None \<and> stored n' (vcomps (ta_Path args)) = Some []" if "r = Inl msg" for msg
    using TruncateData_error [OF assms(1) rp refl, of env now msg n'] that assms(2)
    by (simp add: h assms(3,4))
  ultimately show ?thesis
    using n'(1) e(2) h(2) True by (auto simp: old_bytes_def resize_def Let_def assms(3,4) h(1))
qed

theorem truncate_outcome_witness:
  "(\<exists>n'. TruncateData calm 5 \<lparr>ta_Path = ''/data/F'', ta_Size = 2\<rparr> demo_dn = (Inr True, n') \<and>
     holds n' ''/data/F'' = Some [0, 0]) \<and>
   fst (TruncateData calm 5 \<lparr>ta_Path = ''/data/F'', ta_Size = 0\<rparr> demo_dn) \<noteq> Inr True"
proof -
  let ?a = "\<lparr>ta_Path = ''/data/F'', ta_Size = 2\<rparr> :: TruncateArgs"
  let ?b = "\<lparr>ta_Path = ''/data/F'', ta_Size = 0\<rparr> :: TruncateArgs"
  obtain r n' where run: "TruncateData calm 5 ?a demo_dn = (r, n')" by (cases "TruncateData calm 5 ?a demo_dn")
  obtain r2 n2 where run2: "TruncateData calm 5 ?b demo_dn = (r2, n2)" by (cases "TruncateData calm 5 ?b demo_dn")
  have f: "is_ok (resolvePath (dataDir demo_dn) (ta_Path ?a))"
    "fst (TruncateData calm 5 ?a demo_dn) = Inr True" "holds demo_dn (ta_Path ?a) = None" by code_simp+
  from run f(2) have r: "TruncateData calm 5 ?a demo_dn = (Inr True, n')" by simp
  have "holds n' ''/data/F'' = Some [0, 0]"
    using truncate_outcome [OF demo_dn_inv r refl refl] f(1,3) by (simp add: numeral_2_eq_2)
  moreover have "r2 \<noteq> Inr True"
    using truncate_outcome [OF demo_dn_inv run2 refl refl] f(1,3) by simp
  ultimately show ?thesis using r run2 by simp
qed

subsection \<open>Listing\<close>

lemma ListAllPaths_set:
  assumes inv: "dn_inv n" and dir: "node_at (dn_disk n) (comps (dataDir n)) = Some Dir"
    and run: "ListAllPaths env n = Inr fs"
  shows "nf \<in> set fs \<longleftrightarrow> (\<exists>ws bs t. node_at (dn_disk n) (comps (dataDir n) @ ws) = Some (File bs t) \<and>
    ws \<noteq> [] \<and> \<not> HasSuffix (abs_path ws) tmp_ext \<and> nf = \<lparr>nf_Path = abs_path ws, nf_ModTime = t\<rparr>)"
proof -
  let ?dir = "comps (dataDir n)"
  have wf: "wf_disk (dn_disk n)" using inv by (simp add: dn_inv_def)
  have fs: "fs = map (\<lambda>(q, t). \<lparr>nf_Path = abs_path q, nf_ModTime = t\<rparr>)
      (filter (\<lambda>(q, t). \<not> HasSuffix (abs_path q) tmp_ext) (files_below ?dir (dn_disk n)))"
    using run find_node_Inr [OF wf, of "dataDir n" Dir] dir
    by (auto simp: ListAllPaths_def split: option.splits)
  have below: "(ws, t) \<in> set (files_below ?dir (dn_disk n)) \<longleftrightarrow>
      ws \<noteq> [] \<and> (\<exists>bs. node_at (dn_disk n) (?dir @ ws) = Some (File bs t))" for ws t
  proof -
    have "(ws, t) \<in> set (files_below ?dir (dn_disk n)) \<longleftrightarrow>
        (\<exists>q bs. (q, File bs t) \<in> set (dn_disk n) \<and> strict_prefix ?dir q \<and> ws = drop (length ?dir) q)"
      by (force simp: files_below_def split: fnode.splits)
    also have "\<dots> \<longleftrightarrow> ws \<noteq> [] \<and> (\<exists>bs. (?dir @ ws, File bs t) \<in> set (dn_disk n))"
      by (auto simp: strict_prefix_def prefix_def)
    also have "\<dots> \<longleftrightarrow> ws \<noteq> [] \<and> (\<exists>bs. node_at (dn_disk n) (?dir @ ws) = Some (File bs t))"
      using wf map_of_Some_iff_set [of "dn_disk n"] by (auto simp: wf_disk_def node_at_def)
    finally show ?thesis .
  qed
  show ?thesis by (force simp: fs below)
qed

lemma listed_iff:
  assumes "dn_inv n" "find_node (dn_disk n) (dataDir n) = Inr Dir" "ListAllPaths env n = Inr fs"
    and "path = abs_path (vcomps path)" "vcomps path \<noteq> []" "is_ok (resolvePath (dataDir n) path)"
  shows "path \<in> nf_Path ` set fs \<longleftrightarrow> holds n path \<noteq> None \<and> \<not> HasSuffix path tmp_ext"
proof -
  have wf: "wf_disk (dn_disk n)" using assms(1) by (simp add: dn_inv_def)
  have inj: "ws = vcomps path" if "abs_path ws = path"
    "node_at (dn_disk n) (comps (dataDir n) @ ws) = Some (File bs t)" for ws bs t
  proof -
    have "\<forall>w \<in> set ws. valid_name w"
      using wf_disk_names [OF wf, of "comps (dataDir n) @ ws"] that(2) by simp
    moreover have "\<forall>w \<in> set (vcomps path). valid_name w"
      using vcomps_clean by (auto simp: clean_name_def)
    ultimately show ?thesis using that(1) assms(4) splitPath_abs_path by metis
  qed
  have "path \<in> nf_Path ` set fs \<longleftrightarrow>
      (\<exists>nf. nf \<in> set fs \<and> nf_Path nf = path)" by auto
  also have "\<dots> \<longleftrightarrow> stored n (vcomps path) \<noteq> None \<and> \<not> HasSuffix path tmp_ext"
    unfolding ListAllPaths_set [OF assms(1) assms(2) [unfolded find_node_Inr [OF wf]] assms(3)]
    using assms(4,5) inj by (fastforce simp: stored_def split: option.splits fnode.splits)
  finally show ?thesis using assms(1,6) by (simp add: holds_stored)
qed

text \<open>
  What the garbage collector is told: a file is listed, under its canonical path,
  exactly when the node holds it and it is not a temporary file.
\<close>

theorem list_all_paths:
  assumes "dn_inv n" "find_node (dn_disk n) (dataDir n) = Inr Dir" "ListAllPaths env n = Inr fs"
    and "path = abs_path (vcomps path)" "vcomps path \<noteq> []" "is_ok (resolvePath (dataDir n) path)"
  shows "path \<in> nf_Path ` set fs \<longleftrightarrow> holds n path \<noteq> None \<and> \<not> HasSuffix path tmp_ext"
  by (rule listed_iff [OF assms])

theorem list_all_paths_witness:
  "\<exists>n fs. holds n ''/data/F'' = Some [1] \<and> ListAllPaths calm n = Inr fs \<and> ''/data/F'' \<in> nf_Path ` set fs"
proof -
  let ?a = "\<lparr>sa_Path = ''/data/F'', sa_Content = [1]\<rparr>"
  obtain r n where run: "StoreData calm 5 ?a demo_dn = (r, n)" by (cases "StoreData calm 5 ?a demo_dn")
  have f: "is_ok (resolvePath (dataDir demo_dn) (sa_Path ?a))" "vcomps (sa_Path ?a) \<noteq> []"
    "''/data/F'' = abs_path (vcomps ''/data/F'')" "\<not> HasSuffix ''/data/F'' tmp_ext" by code_simp+
  obtain rp where rp: "resolvePath (dataDir demo_dn) (sa_Path ?a) = Inr rp"
    using f(1) by (auto simp: is_ok_iff)
  from StoreData_effect [OF demo_dn_inv rp refl f(2) run]
  have n: "dn_inv n" "dataDir n = dataDir demo_dn" by (simp_all add: frame_def)
  have "let n = snd (StoreData calm 5 ?a demo_dn) in holds n ''/data/F'' = Some [1] \<and>
      find_node (dn_disk n) (dataDir n) = Inr Dir \<and> is_ok (ListAllPaths calm n)" by code_simp
  with run have h: "holds n ''/data/F'' = Some [1]" "find_node (dn_disk n) (dataDir n) = Inr Dir"
    "is_ok (ListAllPaths calm n)" by simp_all
  from h(3) obtain fs where fs: "ListAllPaths calm n = Inr fs" by (auto simp: is_ok_iff)
  have "''/data/F'' \<in> nf_Path ` set fs"
    using list_all_paths [OF n(1) h(2) fs f(3)] f(1,2,4) h(1) n(2) by simp
  with h(1) fs show ?thesis by blast
qed

end
