(* ===== verification/Data_Service.thy ===== *)
theory Data_Service
  imports Replicate_File Data_Node_Props
begin

text \<open>
  The data node as the other components see it: the interfaces of \<open>Blob_Store\<close> interpreted on its
  handlers, and the properties of copying a file from node to node.
\<close>

text \<open>
  \<^verbatim>\<open>RangeRead\<close> over RPC, with a fresh reply, at a source whose own system calls do not fail.
  \<^verbatim>\<open>net/rpc\<close> does not recover from a panic of a handler: the panic ends the process of the
  serving node, and the caller sees its connection close. Only that call is modelled; that the node
  is then down until it is restarted is for the dial errors of later calls to say.
\<close>

definition rpc_range :: "data_node \<Rightarrow> RangeReadArgs \<Rightarrow> RangeReadReply result" where
  "rpc_range n args =
     (case RangeRead calm args n \<lparr>rrr_Data = [], rrr_EOF = False\<rparr> of
        None \<Rightarrow> Inl ''unexpected EOF'' | Some r \<Rightarrow> r)"

definition canonical :: "string \<Rightarrow> bool" where
  "canonical p \<longleftrightarrow> p = abs_path (vcomps p) \<and> vcomps p \<noteq> []"

definition svc_inv :: "data_node \<Rightarrow> bool" where
  "svc_inv n \<longleftrightarrow> dn_inv n \<and> \<not> is_file (node_at (dn_disk n) (comps (dataDir n)))"

lemma holds_serves:
  assumes "dn_inv n" "holds n path = Some bs"
  shows "serves (rpc_range n) path bs"
proof -
  from assms have "is_ok (resolvePath (dataDir n) path)" "stored n (vcomps path) = Some bs"
    by (auto simp: holds_stored split: if_splits)
  with RangeRead_stored [OF assms(1)] show ?thesis by (simp add: serves_def rpc_range_def)
qed

lemma missing_serves:
  assumes "dn_inv n" "GetData calm path n = Inl (''data not found: '' @ path)"
    and "is_ok (resolvePath (dataDir n) path)"
  shows "serves (rpc_range n) path []"
proof -
  from assms(3) obtain rp where rp: "resolvePath (dataDir n) path = Inr rp" by (auto simp: is_ok_iff)
  have "find_node (dn_disk n) rp \<noteq> Inr Dir"
    using assms(2) rp by (auto simp: GetData_def ReadFile_def calm_def failed_def is_a_dir_def IsNotExist_def)
  with assms(2) rp obtain err where "find_node (dn_disk n) rp = Inl err" "IsNotExist err"
    by (auto simp: GetData_def ReadFile_def calm_def failed_def split: sum.splits fnode.splits if_splits)
  with rp show ?thesis by (simp add: serves_def rpc_range_def RangeRead_def calm_def)
qed

lemma vcomps_abs_path: "\<forall>w \<in> set ws. clean_name w \<Longrightarrow> vcomps (abs_path ws) = ws"
  using comps_abs_path [of ws] by (simp add: vcomps_def abs_path_def TrimPrefix_def HasPrefix_def)

lemma listed_canonical:
  assumes "svc_inv n" "ListAllPaths env n = Inr fs" "nf \<in> set fs"
  shows "canonical (nf_Path nf)"
proof -
  from assms(1) have inv: "dn_inv n" and wf: "wf_disk (dn_disk n)" by (simp_all add: svc_inv_def dn_inv_def)
  have "node_at (dn_disk n) (comps (dataDir n)) = Some Dir"
    using assms(1,2) find_node_Inr [OF wf, of "dataDir n"]
    by (auto simp: ListAllPaths_def svc_inv_def is_file_def failed_def
        split: option.splits sum.splits fnode.splits)
  from ListAllPaths_set [OF inv this assms(2)] assms(3) obtain ws bs t where
    "node_at (dn_disk n) (comps (dataDir n) @ ws) = Some (File bs t)" "ws \<noteq> []" "nf_Path nf = abs_path ws"
    by auto
  moreover from this(1) inv have "\<forall>w \<in> set ws. clean_name w" by (auto simp: dn_inv_def)
  ultimately show ?thesis by (simp add: canonical_def vcomps_abs_path)
qed

lemma canonical_vcomps: "canonical p \<Longrightarrow> canonical q \<Longrightarrow> vcomps p = vcomps q \<Longrightarrow> p = q"
  by (metis canonical_def)

lemma DeleteData_frame:
  assumes "dn_inv n" "DeleteData env path n = (r, n')"
  shows "frame {vcomps path} n n'" "r = Inr True \<Longrightarrow> holds n' path = None"
    "r \<noteq> Inr True \<Longrightarrow> holds n' path = holds n path"
proof -
  have "frame {vcomps path} n n' \<and> holds n' path = (if r = Inr True then None else holds n path)"
  proof (cases "resolvePath (dataDir n) path")
    case (Inl err)
    with assms show ?thesis by (auto simp: DeleteData_def with_path_def intro: frame_refl)
  next
    case (Inr rp)
    from DeleteData_effect [OF assms(1) Inr assms(2)] Inr assms(1) show ?thesis
      by (auto simp: holds_stored frame_def)
  qed
  then show "frame {vcomps path} n n'" "r = Inr True \<Longrightarrow> holds n' path = None"
    "r \<noteq> Inr True \<Longrightarrow> holds n' path = holds n path" by auto
qed

lemma DeleteData_svc_inv:
  assumes "svc_inv n" "canonical path" "DeleteData env path n = (r, n')"
  shows "svc_inv n'"
proof (cases "resolvePath (dataDir n) path")
  case (Inl err)
  with assms show ?thesis by (simp add: DeleteData_def with_path_def)
next
  case (Inr rp)
  have inv: "dn_inv n" and wf: "wf_disk (dn_disk n)" using assms(1) by (simp_all add: svc_inv_def dn_inv_def)
  obtain e d where rm: "Remove env rp (dn_disk n) = (e, d)" by (cases "Remove env rp (dn_disk n)")
  have n': "n' = n\<lparr>dn_disk := d\<rparr>"
    using assms(3) Inr rm by (auto simp: DeleteData_def with_path_def split: option.splits if_splits)
  obtain c where "comps rp = comps (dataDir n) @ vcomps path" by (rule resolved_real [OF Inr])
  with Remove_effect(1) [OF wf rm] assms(2)
  have "node_at d (comps (dataDir n)) = node_at (dn_disk n) (comps (dataDir n))"
    by (simp add: only_def canonical_def)
  with DeleteData_frame(1) [OF inv assms(3)] assms(1) show ?thesis
    by (simp add: svc_inv_def n' frame_def)
qed

interpretation dn_reader: blob_reader dn_inv holds rpc_range
  by unfold_locales (rule holds_serves)

interpretation dn_store: blob_store svc_inv holds rpc_range canonical "ListAllPaths env" "DeleteData env"
  for env
proof unfold_locales
  show "serves (rpc_range n) path bs" if "svc_inv n" "holds n path = Some bs" for n path bs
    using that by (intro holds_serves) (simp_all add: svc_inv_def)
  show "canonical (nf_Path nf)" if "svc_inv n" "ListAllPaths env n = Inr fs" "nf \<in> set fs" for n fs nf
    using that by (rule listed_canonical)
  show "svc_inv n'" if "svc_inv n" "canonical p" "DeleteData env p n = (r, n')" for n p r n'
    using that by (rule DeleteData_svc_inv)
  show "holds n' q = holds n q"
    if "svc_inv n" "canonical p" "canonical q" "p \<noteq> q" "DeleteData env p n = (r, n')" for n p q r n'
  proof -
    have "dn_inv n" using that(1) by (simp add: svc_inv_def)
    moreover have "vcomps q \<notin> {vcomps p}" using canonical_vcomps [OF that(2,3)] that(4) by auto
    ultimately show ?thesis using frame_holds DeleteData_frame(1) that(5) by metis
  qed
  show "holds n' p = None" if "svc_inv n" "DeleteData env p n = (Inr True, n')" for n p n'
    using that by (intro DeleteData_frame(2) [OF _ that(2) refl]) (simp add: svc_inv_def)
  show "holds n' p = holds n p" if "svc_inv n" "DeleteData env p n = (r, n')" "r \<noteq> Inr True" for n p r n'
    using that by (intro DeleteData_frame(3) [OF _ that(2,3)]) (simp add: svc_inv_def)
qed

subsection \<open>Copying between nodes\<close>

text \<open>The node would accept a write at this path: its directory and file can be opened.\<close>

definition writable :: "os_env \<Rightarrow> time \<Rightarrow> data_node \<Rightarrow> string \<Rightarrow> bool" where
  "writable env now n path \<longleftrightarrow>
     fst (PartialWrite env now \<lparr>pw_Path = path, pw_Offset = 0, pw_Data = []\<rparr> n) = Inr True"

lemma writable_opens:
  assumes "writable env now n path" "wf_disk (dn_disk n)"
  obtains rp d1 d2 where "resolvePath (dataDir n) path = Inr rp"
    "MkdirAll env (FilepathDir rp) (dn_disk n) = Inr d1" "open_create env True now rp d1 = Inr d2"
proof -
  from assms(1) obtain rp d1 d2 where o: "resolvePath (dataDir n) path = Inr rp"
    "MkdirAll env (FilepathDir rp) (dn_disk n) = Inr d1" "open_create env False now rp d1 = Inr d2"
    by (auto simp: writable_def PartialWrite_def with_path_def failed_def split: sum.splits)
  from o(3) have "\<exists>d2. open_create env True now rp d1 = Inr d2"
    by (auto simp: open_create_def split: option.splits sum.splits fnode.splits if_splits)
  with o that show thesis by blast
qed

lemma open_trunc_frame:
  assumes "dn_inv n" "resolvePath (dataDir n) path = Inr rp"
    and "MkdirAll env (FilepathDir rp) (dn_disk n) = Inr d1" "open_create env True now rp d1 = Inr d2"
  shows "frame {vcomps path} n (n\<lparr>dn_disk := d2\<rparr>)" "wf_disk d2"
    "\<exists>t. node_at d2 (comps rp) = Some (File [] t)" "comps rp = comps (dataDir n) @ vcomps path"
proof -
  show c: "comps rp = comps (dataDir n) @ vcomps path" using resolved_real [OF assms(2)] by metis
  have wf: "wf_disk (dn_disk n)" using assms(1) by (simp add: dn_inv_def)
  note o = open_create_Inr [OF MkdirAll_Inr(1) [OF wf assms(3)] assms(4)]
  then show "wf_disk d2" "\<exists>t. node_at d2 (comps rp) = Some (File [] t)" by simp_all
  show "frame {vcomps path} n (n\<lparr>dn_disk := d2\<rparr>)"
    using frame_only [OF frame_Mkdir [OF assms(1-3)], of d2 "vcomps path"] o c vcomps_clean by simp
qed

lemma replicate_effect:
  assumes "dn_inv n" "dn_inv src" "holds src (rf_SourceRemotePath args) = Some bs"
    and "CallRangeRead net (rf_SourceAddr args) = rpc_range src"
    and "rf_FileSize args = of_nat sz" "sz \<le> length bs" "length bs < 2 ^ 62"
    and "rf_TargetRemotePath args = target"
  shows "\<exists>r n'. ReplicateFile env now net args n = Some (r, n') \<and> dn_inv n' \<and>
    (r = Inr True \<longrightarrow> holds n' target = Some (take sz bs)) \<and>
    (\<forall>q. vcomps q \<noteq> vcomps target \<longrightarrow> holds n' q = holds n q) \<and>
    (Dial net (rf_SourceAddr args) = None \<and> env = calm \<and> writable calm now n target \<longrightarrow> r = Inr True)"
proof -
  have sz: "sz < 2 ^ 62" using assms(6,7) by simp
  have wf: "wf_disk (dn_disk n)" using assms(1) by (simp add: dn_inv_def)
  consider (dial) err where "Dial net (rf_SourceAddr args) = Some err"
    | (path) err where "Dial net (rf_SourceAddr args) = None" "resolvePath (dataDir n) target = Inl err"
    | (mkdir) rp err where "Dial net (rf_SourceAddr args) = None" "resolvePath (dataDir n) target = Inr rp"
        "MkdirAll env (FilepathDir rp) (dn_disk n) = Inl err"
    | (no_open) rp d1 err where "Dial net (rf_SourceAddr args) = None"
        "resolvePath (dataDir n) target = Inr rp"
        "MkdirAll env (FilepathDir rp) (dn_disk n) = Inr d1" "open_create env True now rp d1 = Inl err"
    | (pulling) rp d1 d2 where "Dial net (rf_SourceAddr args) = None"
        "resolvePath (dataDir n) target = Inr rp"
        "MkdirAll env (FilepathDir rp) (dn_disk n) = Inr d1" "open_create env True now rp d1 = Inr d2"
    by (cases "Dial net (rf_SourceAddr args)"; cases "resolvePath (dataDir n) target")
      (blast, metis sum.exhaust, blast, blast)
  then show ?thesis
  proof cases
    case dial
    with assms(1) show ?thesis by (auto simp: ReplicateFile_def)
  next
    case path
    with assms(1,8) writable_opens [OF _ wf, of calm now target] show ?thesis
      by (auto simp: ReplicateFile_def)
  next
    case mkdir
    with assms(1,8) writable_opens [OF _ wf, of calm now target] show ?thesis
      by (fastforce simp: ReplicateFile_def failed_def)
  next
    case no_open
    have fr: "frame {vcomps target} n (n\<lparr>dn_disk := d1\<rparr>)" by (rule frame_Mkdir [OF assms(1) no_open(2,3)])
    then have "dn_inv (n\<lparr>dn_disk := d1\<rparr>)" by (simp add: frame_def)
    moreover have "\<And>q. vcomps q \<noteq> vcomps target \<Longrightarrow> holds (n\<lparr>dn_disk := d1\<rparr>) q = holds n q"
      using frame_holds [OF assms(1) fr] by auto
    ultimately show ?thesis
      using no_open assms(8) writable_opens [OF _ wf, of calm now target]
      by (fastforce simp: ReplicateFile_def failed_def)
  next
    case pulling    note o = open_trunc_frame [OF assms(1) pulling(2-4)]
    from o(3) obtain t where t: "node_at d2 (comps rp) = Some (File (take 0 bs) t)" by auto
    from dn_reader.pull_copies [OF assms(2,3,5) sz assms(6) o(2) t, of env now]
    obtain e d3 where p: "pull env now (rpc_range src) args rp 0 d2 = Some (e, d3)"
      "wf_disk d3" "only (comps rp) d2 d3"
      "e = None \<Longrightarrow> \<exists>t'. node_at d3 (comps rp) = Some (File (take sz bs) t')"
      "fails env SWrite rp = None \<Longrightarrow> e = None" by auto
    have fr: "frame {vcomps target} n (n\<lparr>dn_disk := d3\<rparr>)"
      using frame_only [OF o(1), of d3 "vcomps target"] p(2,3) o(4) vcomps_clean by simp
    have "e = None \<Longrightarrow> holds (n\<lparr>dn_disk := d3\<rparr>) target = Some (take sz bs)"
      using p(4) fr pulling(2) o(4) by (auto simp: holds_stored frame_def stored_def)
    moreover have "\<And>q. vcomps q \<noteq> vcomps target \<Longrightarrow> holds (n\<lparr>dn_disk := d3\<rparr>) q = holds n q"
      using frame_holds [OF assms(1) fr] by auto
    moreover have "dn_inv (n\<lparr>dn_disk := d3\<rparr>)" using fr by (simp add: frame_def)
    ultimately show ?thesis
      using pulling p(1,5) assms(4,8)
      by (cases e; cases "fails env SSync rp") (auto simp: ReplicateFile_def calm_def)
  qed
qed

text \<open>
  C32 (replication). Copying a file whose source has at least the announced number of bytes always
  returns, and a reply of true means that the target now has exactly those bytes, however the
  target's system calls behave. When the source can be dialled, the target path can be opened and no
  system call fails, the reply is true. No other file of the target changes.
\<close>

theorem replicate_copies:
  assumes "dn_inv n" "dn_inv src" "holds src (rf_SourceRemotePath args) = Some bs"
    and "CallRangeRead net (rf_SourceAddr args) = rpc_range src"
    and "rf_FileSize args = of_nat sz" "sz \<le> length bs" "length bs < 2 ^ 62"
    and "rf_TargetRemotePath args = target"
  shows "\<exists>r n'. ReplicateFile env now net args n = Some (r, n') \<and> dn_inv n' \<and>
    (r = Inr True \<longrightarrow> holds n' target = Some (take sz bs)) \<and>
    (\<forall>q. vcomps q \<noteq> vcomps target \<longrightarrow> holds n' q = holds n q) \<and>
    (Dial net (rf_SourceAddr args) = None \<and> env = calm \<and> writable calm now n target \<longrightarrow> r = Inr True)"
  by (rule replicate_effect [OF assms])

text \<open>Two nodes: the source holds \<^verbatim>\<open>/data/F\<close> with three bytes.\<close>

definition demo_src :: data_node where
  "demo_src = snd (StoreData calm 5 \<lparr>sa_Path = ''/data/F'', sa_Content = [1, 2, 3]\<rparr> demo_dn)"

lemma demo_src_facts: "dn_inv demo_src" "holds demo_src ''/data/F'' = Some [1, 2, 3]"
proof -
  let ?a = "\<lparr>sa_Path = ''/data/F'', sa_Content = [1, 2, 3]\<rparr>"
  have f: "is_ok (resolvePath (dataDir demo_dn) (sa_Path ?a))" "vcomps (sa_Path ?a) \<noteq> []" by code_simp+
  obtain rp where rp: "resolvePath (dataDir demo_dn) (sa_Path ?a) = Inr rp"
    using f(1) by (auto simp: is_ok_iff)
  obtain r n where run: "StoreData calm 5 ?a demo_dn = (r, n)" by (cases "StoreData calm 5 ?a demo_dn")
  from StoreData_effect [OF demo_dn_inv rp refl f(2) run] run show "dn_inv demo_src"
    by (simp add: frame_def demo_src_def)
  show "holds demo_src ''/data/F'' = Some [1, 2, 3]" by code_simp
qed

definition demo_net :: net where
  "demo_net = \<lparr>Dial = (\<lambda>_. None), CallRangeRead = (\<lambda>_. rpc_range demo_src)\<rparr>"

definition copy_args :: "int64 \<Rightarrow> ReplicateFileArgs" where
  "copy_args sz = \<lparr>rf_SourceAddr = ''n1'', rf_SourceRemotePath = ''/data/F'',
     rf_TargetRemotePath = ''/data/F'', rf_FileSize = sz\<rparr>"

theorem replicate_copies_witness:
  "\<exists>n'. ReplicateFile calm 9 demo_net (copy_args 3) demo_dn = Some (Inr True, n') \<and>
     holds n' ''/data/F'' = Some [1, 2, 3]"
proof -
  have w: "writable calm 9 demo_dn ''/data/F''" by code_simp
  have "rf_FileSize (copy_args 3) = of_nat 3" "holds demo_src (rf_SourceRemotePath (copy_args 3)) = Some [1, 2, 3]"
    "CallRangeRead demo_net (rf_SourceAddr (copy_args 3)) = rpc_range demo_src"
    "rf_TargetRemotePath (copy_args 3) = ''/data/F''" "Dial demo_net (rf_SourceAddr (copy_args 3)) = None"
    by (simp_all add: copy_args_def demo_src_facts demo_net_def)
  with replicate_copies [OF demo_dn_inv demo_src_facts(1) this(2,3,1) _ _ this(4), of calm 9] w
  show ?thesis by auto
qed

lemma replicate_stuck:
  assumes "dn_inv n" "dn_inv src" "CallRangeRead net (rf_SourceAddr args) = rpc_range src"
    and "Dial net (rf_SourceAddr args) = None" "writable calm now n (rf_TargetRemotePath args)"
    and "holds src (rf_SourceRemotePath args) = Some bs \<or>
      bs = [] \<and> is_ok (resolvePath (dataDir src) (rf_SourceRemotePath args)) \<and>
      GetData calm (rf_SourceRemotePath args) src = Inl (''data not found: '' @ rf_SourceRemotePath args)"
    and "rf_FileSize args = of_nat sz" "length bs < sz" "sz < 2 ^ 62"
  shows "ReplicateFile calm now net args n = None"
proof -
  have sv: "serves (rpc_range src) (rf_SourceRemotePath args) bs"
    using assms(6) holds_serves [OF assms(2)] missing_serves [OF assms(2)] by auto
  have wf: "wf_disk (dn_disk n)" using assms(1) by (simp add: dn_inv_def)
  obtain rp d1 d2 where o: "resolvePath (dataDir n) (rf_TargetRemotePath args) = Inr rp"
    "MkdirAll calm (FilepathDir rp) (dn_disk n) = Inr d1" "open_create calm True now rp d1 = Inr d2"
    by (rule writable_opens [OF assms(5) wf])
  from open_trunc_frame(2,3) [OF assms(1) o] obtain t where
    "wf_disk d2" "node_at d2 (comps rp) = Some (File (take 0 bs) t)" by auto
  from pull_hangs [OF sv assms(7,9,8) _ this, of calm now]
  have "pull calm now (rpc_range src) args rp 0 d2 = None" by (simp add: calm_def)
  with assms(3,4) o show ?thesis by (simp add: ReplicateFile_def)
qed

text \<open>
  C33 (replication that never returns). When the source has fewer bytes than announced, or has lost
  the file, the copying loop makes no progress and never ends, on a network and disks that work
  perfectly: the call does not return.
\<close>

theorem replicate_hangs:
  assumes "dn_inv n" "dn_inv src" "CallRangeRead net (rf_SourceAddr args) = rpc_range src"
    and "Dial net (rf_SourceAddr args) = None" "writable calm now n (rf_TargetRemotePath args)"
    and "holds src (rf_SourceRemotePath args) = Some bs \<or>
      bs = [] \<and> is_ok (resolvePath (dataDir src) (rf_SourceRemotePath args)) \<and>
      GetData calm (rf_SourceRemotePath args) src = Inl (''data not found: '' @ rf_SourceRemotePath args)"
    and "rf_FileSize args = of_nat sz" "length bs < sz" "sz < 2 ^ 62"
  shows "ReplicateFile calm now net args n = None"
  by (rule replicate_stuck [OF assms])

theorem replicate_hangs_witness:
  "ReplicateFile calm 9 demo_net (copy_args 4) demo_dn = None"
proof -
  have "writable calm 9 demo_dn ''/data/F''" by code_simp
  then show ?thesis
    using replicate_hangs [OF demo_dn_inv demo_src_facts(1), of demo_net "copy_args 4" 9 "[1, 2, 3]" 4]
    by (simp add: copy_args_def demo_net_def demo_src_facts)
qed

end
