(* ===== verification/Gc_Cycle.thy ===== *)
theory Gc_Cycle
  imports Service_Laws Data_Service
begin

text \<open>
  The garbage collector (\<^verbatim>\<open>internal/metadata/gc.go\<close>): one cycle removes data nodes that
  stopped sending heartbeats, collects the identities of all files in the tree and deletes from every
  data node the files that carry none of them. The data nodes of the cluster are a map from
  addresses; dialling one may fail.
\<close>

definition gcInterval :: duration where
  "gcInterval = 5 * minute"

definition gcSafetyWindow :: duration where
  "gcSafetyWindow = 30 * second"

record 'n dn_rpc =
  rpc_dial :: "string \<Rightarrow> error option"
  rpc_list :: "'n \<Rightarrow> NodeFile list result"
  rpc_delete :: "string \<Rightarrow> 'n \<Rightarrow> bool result \<times> 'n"

subsection \<open>Data node health\<close>

definition dead_nodes :: "time \<Rightarrow> mds \<Rightarrow> string list" where
  "dead_nodes now s =
     map fst (filter (\<lambda>(addr, last). last < now - heartbeatTimeout s) (lastHeartbeat s))"

fun remove_nodes :: "'d codec \<Rightarrow> 'd raft_node \<Rightarrow> string list \<Rightarrow> mds \<Rightarrow> mds" where
  "remove_nodes codec raft [] s = s"
| "remove_nodes codec raft (addr # addrs) s =
     remove_nodes codec raft addrs
       (snd (submitCommand codec raft (zero_payload\<lparr>p_Op := OpRemoveDataNode, p_Addr := addr\<rparr>) s))"

definition checkDataNodeHealth :: "'d codec \<Rightarrow> 'd raft_node \<Rightarrow> time \<Rightarrow> mds \<Rightarrow> mds" where
  "checkDataNodeHealth codec raft now s = remove_nodes codec raft (dead_nodes now s) s"

subsection \<open>The identities in use\<close>

fun collectFileIDsRecursive :: "entry \<Rightarrow> string list" where
  "collectFileIDsRecursive (Entry a cs) =
     (if \<not> e_isDir a then (if e_fileID a \<noteq> [] then [e_fileID a] else [])
      else concat (map (\<lambda>kc. collectFileIDsRecursive (snd kc)) cs))"

definition collectValidFileIDs :: "mds \<Rightarrow> string list" where
  "collectValidFileIDs s = collectFileIDsRecursive (root s)"

subsection \<open>Orphans\<close>

fun delete_orphans ::
  "(string \<Rightarrow> 'n \<Rightarrow> bool result \<times> 'n) \<Rightarrow> string list \<Rightarrow> time \<Rightarrow> NodeFile list \<Rightarrow> 'n \<Rightarrow> 'n" where
  "delete_orphans del validFileIDs cutoff [] n = n"
| "delete_orphans del validFileIDs cutoff (nf # nfs) n =
     (let fileID = TrimPrefix (nf_Path nf) data_dir in
      if fileID \<noteq> [] \<and> fileID \<in> set validFileIDs then delete_orphans del validFileIDs cutoff nfs n
      else if nf_ModTime nf > cutoff then delete_orphans del validFileIDs cutoff nfs n
      else delete_orphans del validFileIDs cutoff nfs (snd (del (nf_Path nf) n)))"

definition garbageCollectNode ::
  "'n dn_rpc \<Rightarrow> string \<Rightarrow> string list \<Rightarrow> time \<Rightarrow> (string \<Rightarrow> 'n) \<Rightarrow> (string \<Rightarrow> 'n)" where
  "garbageCollectNode rpc addr validFileIDs gcStart nodes =
     (case rpc_dial rpc addr of Some _ \<Rightarrow> nodes
      | None \<Rightarrow>
        (case rpc_list rpc (nodes addr) of Inl _ \<Rightarrow> nodes
         | Inr nodeFiles \<Rightarrow>
             nodes(addr := delete_orphans (rpc_delete rpc) validFileIDs (gcStart - gcSafetyWindow)
                             nodeFiles (nodes addr))))"

definition runGC ::
  "'d codec \<Rightarrow> 'd raft_node \<Rightarrow> 'n dn_rpc \<Rightarrow> time \<Rightarrow> time \<Rightarrow> mds \<Rightarrow> (string \<Rightarrow> 'n) \<Rightarrow> mds \<times> (string \<Rightarrow> 'n)" where
  "runGC codec raft rpc gcStart now s nodes =
     (let s = checkDataNodeHealth codec raft now s;
          validFileIDs = collectValidFileIDs s
      in (s, foldl (\<lambda>nodes addr. garbageCollectNode rpc addr validFileIDs gcStart nodes)
               nodes (dataNodes s)))"

text \<open>The background loop runs a cycle at each tick on a leader only.\<close>

definition gc_tick ::
  "'d codec \<Rightarrow> 'd raft_node \<Rightarrow> 'n dn_rpc \<Rightarrow> time \<Rightarrow> time \<Rightarrow> mds \<Rightarrow> (string \<Rightarrow> 'n) \<Rightarrow> mds \<times> (string \<Rightarrow> 'n)" where
  "gc_tick codec raft rpc gcStart now s nodes =
     (if \<not> IsLeader raft then (s, nodes) else runGC codec raft rpc gcStart now s nodes)"

text \<open>
  The manual trigger replies before the cycle it starts has run; the second component says whether a
  cycle is started.
\<close>

definition TriggerGC :: "'d raft_node \<Rightarrow> bool result \<times> bool" where
  "TriggerGC raft =
     (case checkLeader raft of Some err \<Rightarrow> (Inl err, False) | None \<Rightarrow> (Inr True, True))"

subsection \<open>Collected identities\<close>

lemma collected_ids:
  "wf_entry t \<Longrightarrow> fid \<in> set (collectFileIDsRecursive t) \<longleftrightarrow>
    (\<exists>a \<in> set (entries t). \<not> e_isDir a \<and> e_fileID a = fid \<and> fid \<noteq> [])"
proof (induction t rule: collectFileIDsRecursive.induct)
  case (1 a cs)
  show ?case
  proof (cases "e_isDir a")
    case True
    with 1 show ?thesis by (auto 0 3)
  next
    case False
    with 1 have "cs = []" by simp
    with False show ?thesis by auto
  qed
qed

lemma valid_ids_ns:
  "mds_inv s \<Longrightarrow> fid \<in> set (collectValidFileIDs s) \<longleftrightarrow>
    (\<exists>q a. ns (root s) q = Some a \<and> \<not> e_isDir a \<and> e_fileID a = fid \<and> fid \<noteq> [])"
  using collected_ids [of "root s" fid] set_entries_ns [of "root s"]
  unfolding collectValidFileIDs_def mds_inv_def wf_root_def Bex_def by blast

subsection \<open>What the loop over a node's files keeps and removes\<close>

context blob_store
begin

lemma delete_orphans_inv:
  assumes "inv n" "\<And>nf. nf \<in> set nfs \<Longrightarrow> canonical (nf_Path nf)"
  shows "inv (delete_orphans delete ids cutoff nfs n)"
  using assms
proof (induction nfs arbitrary: n)
  case (Cons nf nfs)
  have "inv (snd (delete (nf_Path nf) n))"
    using delete_inv [OF Cons.prems(1), of "nf_Path nf"] Cons.prems(2) by (metis list.set_intros(1) prod.collapse)
  with Cons show ?case by (simp add: Let_def)
qed simp

text \<open>A path keeps its content when its identity is in use, or every listing of it is recent.\<close>

lemma delete_orphans_keeps:
  assumes "inv n" "\<And>nf. nf \<in> set nfs \<Longrightarrow> canonical (nf_Path nf)" "canonical p"
    and "TrimPrefix p data_dir \<noteq> [] \<and> TrimPrefix p data_dir \<in> set ids \<or>
      (\<forall>nf \<in> set nfs. nf_Path nf = p \<longrightarrow> nf_ModTime nf > cutoff)"
  shows "content (delete_orphans delete ids cutoff nfs n) p = content n p"
  using assms
proof (induction nfs arbitrary: n)
  case (Cons nf nfs)
  show ?case
  proof (cases "TrimPrefix (nf_Path nf) data_dir \<noteq> [] \<and> TrimPrefix (nf_Path nf) data_dir \<in> set ids \<or>
      nf_ModTime nf > cutoff")
    case True
    with Cons show ?thesis by (auto simp: Let_def)
  next
    case False
    with Cons.prems(4) have ne: "nf_Path nf \<noteq> p" by auto
    obtain r n' where del: "delete (nf_Path nf) n = (r, n')" by (cases "delete (nf_Path nf) n")
    have "inv n'" using delete_inv [OF Cons.prems(1) _ del] Cons.prems(2) by simp
    moreover have "content n' p = content n p"
      using delete_other [OF Cons.prems(1) _ Cons.prems(3) ne del] Cons.prems(2) by simp
    ultimately show ?thesis using Cons False del by (auto simp: Let_def)
  qed
qed simp

text \<open>An unused identity whose listings are all old goes, if its deletions succeed.\<close>

lemma delete_orphans_removes:
  assumes "inv n" "\<And>nf. nf \<in> set nfs \<Longrightarrow> canonical (nf_Path nf)" "canonical p"
    and "TrimPrefix p data_dir \<notin> set ids" "\<And>nf. nf \<in> set nfs \<Longrightarrow> nf_Path nf = p \<Longrightarrow> nf_ModTime nf \<le> cutoff"
    and "p \<in> nf_Path ` set nfs \<or> content n p = None"
    and del_ok: "\<And>n. inv n \<Longrightarrow> content n p \<noteq> None \<Longrightarrow> fst (delete p n) = Inr True"
  shows "content (delete_orphans delete ids cutoff nfs n) p = None"
  using assms(1,2,5,6)
proof (induction nfs arbitrary: n)
  case (Cons nf nfs)
  obtain r n' where del: "delete (nf_Path nf) n = (r, n')" by (cases "delete (nf_Path nf) n")
  have inv': "inv n'" using delete_inv [OF Cons.prems(1) _ del] Cons.prems(2) by simp
  show ?case
  proof (cases "nf_Path nf = p")
    case True
    have gone: "content n' p = None"
    proof (cases "content n p = None")
      case None: True
      with del True delete_done [OF Cons.prems(1), of p n'] delete_failed [OF Cons.prems(1), of p r n']
      show ?thesis by (cases "r = Inr True") auto
    next
      case False
      with del True del_ok [OF Cons.prems(1)] have "delete p n = (Inr True, n')" by simp
      then show ?thesis by (rule delete_done [OF Cons.prems(1)])
    qed
    with Cons.IH [OF inv'] Cons.prems have "content (delete_orphans delete ids cutoff nfs n') p = None"
      by simp
    moreover have "nf_ModTime nf \<le> cutoff" using Cons.prems(3) [of nf] True by simp
    then have "delete_orphans delete ids cutoff (nf # nfs) n = delete_orphans delete ids cutoff nfs n'"
      using True del assms(4) by (simp add: Let_def)
    ultimately show ?thesis by simp
  next
    case False
    have "content n' p = content n p"
      using delete_other [OF Cons.prems(1) _ assms(3) False del] Cons.prems(2) by simp
    with False Cons.IH [OF inv'] Cons.IH [OF Cons.prems(1)] Cons.prems del show ?thesis
      by (auto simp: Let_def)
  qed
qed simp

end

end
