(* ===== verification/Gc_Props.thy ===== *)
theory Gc_Props
  imports Gc_Cycle
begin

text \<open>
  The garbage collector on a cluster of data nodes: what a cycle never deletes, what it deletes, and
  the one way in which it loses live data.
\<close>

definition rpc_of :: "(string \<Rightarrow> error option) \<Rightarrow> os_env \<Rightarrow> data_node dn_rpc" where
  "rpc_of dial env = \<lparr>rpc_dial = dial, rpc_list = ListAllPaths env, rpc_delete = DeleteData env\<rparr>"

subsection \<open>One node, all nodes\<close>

definition gc_node :: "'n dn_rpc \<Rightarrow> string \<Rightarrow> string list \<Rightarrow> time \<Rightarrow> 'n \<Rightarrow> 'n" where
  "gc_node rpc addr ids gcStart n = garbageCollectNode rpc addr ids gcStart (\<lambda>_. n) addr"

lemma gc_apply: "garbageCollectNode rpc addr ids gcStart nodes b =
    (if b = addr then gc_node rpc addr ids gcStart (nodes addr) else nodes b)"
  by (simp add: garbageCollectNode_def gc_node_def split: option.split sum.split)

lemma gc_foldl:
  "distinct addrs \<Longrightarrow>
    foldl (\<lambda>nodes a. garbageCollectNode rpc a ids gcStart nodes) nodes addrs b =
      (if b \<in> set addrs then gc_node rpc b ids gcStart (nodes b) else nodes b)"
  by (induction addrs arbitrary: nodes) (auto simp: gc_apply)

lemma health_inv:
  assumes "commits codec raft others t" "mds_inv s"
  shows "mds_inv (remove_nodes codec raft addrs s)"
  using assms(2)
proof (induction addrs arbitrary: s)
  case (Cons a addrs)
  let ?p = "zero_payload\<lparr>p_Op := OpRemoveDataNode, p_Addr := a\<rparr>"
  have "mds_inv (snd (submitCommand codec raft ?p s))"
    using submit_inv [OF assms(1) _ Cons.prems, of ?p] by (metis prod.collapse)
  with Cons.IH show ?case by simp
qed simp

text \<open>After a cycle each registered node has been through \<^const>\<open>gc_node\<close> once.\<close>

lemma runGC_each:
  assumes "mds_inv s'" "runGC codec raft rpc gcStart now s nodes = (s', nodes')"
  shows "nodes' b = (if b \<in> set (dataNodes s')
    then gc_node rpc b (collectValidFileIDs s') gcStart (nodes b) else nodes b)"
proof -
  have "nodes' = foldl (\<lambda>nodes a. garbageCollectNode rpc a (collectValidFileIDs s') gcStart nodes)
      nodes (dataNodes s')"
    using assms(2) by (auto simp: runGC_def Let_def)
  moreover have "distinct (dataNodes s')" using assms(1) by (simp add: mds_inv_def nodes_ok_def)
  ultimately show ?thesis by (simp add: gc_foldl)
qed

lemma runGC_nodes:
  assumes "commits codec raft others t" "mds_inv s"
    and run: "runGC codec raft rpc gcStart now s nodes = (s', nodes')"
  shows "mds_inv s'"
    and "nodes' b = (if b \<in> set (dataNodes s')
       then gc_node rpc b (collectValidFileIDs s') gcStart (nodes b) else nodes b)"
proof -
  show inv: "mds_inv s'"
    using run health_inv [OF assms(1,2)] by (auto simp: runGC_def checkDataNodeHealth_def Let_def)
  show "nodes' b = (if b \<in> set (dataNodes s')
       then gc_node rpc b (collectValidFileIDs s') gcStart (nodes b) else nodes b)"
    by (rule runGC_each [OF inv run])
qed

lemma gc_node_keeps:
  assumes "svc_inv n" "canonical p"
    and "TrimPrefix p data_dir \<noteq> [] \<and> TrimPrefix p data_dir \<in> set ids \<or>
      (\<forall>fs nf. ListAllPaths env n = Inr fs \<and> nf \<in> set fs \<and> nf_Path nf = p \<longrightarrow>
         nf_ModTime nf > gcStart - gcSafetyWindow)"
  shows "holds (gc_node (rpc_of dial env) addr ids gcStart n) p = holds n p"
proof (cases "dial addr \<noteq> None \<or> \<not> is_ok (ListAllPaths env n)")
  case True
  then show ?thesis
    by (auto simp: gc_node_def garbageCollectNode_def rpc_of_def split: option.split sum.split)
next
  case False
  then obtain fs where fs: "ListAllPaths env n = Inr fs" by (auto simp: is_ok_iff)
  from dn_store.list_canonical [OF assms(1) fs]
    dn_store.delete_orphans_keeps [OF assms(1) _ assms(2), of fs ids "gcStart - gcSafetyWindow" env]
    assms(3) fs False
  show ?thesis by (auto simp: gc_node_def garbageCollectNode_def rpc_of_def)
qed

lemma data_path:
  assumes "clean_name fid"
  shows "canonical (data_dir @ fid)" "TrimPrefix (data_dir @ fid) data_dir = fid"
proof -
  have "clean_name ''data''"
    by (simp add: clean_name_def valid_name_def slash_def dot_def dotdot_def)
  with assms have ws: "\<forall>w \<in> set [''data'', fid]. clean_name w" by simp
  have "data_dir @ fid = abs_path [''data'', fid]"
    by (simp add: data_dir_def abs_path_def slash_def del: slash_lit)
  with vcomps_abs_path [OF ws] show "canonical (data_dir @ fid)" by (simp add: canonical_def)
  show "TrimPrefix (data_dir @ fid) data_dir = fid" by (simp add: TrimPrefix_def HasPrefix_def)
qed

subsection \<open>A cluster to try the collector on\<close>

lemma StoreData_dn_inv:
  assumes "dn_inv n" "is_ok (resolvePath (dataDir n) (sa_Path args))" "vcomps (sa_Path args) \<noteq> []"
  shows "dn_inv (snd (StoreData env now args n))"
proof -
  from assms(2) obtain rp where rp: "resolvePath (dataDir n) (sa_Path args) = Inr rp" by (auto simp: is_ok_iff)
  obtain r n' where run: "StoreData env now args n = (r, n')" by (cases "StoreData env now args n")
  from StoreData_effect [OF assms(1) rp refl assms(3) run] run show ?thesis by (simp add: frame_def)
qed

text \<open>
  Beside the file of \<^const>\<open>demo_server\<close> the node keeps an old orphan \<^verbatim>\<open>O\<close> and a
  recent one, \<^verbatim>\<open>R\<close>.
\<close>

definition gc_node_O :: data_node where
  "gc_node_O = snd (StoreData calm 5 \<lparr>sa_Path = ''/data/O'', sa_Content = [7]\<rparr> demo_src)"

definition gc_demo_node :: data_node where
  "gc_demo_node = snd (StoreData calm (90 * second) \<lparr>sa_Path = ''/data/R'', sa_Content = [8]\<rparr> gc_node_O)"

definition gc_demo :: "mds \<times> (string \<Rightarrow> data_node)" where
  "gc_demo = runGC direct_codec (solo_raft direct_codec 0) (rpc_of (\<lambda>_. None) calm)
     (100 * second) (100 * second) demo_server (\<lambda>_. gc_demo_node)"

lemma gc_demo_node_inv: "svc_inv gc_demo_node"
proof -
  have O: "is_ok (resolvePath (dataDir demo_src) ''/data/O'')" "vcomps ''/data/O'' \<noteq> []"
    "is_ok (resolvePath (dataDir gc_node_O) ''/data/R'')" "vcomps ''/data/R'' \<noteq> []"
    "\<not> is_file (node_at (dn_disk gc_demo_node) (comps (dataDir gc_demo_node)))" by code_simp+
  have "dn_inv gc_node_O" unfolding gc_node_O_def using O(1,2) demo_src_facts(1)
    by (intro StoreData_dn_inv) simp_all
  then have "dn_inv gc_demo_node" unfolding gc_demo_node_def using O(3,4)
    by (intro StoreData_dn_inv) simp_all
  with O(5) show ?thesis by (simp add: svc_inv_def)
qed

lemma gc_demo_run:
  "runGC direct_codec (solo_raft direct_codec 0) (rpc_of (\<lambda>_. None) calm)
     (100 * second) (100 * second) demo_server (\<lambda>_. gc_demo_node) = (fst gc_demo, snd gc_demo)"
  by (simp add: gc_demo_def)

lemma gc_demo_tree:
  "root (fst gc_demo) = root demo_server" "dataNodes (fst gc_demo) = [''n1'']"
  by code_simp+

lemma gc_demo_paths:
  "canonical ''/data/O''" "canonical ''/data/R''" "\<not> HasSuffix ''/data/O'' tmp_ext"
  by code_simp+

subsection \<open>What is kept\<close>

lemma gc_keeps_tree:
  assumes "mds_inv s'" "\<And>addr. svc_inv (nodes addr)"
    and "runGC codec raft (rpc_of dial env) gcStart now s nodes = (s', nodes')"
    and "ns (root s') q = Some a" "\<not> e_isDir a" "placed a" "clean_name (e_fileID a)"
    and "r \<in> set (e_replicas a)"
  shows "holds (nodes' (r_Addr r)) (r_RemotePath r) = holds (nodes (r_Addr r)) (r_RemotePath r)"
proof -
  have path: "r_RemotePath r = data_dir @ e_fileID a"
    using assms(5,6,8) by (simp add: placed_def placed_at_def)
  have "e_fileID a \<noteq> []" using assms(7) by (simp add: clean_name_def valid_name_def)
  moreover from this have "e_fileID a \<in> set (collectValidFileIDs s')"
    using valid_ids_ns [OF assms(1)] assms(4,5) by blast
  ultimately show ?thesis
    using gc_node_keeps [OF assms(2) data_path(1) [OF assms(7)]] data_path(2) [OF assms(7)]
    by (simp add: runGC_each [OF assms(1,3)] path)
qed

lemma gc_keeps:
  assumes "mds_inv s" "commits codec raft others t" "\<And>addr. svc_inv (nodes addr)"
    and "runGC codec raft (rpc_of dial env) gcStart now s nodes = (s', nodes')"
    and "ns (root s') q = Some a" "\<not> e_isDir a" "placed a" "clean_name (e_fileID a)"
    and "r \<in> set (e_replicas a)"
  shows "holds (nodes' (r_Addr r)) (r_RemotePath r) = holds (nodes (r_Addr r)) (r_RemotePath r)"
  by (rule gc_keeps_tree [OF runGC_nodes(1) [OF assms(2,1,4)] assms(3-9)])

text \<open>
  C18 (no live data is collected). Whatever the state of network and disks, a garbage collection
  cycle changes no replica of a file that is in the tree and whose replicas lie under its identity:
  each replica holds after the cycle what it held before.
\<close>

theorem gc_keeps_live_data:
  assumes "mds_inv s" "commits codec raft others t" "\<And>addr. svc_inv (nodes addr)"
    and "runGC codec raft (rpc_of dial env) gcStart now s nodes = (s', nodes')"
    and "ns (root s') q = Some a" "\<not> e_isDir a" "placed a" "clean_name (e_fileID a)"
    and "r \<in> set (e_replicas a)"
  shows "holds (nodes' (r_Addr r)) (r_RemotePath r) = holds (nodes (r_Addr r)) (r_RemotePath r)"
  by (rule gc_keeps [OF assms])

theorem gc_keeps_live_data_witness:
  "holds (snd gc_demo ''n1'') ''/data/F'' = Some [1, 2, 3]"
proof -
  obtain a where a: "ns (root demo_server) [''d'', ''f''] = Some a" "\<not> e_isDir a" "placed a"
    "clean_name (e_fileID a)" "rep ''n1'' ''F'' \<in> set (e_replicas a)"
  proof -
    have "case ns (root demo_server) [''d'', ''f''] of None \<Rightarrow> False | Some a \<Rightarrow> \<not> e_isDir a \<and>
      placed a \<and> clean_name (e_fileID a) \<and> rep ''n1'' ''F'' \<in> set (e_replicas a)" by code_simp
    then show thesis using that by (auto split: option.splits)
  qed
  have "holds gc_demo_node ''/data/F'' = Some [1, 2, 3]" by code_simp
  moreover have "r_Addr (rep ''n1'' ''F'') = ''n1''" "r_RemotePath (rep ''n1'' ''F'') = ''/data/F''"
    by code_simp+
  ultimately show ?thesis
    using gc_keeps_live_data [OF demo_server_inv solo_commits gc_demo_node_inv gc_demo_run _ a(2-5)]
      a(1) gc_demo_tree(1) by metis
qed

text \<open>
  C20 (grace period). A file on a data node that was written within thirty seconds before the cycle
  started survives it, referenced or not: the data of a file that is being created while the cycle
  runs is safe although its identity is not in the tree yet.
\<close>

theorem gc_spares_recent:
  assumes "mds_inv s" "commits codec raft others t" "svc_inv (nodes addr)" "canonical path"
    and "runGC codec raft (rpc_of dial env) gcStart now s nodes = (s', nodes')"
    and "\<And>fs nf. ListAllPaths env (nodes addr) = Inr fs \<Longrightarrow> nf \<in> set fs \<Longrightarrow> nf_Path nf = path \<Longrightarrow>
      nf_ModTime nf > gcStart - 30 * second"
  shows "holds (nodes' addr) path = holds (nodes addr) path"
  using gc_node_keeps [OF assms(3,4), of _ env gcStart dial] assms(6)
  by (auto simp: runGC_nodes(2) [OF assms(2,1,5)] gcSafetyWindow_def)

theorem gc_spares_recent_witness:
  "holds (snd gc_demo ''n1'') ''/data/R'' = Some [8]"
proof -
  have "case ListAllPaths calm gc_demo_node of Inl _ \<Rightarrow> False | Inr fs \<Rightarrow>
    (\<forall>nf \<in> set fs. nf_Path nf = ''/data/R'' \<longrightarrow> nf_ModTime nf > 100 * second - 30 * second)" by code_simp
  then have "holds (snd gc_demo ''n1'') ''/data/R'' = holds gc_demo_node ''/data/R''"
    by (intro gc_spares_recent [OF demo_server_inv solo_commits gc_demo_node_inv gc_demo_paths(2)
        gc_demo_run]) simp
  moreover have "holds gc_demo_node ''/data/R'' = Some [8]" by code_simp
  ultimately show ?thesis by simp
qed

subsection \<open>What is collected\<close>

lemma DeleteData_calm_done:
  assumes "dn_inv n" "holds n p \<noteq> None"
  shows "fst (DeleteData calm p n) = Inr True"
proof -
  have wf: "wf_disk (dn_disk n)" using assms(1) by (simp add: dn_inv_def)
  from assms obtain rp where rp: "resolvePath (dataDir n) p = Inr rp" and st: "stored n (vcomps p) \<noteq> None"
    by (auto simp: holds_stored is_ok_iff split: if_splits)
  have "comps rp = comps (dataDir n) @ vcomps p" using resolved_real [OF rp] by metis
  with st obtain bs t where "node_at (dn_disk n) (comps rp) = Some (File bs t)"
    by (auto simp: stored_def split: option.splits fnode.splits)
  then have "find_node (dn_disk n) rp = Inr (File bs t)" by (simp add: find_node_Inr [OF wf])
  with rp show ?thesis by (simp add: DeleteData_def with_path_def Remove_def calm_def)
qed

lemma listed_dir:
  assumes "svc_inv n" "ListAllPaths env n = Inr fs"
  shows "find_node (dn_disk n) (dataDir n) = Inr Dir"
proof -
  have "wf_disk (dn_disk n)" using assms(1) by (simp add: svc_inv_def dn_inv_def)
  with assms find_node_Inr [of "dn_disk n" "dataDir n"] show ?thesis
    by (auto simp: ListAllPaths_def svc_inv_def is_file_def failed_def
        split: option.splits sum.splits fnode.splits)
qed

lemma orphan_removed:
  assumes "mds_inv s" "commits codec raft others t" "svc_inv (nodes addr)"
    and "canonical path" "\<not> HasSuffix path tmp_ext"
    and "runGC codec raft (rpc_of dial calm) gcStart now s nodes = (s', nodes')"
    and "addr \<in> set (dataNodes s')" "dial addr = None" "ListAllPaths calm (nodes addr) = Inr fs"
    and "\<And>nf. nf \<in> set fs \<Longrightarrow> nf_Path nf = path \<Longrightarrow> nf_ModTime nf \<le> gcStart - 30 * second"
    and "\<And>q a. ns (root s') q = Some a \<Longrightarrow> \<not> e_isDir a \<Longrightarrow> e_fileID a \<noteq> TrimPrefix path data_dir"
  shows "holds (nodes' addr) path = None"
proof -
  note g = runGC_nodes [OF assms(2,1,6)]
  let ?n = "nodes addr"
  have inv: "dn_inv ?n" using assms(3) by (simp add: svc_inv_def)
  have unused: "TrimPrefix path data_dir \<notin> set (collectValidFileIDs s')"
    using assms(11) valid_ids_ns [OF g(1)] by metis
  have "path \<in> nf_Path ` set fs \<or> holds ?n path = None"
    using listed_iff [OF inv listed_dir [OF assms(3,9)] assms(9)] assms(4,5) inv
    by (auto simp: canonical_def holds_stored split: if_splits)
  from dn_store.delete_orphans_removes [OF assms(3) dn_store.list_canonical [OF assms(3,9)] assms(4)
      unused _ this, of "gcStart - gcSafetyWindow" calm]
  have "holds (delete_orphans (DeleteData calm) (collectValidFileIDs s') (gcStart - gcSafetyWindow) fs ?n)
      path = None"
    using assms(10) DeleteData_calm_done by (auto simp: gcSafetyWindow_def svc_inv_def)
  with assms(7-9) show ?thesis
    by (simp add: g(2) gc_node_def garbageCollectNode_def rpc_of_def)
qed

lemma tmp_not_listed:
  assumes "svc_inv n" "ListAllPaths env n = Inr fs" "nf \<in> set fs"
  shows "\<not> HasSuffix (nf_Path nf) tmp_ext"
  using assms(2,3) listed_dir [OF assms(1,2)]
  by (auto simp: ListAllPaths_def split: option.splits)

text \<open>
  C19 (orphans go, temporary files stay). On a node that can be reached and whose disk works, a cycle
  removes every file that carries the identity of no file in the tree, was last written thirty seconds
  or more before the cycle started, and does not end in \<^verbatim>\<open>.tmp\<close>. A file that ends in
  \<^verbatim>\<open>.tmp\<close> is not listed by its node, so no cycle removes it, however old it is and
  whatever is in the tree: what an interrupted write leaves is never collected.
\<close>

theorem gc_removes_orphans:
  assumes "mds_inv s" "commits codec raft others t" "svc_inv (nodes addr)" "canonical path"
    and "runGC codec raft (rpc_of dial calm) gcStart now s nodes = (s', nodes')"
    and "addr \<in> set (dataNodes s')" "dial addr = None" "ListAllPaths calm (nodes addr) = Inr fs"
    and "\<And>nf. nf \<in> set fs \<Longrightarrow> nf_Path nf = path \<Longrightarrow> nf_ModTime nf \<le> gcStart - 30 * second"
    and "\<And>q a. ns (root s') q = Some a \<Longrightarrow> \<not> e_isDir a \<Longrightarrow> e_fileID a \<noteq> TrimPrefix path data_dir"
  shows "holds (nodes' addr) path = (if HasSuffix path tmp_ext then holds (nodes addr) path else None)"
proof (cases "HasSuffix path tmp_ext")
  case True
  then have "nf_Path nf \<noteq> path" if "nf \<in> set fs" for nf
    using tmp_not_listed [OF assms(3,8) that] by auto
  then have "holds (gc_node (rpc_of dial calm) addr ids gcStart (nodes addr)) path = holds (nodes addr) path" for ids
    using assms(8) by (intro gc_node_keeps [OF assms(3,4)]) auto
  with True show ?thesis by (simp add: runGC_nodes(2) [OF assms(2,1,5)])
next
  case False
  from orphan_removed [OF assms(1-4) this assms(5-10)] False show ?thesis by simp
qed

theorem gc_removes_orphans_witness:
  "holds gc_demo_node ''/data/O'' = Some [7] \<and> holds (snd gc_demo ''n1'') ''/data/O'' = None"
proof -
  obtain fs where fs: "ListAllPaths calm gc_demo_node = Inr fs"
    "\<forall>nf \<in> set fs. nf_Path nf = ''/data/O'' \<longrightarrow> nf_ModTime nf \<le> 100 * second - 30 * second"
  proof -
    have "case ListAllPaths calm gc_demo_node of Inl _ \<Rightarrow> False | Inr fs \<Rightarrow>
      (\<forall>nf \<in> set fs. nf_Path nf = ''/data/O'' \<longrightarrow> nf_ModTime nf \<le> 100 * second - 30 * second)" by code_simp
    then show thesis using that by (auto split: sum.splits)
  qed
  have "''O'' \<notin> set (collectValidFileIDs demo_server)" by code_simp
  then have unused: "e_fileID a \<noteq> ''O''"
    if "ns (root demo_server) q = Some a" "\<not> e_isDir a" for q a
    using valid_ids_ns [OF demo_server_inv] that by blast
  have "holds gc_demo_node ''/data/O'' = Some [7]" "TrimPrefix ''/data/O'' data_dir = ''O''" by code_simp+
  then show ?thesis
    using gc_removes_orphans [OF demo_server_inv solo_commits gc_demo_node_inv gc_demo_paths(1)
      gc_demo_run, of "''n1''" fs] gc_demo_paths(3) fs unused by (simp add: gc_demo_tree)
qed

subsection \<open>Dead nodes\<close>

definition removal :: "string \<Rightarrow> commandPayload" where
  "removal addr = zero_payload\<lparr>p_Op := OpRemoveDataNode, p_Addr := addr\<rparr>"

lemma submit_removal:
  assumes "commits codec raft [] t" "carries codec (removal addr)"
  shows "snd (submitCommand codec raft (removal addr) s) =
    s\<lparr>dataNodes := remove1 addr (dataNodes s), lastHeartbeat := AList.delete addr (lastHeartbeat s)\<rparr>"
  using submit_carried [OF assms]
  by (simp add: removal_def zero_payload_def apply_payload_def applyRemoveDataNode_def op_names)

lemma remove_nodes_effect:
  assumes "commits codec raft [] t" "\<And>addr. carries codec (removal addr)" "distinct (dataNodes s)"
  shows "root (remove_nodes codec raft addrs s) = root s \<and>
    dataNodes (remove_nodes codec raft addrs s) = filter (\<lambda>a. a \<notin> set addrs) (dataNodes s) \<and>
    map_of (lastHeartbeat (remove_nodes codec raft addrs s)) =
      (\<lambda>a. if a \<in> set addrs then None else map_of (lastHeartbeat s) a)"
  using assms(3)
proof (induction addrs arbitrary: s)
  case (Cons addr addrs)
  define s1 where "s1 = s\<lparr>dataNodes := remove1 addr (dataNodes s),
    lastHeartbeat := AList.delete addr (lastHeartbeat s)\<rparr>"
  have step: "remove_nodes codec raft (addr # addrs) s = remove_nodes codec raft addrs s1"
    using submit_removal [OF assms(1,2), of addr s] by (simp add: removal_def s1_def)
  have s1: "root s1 = root s" "dataNodes s1 = remove1 addr (dataNodes s)"
    "map_of (lastHeartbeat s1) = (map_of (lastHeartbeat s))(addr := None)" by (simp_all add: s1_def)
  have "remove1 addr (dataNodes s) = filter (\<lambda>a. a \<noteq> addr) (dataNodes s)"
    using Cons.prems by (simp add: distinct_remove1_removeAll removeAll_filter_not_eq eq_commute)
  with Cons.IH [of s1] Cons.prems s1 show ?case
    unfolding step by (simp add: fun_eq_iff conj_commute)
qed simp

text \<open>
  C22 (node health). When removals commit, a health check takes out exactly the data nodes whose last
  heartbeat is older than the timeout: the others stay registered in their order with their heartbeat
  times, and the tree is not touched.
\<close>

theorem health_check:
  assumes "mds_inv s" "commits codec raft [] t" "\<And>addr. carries codec (removal addr)"
    and "s' = checkDataNodeHealth codec raft now s"
  shows "root s' = root s \<and>
    dataNodes s' = filter (\<lambda>a. \<forall>seen. map_of (lastHeartbeat s) a = Some seen \<longrightarrow>
      now - heartbeatTimeout s \<le> seen) (dataNodes s) \<and>
    (\<forall>a. map_of (lastHeartbeat s') a = (case map_of (lastHeartbeat s) a of None \<Rightarrow> None
       | Some seen \<Rightarrow> if seen < now - heartbeatTimeout s then None else Some seen))"
proof -
  have d: "distinct (dataNodes s)" and hb: "distinct (keys (lastHeartbeat s))"
    using assms(1) by (simp_all add: mds_inv_def nodes_ok_def)
  have dead: "a \<in> set (dead_nodes now s) \<longleftrightarrow>
      (\<exists>seen. map_of (lastHeartbeat s) a = Some seen \<and> seen < now - heartbeatTimeout s)" for a
    using map_of_Some_iff_set [OF hb] by (force simp: dead_nodes_def)
  note e = remove_nodes_effect [OF assms(2,3) d, of "dead_nodes now s",
      folded checkDataNodeHealth_def, folded assms(4)]
  note e = conjunct1 [OF e] conjunct1 [OF conjunct2 [OF e]] conjunct2 [OF conjunct2 [OF e]]
  have "dataNodes s' = filter (\<lambda>a. \<forall>seen. map_of (lastHeartbeat s) a = Some seen \<longrightarrow>
      now - heartbeatTimeout s \<le> seen) (dataNodes s)"
    unfolding e(2) by (rule filter_cong [OF refl]) (use dead in force)
  moreover have "map_of (lastHeartbeat s') a = (case map_of (lastHeartbeat s) a of None \<Rightarrow> None
       | Some seen \<Rightarrow> if seen < now - heartbeatTimeout s then None else Some seen)" for a
    unfolding e(3) dead by (cases "map_of (lastHeartbeat s) a") auto
  ultimately show ?thesis using e(1) by simp
qed

theorem health_check_witness:
  "dataNodes (checkDataNodeHealth direct_codec (solo_raft direct_codec 0) (11 * minute + 5)
     (snd (submitCommand direct_codec (solo_raft direct_codec (11 * minute))
       (zero_payload\<lparr>p_Op := OpHeartbeat, p_Addr := ''n1''\<rparr>) demo_server))) = [''n1'']"
  (is "dataNodes (checkDataNodeHealth _ _ ?now ?s) = _")
proof -
  have inv: "mds_inv ?s" using submit_inv [OF solo_commits _ demo_server_inv] by (metis prod.collapse)
  have "carries direct_codec (removal addr)" for addr by simp
  from health_check [OF inv solo_commits this refl, of 0 ?now]
  have d: "dataNodes (checkDataNodeHealth direct_codec (solo_raft direct_codec 0) ?now ?s) =
    filter (\<lambda>a. \<forall>seen. map_of (lastHeartbeat ?s) a = Some seen \<longrightarrow>
      ?now - heartbeatTimeout ?s \<le> seen) (dataNodes ?s)" by simp
  have "dataNodes ?s = [''n1'']" by code_simp
  moreover have "map_of (lastHeartbeat ?s) ''n1'' = Some (11 * minute)" by code_simp
  moreover have "heartbeatTimeout ?s = 10 * minute" by code_simp
  ultimately show ?thesis unfolding d by (simp add: minute_def second_def)
qed

end
