(* ===== verification/Identities.thy ===== *)
theory Identities
  imports Apply_Invariants
begin

text \<open>
  Which file lies at which path: the identities of the files of a namespace. Every command moves
  them, drops them, or adds the one it creates; two paths with one identity come about only when a
  creation brings an identity that is in use.
\<close>

definition identities :: "namespace \<Rightarrow> string list \<Rightarrow> string option" where
  "identities m q = (case m q of Some a \<Rightarrow> if e_isDir a then None else Some (e_fileID a) | None \<Rightarrow> None)"

definition distinct_ids :: "namespace \<Rightarrow> bool" where
  "distinct_ids m \<longleftrightarrow> (\<forall>q q' i. identities m q = Some i \<and> identities m q' = Some i \<longrightarrow> q = q')"

lemma identities_touched:
  "identities (m(q := touched now (m q))) = identities m"
  by (rule ext) (simp add: identities_def touched_def split: option.split)

lemma identities_mkdir:
  "spec_mkdir now q fid m = Some m' \<Longrightarrow> identities m' = identities m"
  by (rule ext)
    (auto simp: spec_mkdir_def identities_def touched_def new_dir_def is_dir_at_def is_file_at_def
      split: if_splits option.splits)

lemma identities_create:
  "spec_create now q p m = Some m' \<Longrightarrow>
    identities m' = (if m q = None then (identities m)(q \<mapsto> p_FileID p) else identities m)"
  by (rule ext)
    (auto simp: spec_create_def identities_def touched_def new_file_def is_dir_at_def is_file_at_def
      split: if_splits option.splits)

lemma identities_delete:
  "spec_delete now q m = Some m' \<Longrightarrow> identities m' = (\<lambda>r. if prefix q r then None else identities m r)"
  by (rule ext) (auto simp: spec_delete_def identities_def touched_def split: if_splits option.splits)

lemma identities_rename:
  "spec_rename now src dst m = Some m' \<Longrightarrow> identities m' =
    (\<lambda>r. if prefix dst r then identities m (src @ drop (length dst) r)
         else if prefix src r then None else identities m r)"
  by (rule ext) (auto simp: spec_rename_def spec_moved_def identities_def touched_def split: if_splits option.splits)

lemma identities_update:
  assumes "spec_update ok f q m = Some m'" "\<And>a. e_isDir (f a) = e_isDir a \<and> e_fileID (f a) = e_fileID a"
  shows "identities m' = identities m"
proof -
  obtain a where "m q = Some a" "m' = m(q \<mapsto> f a)"
    using assms(1) by (auto simp: spec_update_def split: option.splits if_splits)
  with assms(2) show ?thesis by (auto simp: identities_def)
qed

lemma distinct_ids_cong: "identities m' = identities m \<Longrightarrow> distinct_ids m' \<longleftrightarrow> distinct_ids m"
  by (simp add: distinct_ids_def)

lemma distinct_ids_rename:
  assumes "spec_rename now src dst m = Some m'" "distinct_ids m"
  shows "distinct_ids m'"
  unfolding distinct_ids_def
proof (intro allI impI, elim conjE)
  fix q q' i
  assume i: "identities m' q = Some i" "identities m' q' = Some i"
  note inj = assms(2) [unfolded distinct_ids_def, rule_format, OF conjI]
  have src: "prefix src (src @ drop (length dst) r)" for r by simp
  show "q = q'"
  proof (cases "prefix dst q"; cases "prefix dst q'")
    assume d: "prefix dst q" "prefix dst q'"
    with i have "src @ drop (length dst) q = src @ drop (length dst) q'"
      by (intro inj [of _ i]) (simp_all add: identities_rename [OF assms(1)])
    then have "drop (length dst) q = drop (length dst) q'" by simp
    with d show ?thesis by (metis prefix_drop_eq)
  next
    assume d: "prefix dst q" "\<not> prefix dst q'"
    with i have "src @ drop (length dst) q = q'" "\<not> prefix src q'"
      by (auto intro!: inj [of _ i] simp: identities_rename [OF assms(1)] split: if_splits)
    with src show ?thesis by blast
  next
    assume d: "\<not> prefix dst q" "prefix dst q'"
    with i have "src @ drop (length dst) q' = q" "\<not> prefix src q"
      by (auto intro!: inj [of _ i] simp: identities_rename [OF assms(1)] split: if_splits)
    with src show ?thesis by blast
  next
    assume "\<not> prefix dst q" "\<not> prefix dst q'"
    with i show ?thesis by (intro inj [of _ i]) (auto simp: identities_rename [OF assms(1)] split: if_splits)
  qed
qed

lemma spec_apply_identities:
  assumes "spec_apply now op p m = Some m'" "distinct_ids m"
    and "op = OpCreateFile \<Longrightarrow> \<forall>q. identities m q \<noteq> Some (p_FileID p)"
  shows "distinct_ids m'"
proof -
  let ?q = "splitPath (p_Path p)"
  have upd: "distinct_ids m'" if "spec_update ok f ?q m = Some m'"
    "\<And>a. e_isDir (f a) = e_isDir a \<and> e_fileID (f a) = e_fileID a" for ok f
    using distinct_ids_cong [OF identities_update [OF that]] assms(2) by simp
  have cases: "m' = m \<or> spec_mkdir now ?q (p_FileID p) m = Some m' \<or>
      op = OpCreateFile \<and> spec_create now ?q p m = Some m' \<or> spec_delete now ?q m = Some m' \<or>
      spec_rename now ?q (splitPath (p_DstPath p)) m = Some m' \<or>
      (\<exists>ok f. spec_update ok f ?q m = Some m' \<and> (\<forall>a. e_isDir (f a) = e_isDir a \<and> e_fileID (f a) = e_fileID a))"
    using assms(1) by (simp add: spec_apply_def Let_def split: if_splits) (fastforce | force)+
  consider "m' = m" | "spec_mkdir now ?q (p_FileID p) m = Some m'"
    | "op = OpCreateFile" "spec_create now ?q p m = Some m'" | "spec_delete now ?q m = Some m'"
    | "spec_rename now ?q (splitPath (p_DstPath p)) m = Some m'" | "distinct_ids m'"
    using cases upd by blast
  then show ?thesis
  proof cases
    case 2
    with assms(2) show ?thesis using distinct_ids_cong [OF identities_mkdir] by blast
  next
    case 3
    with assms(2,3) show ?thesis
      by (auto simp: distinct_ids_def identities_create split: if_splits)
  next
    case 4
    with assms(2) show ?thesis by (auto simp: distinct_ids_def identities_delete split: if_splits)
  next
    case 5
    then show ?thesis by (rule distinct_ids_rename [OF _ assms(2)])
  qed (use assms(2) in simp_all)
qed

end
