(* ===== verification/Redirect.thy ===== *)
theory Redirect
  imports Mds_Service Data_Node
begin

text \<open>
  Following the leader: a follower's refusal names the leader, and callers (the data node's heartbeat,
  every write of the client library) try there again, three times in all. The servers are an argument:
  which of them can be dialled, and the call, which takes the world to the world after it.
  \<^verbatim>\<open>strings.TrimSpace\<close> is modelled for the white space of ASCII; addresses are ASCII.
\<close>

definition is_space :: "char \<Rightarrow> bool" where
  "is_space c \<longleftrightarrow> c \<in> {CHR '' '', CHR 0x09, CHR 0x0A, CHR 0x0B, CHR 0x0C, CHR 0x0D}"

definition TrimSpace :: "string \<Rightarrow> string" where
  "TrimSpace s = rev (dropWhile is_space (rev (dropWhile is_space s)))"

definition redirect_prefix :: string where
  "redirect_prefix = ''not leader, redirect to ''"

definition extractLeaderAddr :: "error \<Rightarrow> string" where
  "extractLeaderAddr errMsg =
     (case Index errMsg redirect_prefix of
        Some idx \<Rightarrow> TrimSpace (drop (idx + length redirect_prefix) errMsg)
      | None \<Rightarrow> [])"

subsection \<open>Calls of the client\<close>

fun redirect_loop ::
  "nat \<Rightarrow> (string \<Rightarrow> error option) \<Rightarrow> (string \<Rightarrow> 'w \<Rightarrow> 'r result \<times> 'w) \<Rightarrow> string \<Rightarrow> string \<Rightarrow> 'w \<Rightarrow>
   'r result \<times> 'w" where
  "redirect_loop 0 dial call method addr w =
     (Inl (''redirect retries exhausted for method '' @ method), w)"
| "redirect_loop (Suc retries) dial call method addr w =
     (case dial addr of
        Some err \<Rightarrow> (Inl (''cannot connect to metadata server at '' @ addr @ '': '' @ err), w)
      | None \<Rightarrow>
         (case call addr w of
            (Inr reply, w) \<Rightarrow> (Inr reply, w)
          | (Inl err, w) \<Rightarrow>
             (let leader = extractLeaderAddr err in
              if leader \<noteq> [] \<and> leader \<noteq> addr then redirect_loop retries dial call method leader w
              else (Inl err, w))))"

definition callMDSWithRedirect ::
  "(string \<Rightarrow> error option) \<Rightarrow> (string \<Rightarrow> 'w \<Rightarrow> 'r result \<times> 'w) \<Rightarrow> string \<Rightarrow> string \<Rightarrow> 'w \<Rightarrow>
   'r result \<times> 'w" where
  "callMDSWithRedirect dial call method mds_addr w = redirect_loop 3 dial call method mds_addr w"

subsection \<open>Heartbeats of a data node\<close>

fun heartbeat_loop ::
  "nat \<Rightarrow> (string \<Rightarrow> error option) \<Rightarrow> (string \<Rightarrow> 'w \<Rightarrow> HeartbeatReply result \<times> 'w) \<Rightarrow> string \<Rightarrow> 'w \<Rightarrow> 'w" where
  "heartbeat_loop 0 dial call addr w = w"
| "heartbeat_loop (Suc retries) dial call addr w =
     (case dial addr of
        Some err \<Rightarrow> w
      | None \<Rightarrow>
         (case call addr w of
            (Inr reply, w) \<Rightarrow> w
          | (Inl err, w) \<Rightarrow>
             (let leader = extractLeaderAddr err in
              if leader \<noteq> [] \<and> leader \<noteq> addr then heartbeat_loop retries dial call leader w else w)))"

definition sendHeartbeat ::
  "(string \<Rightarrow> error option) \<Rightarrow> (string \<Rightarrow> string \<Rightarrow> 'w \<Rightarrow> HeartbeatReply result \<times> 'w) \<Rightarrow> data_node \<Rightarrow> 'w \<Rightarrow> 'w" where
  "sendHeartbeat dial call dn w = heartbeat_loop 3 dial (\<lambda>addr. call addr (dn_addr dn)) (mdsAddr dn) w"

text \<open>
  \<^verbatim>\<open>StartHeartbeat\<close>: one heartbeat at once, then one for each tick until the node is stopped.
  \<open>ticks\<close> is the number of ticks before the stop.
\<close>

fun heartbeats ::
  "nat \<Rightarrow> (string \<Rightarrow> error option) \<Rightarrow> (string \<Rightarrow> string \<Rightarrow> 'w \<Rightarrow> HeartbeatReply result \<times> 'w) \<Rightarrow> data_node \<Rightarrow> 'w \<Rightarrow> 'w" where
  "heartbeats 0 dial call dn w = w"
| "heartbeats (Suc ticks) dial call dn w = heartbeats ticks dial call dn (sendHeartbeat dial call dn w)"

definition StartHeartbeat ::
  "nat \<Rightarrow> (string \<Rightarrow> error option) \<Rightarrow> (string \<Rightarrow> string \<Rightarrow> 'w \<Rightarrow> HeartbeatReply result \<times> 'w) \<Rightarrow> data_node \<Rightarrow> 'w \<Rightarrow> 'w" where
  "StartHeartbeat ticks dial call dn w = heartbeats ticks dial call dn (sendHeartbeat dial call dn w)"

subsection \<open>Where a refusal leads\<close>

lemma TrimSpace_id: "s = [] \<or> \<not> is_space (hd s) \<and> \<not> is_space (last s) \<Longrightarrow> TrimSpace s = s"
proof (cases "s = []")
  case False
  assume "s = [] \<or> \<not> is_space (hd s) \<and> \<not> is_space (last s)"
  with False have "\<not> is_space (hd s)" "\<not> is_space (hd (rev s))" "rev s \<noteq> []" by (simp_all add: hd_rev)
  with False have "dropWhile is_space s = s" "dropWhile is_space (rev s) = rev s"
    by (metis dropWhile_eq_self_iff)+
  then show ?thesis by (simp add: TrimSpace_def)
qed (simp add: TrimSpace_def)

lemma Index_prefix: "Index (p @ s) p = Some 0"
proof (cases "p @ s")
  case (Cons c t)
  then have "HasPrefix (c # t) p" by (metis HasPrefix_def prefixI)
  with Cons show ?thesis by simp
qed simp

text \<open>The address a follower puts into its refusal is the address its caller finds there.\<close>

definition plain_addr :: "string \<Rightarrow> bool" where
  "plain_addr a \<longleftrightarrow> a \<noteq> [] \<and> \<not> is_space (hd a) \<and> \<not> is_space (last a)"

lemma extract_refusal: "plain_addr leader \<Longrightarrow> extractLeaderAddr (ErrNotLeader leader) = leader"
proof -
  assume "plain_addr leader"
  then have "TrimSpace leader = leader" by (simp add: plain_addr_def TrimSpace_id)
  moreover have "ErrNotLeader leader = redirect_prefix @ leader"
    by (simp add: ErrNotLeader_def redirect_prefix_def)
  ultimately show ?thesis by (simp add: extractLeaderAddr_def Index_prefix)
qed

lemma redirect_once:
  assumes "dial follower = None" "dial leader = None" "plain_addr leader" "leader \<noteq> follower"
    and "call follower w = (Inl (ErrNotLeader leader), w)" "call leader w = (r, w')"
    and "\<And>err. r = Inl err \<Longrightarrow> extractLeaderAddr err \<in> {[], leader}"
  shows "callMDSWithRedirect dial call method follower w = (r, w')"
  using assms extract_refusal [OF assms(3)]
  by (cases r) (auto simp: callMDSWithRedirect_def numeral_3_eq_3 Let_def plain_addr_def)

lemma heartbeat_redirected:
  assumes "dial (mdsAddr dn) = None" "dial leader = None" "plain_addr leader" "leader \<noteq> mdsAddr dn"
    and "call (mdsAddr dn) (dn_addr dn) w = (Inl (ErrNotLeader leader), w1)"
    and "call leader (dn_addr dn) w1 = (Inr reply, w')"
  shows "sendHeartbeat dial call dn w = w'"
  using assms extract_refusal [OF assms(3)]
  by (auto simp: sendHeartbeat_def numeral_3_eq_3 Let_def plain_addr_def)

end
