(* ===== verification/Service_Props.thy ===== *)
theory Service_Props
  imports Service_Laws Namespace_Props Redirect Data_Node_Props
begin

text \<open>What callers of the metadata service get: from a follower, from a leader and from the reads.\<close>

subsection \<open>Followers and leaders\<close>

text \<open>
  The servers of a cluster by address, and the call of a heartbeat. The called server's own state is
  what the handler leaves. Raft hands the log to every other server too, each at its own pace and
  clock: \<open>applied server x\<close> are the entries that \<open>x\<close> applies while \<open>server\<close> is being called.
\<close>

definition heartbeat_call ::
  "'d codec \<Rightarrow> (string \<Rightarrow> 'd raft_node) \<Rightarrow> (string \<Rightarrow> string \<Rightarrow> 'd log_entry list) \<Rightarrow> string \<Rightarrow> string \<Rightarrow>
   (string \<Rightarrow> mds) \<Rightarrow> HeartbeatReply result \<times> (string \<Rightarrow> mds)" where
  "heartbeat_call codec rafts applied server addr servers =
     (case Heartbeat codec (rafts server) addr \<lparr>hb_IsLeader = False, hb_Leader = []\<rparr> (servers server) of
        (r, s) \<Rightarrow> (r, \<lambda>x. if x = server then s else replay (log_step codec) (applied server x) (servers x)))"

lemma refusals:
  assumes "\<not> IsLeader raft"
  shows "Heartbeat codec raft addr hb s = (Inl (ErrNotLeader (GetLeader raft)), s)"
    "Mkdir codec raft rnd path s = (Inl (ErrNotLeader (GetLeader raft)), s)"
    "CreateFile codec raft rnd cf s = (Inl (ErrNotLeader (GetLeader raft)), s)"
    "CompleteFile codec raft path s = (Inl (ErrNotLeader (GetLeader raft)), s)"
    "Delete codec raft path s = (Inl (ErrNotLeader (GetLeader raft)), s)"
    "Mds_Service.Rename codec raft ra s = (Inl (ErrNotLeader (GetLeader raft)), s)"
    "UpdateSize codec raft us s = (Inl (ErrNotLeader (GetLeader raft)), s)"
  using assms
  by (simp_all add: checkLeader_def Heartbeat_def Mkdir_def CreateFile_def CompleteFile_def Delete_def
      Rename_def UpdateSize_def)

definition heartbeat_payload :: "string \<Rightarrow> commandPayload" where
  "heartbeat_payload addr = zero_payload\<lparr>p_Op := OpHeartbeat, p_Addr := addr\<rparr>"

lemma heartbeat_step:
  assumes "Unmarshal codec data = Inr (heartbeat_payload addr)"
    and "s' = replay (log_step codec) [(t, OpHeartbeat, data)] s"
  shows "addr \<in> set (dataNodes s')" "map_of (lastHeartbeat s') addr = Some t" "root s' = root s"
  using assms
  by (simp_all add: Apply_def heartbeat_payload_def zero_payload_def apply_payload_def applyHeartbeat_def op_names Let_def)

lemma heartbeat_applied:
  assumes "IsLeader raft" "commits codec raft others now"
    and "Marshal codec (heartbeat_payload addr) = Inr data" "Unmarshal codec data = Inr (heartbeat_payload addr)"
  shows "Heartbeat codec raft addr hb s =
    (Inr (hb\<lparr>hb_IsLeader := True\<rparr>), replay (log_step codec) (others @ [(now, OpHeartbeat, data)]) s)"
proof -
  have "carries codec (heartbeat_payload addr)" using assms(3,4) by (auto simp: carries_def)
  from submit_carried [OF assms(2) this, of s] assms(1,4) show ?thesis
    by (simp add: Heartbeat_def checkLeader_def Let_def heartbeat_payload_def [symmetric] replay_append Apply_def)
      (simp add: heartbeat_payload_def zero_payload_def apply_payload_def applyHeartbeat_def op_names Let_def)
qed

text \<open>
  C34 (registration). A data node that sends its heartbeat to a follower is registered at the leader:
  the follower refuses and names the leader, the data node follows, and the leader then lists the
  node with the time of the heartbeat, its tree being what the commands committed before left. The
  heartbeat is an entry of the log: a server that has applied it lists the node too, with its own
  clock reading, and agrees with the leader on everything but clock readings if it did before and
  has applied the same entries; a server that has applied nothing meanwhile is as it was.
\<close>

theorem heartbeat_registers:
  assumes "\<not> IsLeader (rafts (mdsAddr dn))" "GetLeader (rafts (mdsAddr dn)) = leader"
    and "IsLeader (rafts leader)" "plain_addr leader" "leader \<noteq> mdsAddr dn"
    and "dial (mdsAddr dn) = None" "dial leader = None"
    and "commits codec (rafts leader) others now"
    and "Marshal codec (heartbeat_payload (dn_addr dn)) = Inr data"
    and "Unmarshal codec data = Inr (heartbeat_payload (dn_addr dn))"
    and "sendHeartbeat dial (heartbeat_call codec rafts applied) dn servers = servers'"
    and "before = (\<lambda>x. if x = mdsAddr dn then servers x
      else replay (log_step codec) (applied (mdsAddr dn) x) (servers x))"
  shows "dn_addr dn \<in> set (dataNodes (servers' leader)) \<and>
    map_of (lastHeartbeat (servers' leader)) (dn_addr dn) = Some now \<and>
    root (servers' leader) = root (replay (log_step codec) others (before leader)) \<and>
    (\<forall>x es t. x \<noteq> leader \<and> applied leader x = es @ [(t, OpHeartbeat, data)] \<longrightarrow>
      dn_addr dn \<in> set (dataNodes (servers' x)) \<and>
      map_of (lastHeartbeat (servers' x)) (dn_addr dn) = Some t \<and>
      (same_state (before x) (before leader) \<and> same_log es others \<longrightarrow>
         same_state (servers' x) (servers' leader))) \<and>
    (\<forall>x. x \<noteq> leader \<and> applied leader x = [] \<longrightarrow> servers' x = before x)"
proof -
  let ?hb = "\<lparr>hb_IsLeader = False, hb_Leader = []\<rparr>" and ?call = "heartbeat_call codec rafts applied"
  have ref: "?call (mdsAddr dn) (dn_addr dn) servers = (Inl (ErrNotLeader leader), before)"
    using refusals(1) [OF assms(1), of codec] assms(2,12) by (auto simp: heartbeat_call_def)
  define log where "log = others @ [(now, OpHeartbeat, data)]"
  define after where "after = (\<lambda>x. replay (log_step codec) (if x = leader then log else applied leader x) (before x))"
  have "?call leader (dn_addr dn) before = (Inr \<lparr>hb_IsLeader = True, hb_Leader = []\<rparr>, after)"
    using heartbeat_applied [OF assms(3,8-10), of ?hb "before leader"]
    by (auto simp: heartbeat_call_def after_def log_def)
  from heartbeat_redirected [where call = ?call, OF assms(6,7,4,5) ref this] assms(11)
  have s': "servers' = after" by simp
  have reg: "dn_addr dn \<in> set (dataNodes (servers' x)) \<and> map_of (lastHeartbeat (servers' x)) (dn_addr dn) = Some t \<and>
      root (servers' x) = root (replay (log_step codec) es (before x))"
    if "(if x = leader then log else applied leader x) = es @ [(t, OpHeartbeat, data)]" for x es t
    using heartbeat_step [OF assms(10) refl, of t "replay (log_step codec) es (before x)"] that
    by (simp add: s' after_def replay_append)
  moreover have "same_state (servers' x) (servers' leader)"
    if "x \<noteq> leader" "applied leader x = es @ [(t, OpHeartbeat, data)]"
      "same_state (before x) (before leader)" "same_log es others" for x es t
  proof -
    have "same_log (applied leader x) log" using that(2,4) by (simp add: same_log_def log_def)
    then show ?thesis using mds_replica.replay_sim [of "applied leader x" log _ _ codec] that(1,3)
      by (simp add: s' after_def same_log_iff)
  qed
  ultimately show ?thesis using reg [of leader others now] by (auto simp: log_def) (simp add: s' after_def)
qed

definition two_rafts :: "string \<Rightarrow> commandPayload raft_node" where
  "two_rafts a = (if a = ''m1'' then (solo_raft direct_codec 7)\<lparr>IsLeader := False, GetLeader := ''m2''\<rparr>
     else solo_raft direct_codec 7)"

theorem heartbeat_registers_witness:
  "let data = heartbeat_payload ''n1'';
       servers' = sendHeartbeat (\<lambda>_. None)
         (heartbeat_call direct_codec two_rafts (\<lambda>s x. if s = ''m2'' \<and> x = ''m1'' then [(9, OpHeartbeat, data)] else []))
         (demo_dn\<lparr>mdsAddr := ''m1'', dn_addr := ''n1''\<rparr>) (\<lambda>_. NewMetadataServer 0 0)
   in ''n1'' \<in> set (dataNodes (servers' ''m2'')) \<and> map_of (lastHeartbeat (servers' ''m1'')) ''n1'' = Some 9 \<and>
      dataNodes (servers' ''m3'') = []"
proof -
  let ?dn = "demo_dn\<lparr>mdsAddr := ''m1'', dn_addr := ''n1''\<rparr>" and ?hb = "heartbeat_payload ''n1''"
  let ?applied = "\<lambda>s x. if s = ''m2'' \<and> x = ''m1'' then [(9, OpHeartbeat, ?hb)] else []"
  let ?after = "sendHeartbeat (\<lambda>_. None) (heartbeat_call direct_codec two_rafts ?applied) ?dn (\<lambda>_. NewMetadataServer 0 0)"
  have f: "\<not> IsLeader (two_rafts (mdsAddr ?dn))" "GetLeader (two_rafts (mdsAddr ?dn)) = ''m2''"
    "IsLeader (two_rafts ''m2'')" "plain_addr ''m2''" "''m2'' \<noteq> mdsAddr ?dn"
    by (simp_all add: two_rafts_def solo_raft_def plain_addr_def is_space_def)
  have c: "commits direct_codec (two_rafts ''m2'') [] 7" by (simp add: two_rafts_def solo_commits)
  have m: "Marshal direct_codec (heartbeat_payload (dn_addr ?dn)) = Inr ?hb"
    "Unmarshal direct_codec ?hb = Inr (heartbeat_payload (dn_addr ?dn))" by (simp_all add: direct_codec_def)
  note reg = heartbeat_registers [OF f, of "\<lambda>_. None", OF refl refl c m, of ?applied "\<lambda>_. NewMetadataServer 0 0", OF refl refl]
  have "map_of (lastHeartbeat (?after ''m1'')) ''n1'' = Some 9"
    using reg [THEN conjunct2, THEN conjunct2, THEN conjunct2, THEN conjunct1, rule_format, of "''m1''" "[]" 9]
    by simp
  moreover have "dataNodes (?after ''m3'') = []"
    using reg by (simp add: NewMetadataServer_def)
  ultimately show ?thesis using reg by (simp add: Let_def)
qed

subsection \<open>File identities\<close>

lemma hex_digit_name: "n < 16 \<Longrightarrow> hex_digit n \<noteq> slash \<and> hex_digit n \<noteq> CHR ''.''"
proof -
  have "\<forall>n < 16. hex_digit n \<noteq> slash \<and> hex_digit n \<noteq> CHR ''.''" by code_simp
  then show "n < 16 \<Longrightarrow> hex_digit n \<noteq> slash \<and> hex_digit n \<noteq> CHR ''.''" by blast
qed

lemma hex_digit_inj: "m < 16 \<Longrightarrow> n < 16 \<Longrightarrow> hex_digit m = hex_digit n \<Longrightarrow> m = n"
proof -
  have "\<forall>m < 16. \<forall>n < 16. hex_digit m = hex_digit n \<longrightarrow> m = n" by code_simp
  then show "m < 16 \<Longrightarrow> n < 16 \<Longrightarrow> hex_digit m = hex_digit n \<Longrightarrow> m = n" by blast
qed

lemma nibbles: "unat (b :: byte) div 16 < 16" "unat b mod 16 < 16"
  using unsigned_less [of b, where 'a = nat] by (auto simp: less_mult_imp_div_less)

lemma length_hex_encode: "length (hex_encode bs) = 2 * length bs"
  by (induction bs) simp_all

lemma hex_encode_inj: "hex_encode bs = hex_encode cs \<Longrightarrow> bs = cs"
proof (induction bs arbitrary: cs)
  case Nil
  then show ?case by (cases cs) auto
next
  case (Cons b bs)
  then obtain c cs' where cs: "cs = c # cs'" by (cases cs) auto
  with Cons.prems have "hex_digit (unat b div 16) = hex_digit (unat c div 16)"
    "hex_digit (unat b mod 16) = hex_digit (unat c mod 16)" "hex_encode bs = hex_encode cs'" by auto
  then have "unat b div 16 = unat c div 16" "unat b mod 16 = unat c mod 16" "bs = cs'"
    using Cons.IH by (auto intro: hex_digit_inj nibbles)
  then have "unat b = unat c" by (metis div_mult_mod_eq)
  with \<open>bs = cs'\<close> show ?case by (simp add: cs word_unat_eq_iff)
qed

lemma hex_encode_chars: "c \<in> set (hex_encode bs) \<Longrightarrow> c \<noteq> slash \<and> c \<noteq> CHR ''.''"
  by (induction bs) (auto simp: hex_digit_name nibbles)

text \<open>An identity is a plain file name, so \<^verbatim>\<open>/data/{FileID}\<close> is a path of its own.\<close>

lemma identity_clean: "bs \<noteq> [] \<Longrightarrow> clean_name (hex_encode bs)"
  using hex_encode_chars [of _ bs]
  by (cases bs) (fastforce simp: clean_name_def valid_name_def dot_def dotdot_def)+

subsection \<open>Creating a file\<close>

lemma replayed_inv: "mds_inv s \<Longrightarrow> mds_inv (replay (log_step codec) others s)"
  by (rule mds_log.replay_inv)

lemma spec_create_at: "spec_create now q p m = Some m' \<Longrightarrow>
    \<exists>a. m' q = Some a \<and> \<not> e_isDir a \<and> e_replicas a = p_Replicas p \<and> e_status a = StatusPending \<and>
      (m q = None \<longrightarrow> e_fileID a = p_FileID p)"
  by (auto simp: spec_create_def new_file_def split: if_splits option.splits)

lemma create_located:
  assumes "mds_inv s" "commits codec raft others now" "\<And>p. carries codec p" "length rnd = 16"
    and "CreateFile codec raft (Inr rnd) args s = (Inr reply, s')"
    and "fid = hex_encode rnd" "q = splitPath (cf_Path args)"
  shows "(\<exists>loc. GetFileLocation (cf_Path args) s' = Inr loc \<and> fl_Replicas loc = cfr_Replicas reply \<and>
      fl_Status loc = StatusPending \<and>
      (ns (root (replay (log_step codec) others s)) q = None \<longrightarrow> fl_FileID loc = fid)) \<and>
    (\<forall>r \<in> set (cfr_Replicas reply). r_Addr r \<in> set (dataNodes s) \<and> r_RemotePath r = ''/data/'' @ fid) \<and>
    distinct (map r_Addr (cfr_Replicas reply)) \<and>
    int (length (cfr_Replicas reply)) = max 1 (min (replicaCount s) (int (length (dataNodes s)))) \<and>
    length fid = 32 \<and> mds_inv s'"
proof -
  let ?s1 = "replay (log_step codec) others s"
  obtain replicas where nodes: "dataNodes s \<noteq> []" and q: "q \<noteq> []"
    and sel: "selectDataNodes s (cf_Path args) fid (replicaCount s) = Some replicas"
    and sub: "submitCommand codec raft (create_payload args fid replicas) s = (None, s')"
    and reply: "cfr_Replicas reply = replicas"
    using assms(5) unfolding assms(6,7)
    by (auto simp: CreateFile_def generateFileID_def Let_def split: option.splits sum.splits if_splits
        elim!: returning.elims)
  let ?p = "create_payload args fid replicas"
  have fields: "p_Op ?p = OpCreateFile" "p_Path ?p = cf_Path args" "p_Replicas ?p = replicas" "p_FileID ?p = fid"
    by (simp_all add: create_payload_def)
  have inv1: "mds_inv ?s1" using assms(1) by (rule replayed_inv)
  have app: "apply_payload now OpCreateFile ?p ?s1 = Inr s'"
    using submit_carried [OF assms(2,3), of ?p s] sub fields(1) by (simp add: Let_def split: sum.splits)
  have "spec_create now q ?p (ns (root ?s1)) = Some (ns (root s'))"
    using apply_payload_ns [OF inv_wf [OF inv1] app] fields assms(7)
    by (simp add: spec_apply_def op_names Let_def)
  from spec_create_at [OF this] fields obtain a where a: "ns (root s') q = Some a" "\<not> e_isDir a"
    "e_replicas a = replicas" "e_status a = StatusPending" "ns (root ?s1) q = None \<longrightarrow> e_fileID a = fid"
    by auto
  then obtain e where "lookup s' (cf_Path args) = Some e" "attr e = a"
    using assms(7) by (auto simp: ns_def lookup_def)
  with a have loc: "GetFileLocation (cf_Path args) s' =
      Inr \<lparr>fl_FileID = e_fileID a, fl_Replicas = replicas, fl_Status = StatusPending\<rparr>"
    by (simp add: GetFileLocation_def)
  have d: "distinct (dataNodes s)" using assms(1) by (simp add: mds_inv_def nodes_ok_def)
  obtain start k where k: "k = nat (max 1 (min (replicaCount s) (int (length (dataNodes s)))))"
    "k \<le> length (dataNodes s)" "start < length (dataNodes s)" "distinct (map r_Addr replicas)"
    "replicas = map (\<lambda>i. \<lparr>r_Addr = dataNodes s ! ((start + i) mod length (dataNodes s)),
      r_RemotePath = data_dir @ fid\<rparr>) [0..<k]"
    using placement [OF d nodes refl refl, where count = "replicaCount s" and path = "cf_Path args"
        and fileID = fid] sel by auto
  have "\<forall>r \<in> set replicas. r_Addr r \<in> set (dataNodes s) \<and> r_RemotePath r = data_dir @ fid"
    unfolding k(5) using nodes by (auto intro!: nth_mem)
  moreover have "int (length replicas) = max 1 (min (replicaCount s) (int (length (dataNodes s))))"
    unfolding k(5) using k(1) by simp
  ultimately show ?thesis
    using loc a(5) k(4) reply assms(4) apply_payload_inv [OF inv1 app]
    by (simp add: assms(6) length_hex_encode data_dir_def)
qed

text \<open>
  C35 (create, then locate). When a creation on a leader succeeds, whatever commands commit just
  before it: the replicas of the reply are at distinct registered nodes, as many as the replica count
  asks for and there are, all under the path of the new identity, 32 hexadecimal digits of the random
  bytes; and asking for the location of the path gives these replicas of a pending file. A file that
  was not there before carries the new identity.
\<close>

theorem create_then_locate:
  assumes "mds_inv s" "commits codec raft others now" "\<And>p. carries codec p" "length rnd = 16"
    and "CreateFile codec raft (Inr rnd) args s = (Inr reply, s')"
    and "fid = hex_encode rnd" "q = splitPath (cf_Path args)"
  shows "(\<exists>loc. GetFileLocation (cf_Path args) s' = Inr loc \<and> fl_Replicas loc = cfr_Replicas reply \<and>
      fl_Status loc = StatusPending \<and>
      (ns (root (replay (log_step codec) others s)) q = None \<longrightarrow> fl_FileID loc = fid)) \<and>
    (\<forall>r \<in> set (cfr_Replicas reply). r_Addr r \<in> set (dataNodes s) \<and> r_RemotePath r = ''/data/'' @ fid) \<and>
    distinct (map r_Addr (cfr_Replicas reply)) \<and>
    int (length (cfr_Replicas reply)) = max 1 (min (replicaCount s) (int (length (dataNodes s)))) \<and>
    length fid = 32 \<and> mds_inv s'"
  by (rule create_located [OF assms])

definition create_args :: CreateFileArgs where
  "create_args = \<lparr>cf_Path = ''/d/new'', cf_Size = 0, cf_CreateMode = CreateIfNotExist\<rparr>"

theorem create_then_locate_witness:
  "\<exists>s' loc. CreateFile direct_codec (solo_raft direct_codec 7) (Inr (replicate 16 255)) create_args demo_server =
      (Inr \<lparr>cfr_Replicas = fl_Replicas loc\<rparr>, s') \<and>
    GetFileLocation ''/d/new'' s' = Inr loc \<and> fl_FileID loc = hex_encode (replicate 16 255)"
proof -
  let ?run = "CreateFile direct_codec (solo_raft direct_codec 7) (Inr (replicate 16 255)) create_args demo_server"
  have "is_ok (fst ?run)" by code_simp
  then obtain reply s' where run: "?run = (Inr reply, s')" by (metis is_ok_iff prod.collapse)
  have new: "ns (root (replay (log_step direct_codec) [] demo_server)) (splitPath (cf_Path create_args)) = None"
    by code_simp
  have path: "cf_Path create_args = ''/d/new''" by (simp add: create_args_def)
  from create_then_locate [OF demo_server_inv solo_commits direct_carries _ run refl refl] new
  obtain loc where "GetFileLocation ''/d/new'' s' = Inr loc" "fl_Replicas loc = cfr_Replicas reply"
    "fl_FileID loc = hex_encode (replicate 16 255)" unfolding path by auto
  with run show ?thesis by (cases reply) auto
qed

subsection \<open>Listings\<close>

lemma children_ns:
  assumes "mds_inv s" "lookup s path = Some e"
  shows "distinct (keys (children e))"
    "(n, c) \<in> set (children e) \<Longrightarrow> ns (root s) (splitPath path @ [n]) = Some (attr c)"
    "ns (root s) (splitPath path @ [n]) = Some a \<Longrightarrow> \<exists>c. (n, c) \<in> set (children e) \<and> attr c = a"
proof -
  have "wf_entry (root s)" using assms(1) by (simp add: mds_inv_def wf_root_def)
  with assms(2) have wf: "wf_entry e" by (auto simp: lookup_def intro: wf_entry_lookup)
  then show d: "distinct (keys (children e))" by (cases e) simp
  have ns: "ns (root s) (splitPath path @ [n]) = map_option attr (map_of (children e) n)" for n
    using ns_append [of "root s" "splitPath path" e "[n]"] assms(2)
    by (cases "map_of (children e) n") (simp_all add: lookup_def ns_Cons)
  show "(n, c) \<in> set (children e) \<Longrightarrow> ns (root s) (splitPath path @ [n]) = Some (attr c)"
    using map_of_Some_iff_set [OF d, of n c] ns by simp
  show "ns (root s) (splitPath path @ [n]) = Some a \<Longrightarrow> \<exists>c. (n, c) \<in> set (children e) \<and> attr c = a"
    using map_of_Some_iff_set [OF d, of n] ns by auto
qed

text \<open>Lists sorted by keys that are distinct are determined by their elements.\<close>

lemma sorted_keys_unique:
  assumes "sorted (map f xs)" "sorted (map f ys)" "distinct (map f xs)" "distinct (map f ys)" "set xs = set ys"
    and "inj_on f (set xs)"
  shows "xs = ys"
proof (rule map_inj_on [where f = f])
  show "map f xs = map f ys" using assms(1-5) by (intro sorted_distinct_set_unique) auto
  show "inj_on f (set xs \<union> set ys)" using assms(5,6) by simp
qed

lemma listed_children:
  assumes "mds_inv s" "q = splitPath path" "is_dir_at (ns (root s)) q"
  shows "\<exists>infos. ListDir path s = Inr infos \<and>
    set infos = {file_info n (FilepathJoin path n) a | n a. ns (root s) (q @ [n]) = Some a} \<and>
    sorted_wrt (\<lambda>x y. if fi_IsDir x \<noteq> fi_IsDir y then fi_IsDir x else fi_Name x < fi_Name y) infos \<and>
    (\<forall>other. sorted (map listing_key other) \<and> distinct other \<and> set other = set infos \<longrightarrow> other = infos)"
proof -
  obtain e where e: "lookup s path = Some e" "isDir e"
    using assms(2,3) by (auto simp: is_dir_at_ns lookup_def)
  note ch = children_ns [OF assms(1) e(1), folded assms(2)]
  define infos where "infos = map (\<lambda>(n, c). file_info n (FilepathJoin path n) (attr c)) (children e)"
  have run: "ListDir path s = Inr (sort_key listing_key infos)"
    using e by (simp add: ListDir_def infos_def Let_def)
  have names: "map fi_Name infos = keys (children e)"
    by (simp add: infos_def keys_def file_info_def comp_def case_prod_beta)
  have inj: "inj_on listing_key (set infos)"
  proof (rule inj_onI)
    fix x y assume "x \<in> set infos" "y \<in> set infos" "listing_key x = listing_key y"
    moreover from this have "fi_Name x = fi_Name y" by (simp add: listing_key_def)
    moreover have "inj_on fi_Name (set infos)" using ch(1) names by (metis distinct_map)
    ultimately show "x = y" by (auto dest: inj_onD)
  qed
  have "distinct infos" using ch(1) names by (metis distinct_map)
  with inj have dk: "distinct (map listing_key infos)" by (simp add: distinct_map)
  let ?sorted = "sort_key listing_key infos"
  have sk: "sorted (map listing_key ?sorted)" "set ?sorted = set infos" "distinct (map listing_key ?sorted)"
    using dk by (simp_all add: distinct_map)
  have "sorted_wrt (<) (map listing_key ?sorted)" using sk(1,3) by (simp add: strict_sorted_iff)
  then have "sorted_wrt (\<lambda>x y. if fi_IsDir x \<noteq> fi_IsDir y then fi_IsDir x else fi_Name x < fi_Name y) ?sorted"
    unfolding sorted_wrt_map
    by (rule sorted_wrt_mono_rel [rotated]) (auto simp: less_listing_key_def listing_key_def split: if_splits)
  moreover have "set ?sorted = {file_info n (FilepathJoin path n) a | n a. ns (root s) (q @ [n]) = Some a}"
    unfolding sk(2) infos_def using ch(2,3) by force
  moreover have "other = ?sorted"
    if "sorted (map listing_key other)" "distinct other" "set other = set ?sorted" for other
    using sorted_keys_unique [OF that(1) sk(1) _ sk(3) that(3)] that inj sk(2) by (simp add: distinct_map)
  ultimately show ?thesis using run by blast
qed

text \<open>
  C36 (listing). Listing a directory gives one entry for each child, with the child's attributes, in
  the order of the source's comparison: directories first, then by name. That order is strict, so the
  listing does not depend on the order in which the map of children is visited, nor on the sorting
  algorithm: any listing with the same entries in this order is the same list.
\<close>

theorem list_dir:
  assumes "mds_inv s" "q = splitPath path" "is_dir_at (ns (root s)) q"
  shows "\<exists>infos. ListDir path s = Inr infos \<and>
    set infos = {file_info n (FilepathJoin path n) a | n a. ns (root s) (q @ [n]) = Some a} \<and>
    sorted_wrt (\<lambda>x y. if fi_IsDir x \<noteq> fi_IsDir y then fi_IsDir x else fi_Name x < fi_Name y) infos \<and>
    (\<forall>other. sorted (map listing_key other) \<and> distinct other \<and> set other = set infos \<longrightarrow> other = infos)"
  by (rule listed_children [OF assms])

theorem list_dir_witness:
  "\<exists>infos. ListDir ''/'' demo_server = Inr infos \<and> fi_Name ` set infos = {''d''}"
proof -
  have q: "[] = splitPath ''/''" and d: "is_dir_at (ns (root demo_server)) []" by code_simp+
  obtain infos where i: "ListDir ''/'' demo_server = Inr infos"
    "set infos = {file_info n (FilepathJoin ''/'' n) a | n a. ns (root demo_server) ([] @ [n]) = Some a}"
    using list_dir [OF demo_server_inv q d] by blast
  have c: "keys (children (root demo_server)) = [''d'']" by code_simp
  have "{n. \<exists>a. ns (root demo_server) ([] @ [n]) = Some a} = set (keys (children (root demo_server)))"
  proof (rule set_eqI)
    show "n \<in> {n. \<exists>a. ns (root demo_server) ([] @ [n]) = Some a} \<longleftrightarrow>
        n \<in> set (keys (children (root demo_server)))" for n
      using map_of_None_iff_keys [of "children (root demo_server)" n]
      by (cases "map_of (children (root demo_server)) n") (simp_all add: ns_Cons)
  qed
  moreover have "fi_Name ` set infos = {n. \<exists>a. ns (root demo_server) ([] @ [n]) = Some a}"
  proof -
    have "fi_Name ` {file_info n (FilepathJoin ''/'' n) a | n a. P n a} = {n. \<exists>a. P n a}" for P
      by (force simp: file_info_def image_def)
    then show ?thesis unfolding i(2) .
  qed
  ultimately have "fi_Name ` set infos = {''d''}" using c by simp
  with i(1) show ?thesis by blast
qed

end
