(* ===== verification/Overwrite_Loss.thy ===== *)
theory Overwrite_Loss
  imports Identities Gc_Props Service_Props
begin

text \<open>
  A creation over an existing file, the completion that follows it, and the next collection: the one
  way in which the collector loses data of a file that is in the tree.
\<close>

subsection \<open>The commands\<close>

lemma CreateFile_committed:
  assumes "mds_inv s" "commits codec raft [] t" "\<And>p. carries codec p"
    and "CreateFile codec raft (Inr rnd) args s = (Inr reply, s')"
  shows "spec_create t (splitPath (cf_Path args)) (create_payload args (hex_encode rnd) (cfr_Replicas reply))
      (ns (root s)) = Some (ns (root s'))"
    and "dataNodes s \<noteq> []"
    and "selectDataNodes s (cf_Path args) (hex_encode rnd) (replicaCount s) = Some (cfr_Replicas reply)"
proof -
  let ?p = "create_payload args (hex_encode rnd) (cfr_Replicas reply)"
  from assms(4) have sub: "submitCommand codec raft ?p s = (None, s')"
    and nodes: "dataNodes s \<noteq> []"
    and sel: "selectDataNodes s (cf_Path args) (hex_encode rnd) (replicaCount s) = Some (cfr_Replicas reply)"
    by (auto simp: CreateFile_def generateFileID_def Let_def split: option.splits sum.splits if_splits
        elim!: returning.elims)
  have op: "p_Op ?p = OpCreateFile" by (simp add: create_payload_def)
  have "apply_payload t OpCreateFile ?p s = Inr s'"
    using submit_carried [OF assms(2,3), of ?p s] sub op by (simp split: sum.splits)
  from apply_payload_ns [OF inv_wf [OF assms(1)] this]
  show "spec_create t (splitPath (cf_Path args)) ?p (ns (root s)) = Some (ns (root s'))"
    by (simp add: spec_apply_def op_names Let_def) (simp add: create_payload_def)
  show "dataNodes s \<noteq> []"
    "selectDataNodes s (cf_Path args) (hex_encode rnd) (replicaCount s) = Some (cfr_Replicas reply)"
    by (fact nodes, fact sel)
qed

lemma CompleteFile_committed:
  assumes "mds_inv s" "commits codec raft [] t" "\<And>p. carries codec p"
    and "CompleteFile codec raft path s = (Inr reply, s')"
  shows "mds_inv s'" "spec_update (\<lambda>_. True) (\<lambda>a. a\<lparr>e_status := StatusComplete, e_modTime := t\<rparr>)
      (splitPath path) (ns (root s)) = Some (ns (root s'))"
proof -
  let ?p = "zero_payload\<lparr>p_Op := OpCompleteFile, p_Path := path\<rparr>"
  from assms(4) have sub: "submitCommand codec raft ?p s = (None, s')"
    by (auto simp: CompleteFile_def split: option.splits elim!: returning.elims)
  have "apply_payload t OpCompleteFile ?p s = Inr s'"
    using submit_carried [OF assms(2,3), of ?p s] sub by (simp split: sum.splits)
  from apply_payload_ns [OF inv_wf [OF assms(1)] this]
  show "spec_update (\<lambda>_. True) (\<lambda>a. a\<lparr>e_status := StatusComplete, e_modTime := t\<rparr>)
      (splitPath path) (ns (root s)) = Some (ns (root s'))"
    by (simp add: spec_apply_def op_names Let_def)
  show "mds_inv s'" by (rule submit_inv [OF assms(2) sub assms(1)])
qed

text \<open>What overwriting a file leaves: its identity stays, its replicas are under the new one.\<close>

lemma overwritten_entry:
  assumes "spec_create t q p m = Some m1" "m q = Some a" "\<not> e_isDir a"
    and "spec_update ok (\<lambda>a. a\<lparr>e_status := StatusComplete, e_modTime := u\<rparr>) q m1 = Some m2"
  shows "identities m2 = identities m"
    and "\<exists>b. m2 q = Some b \<and> \<not> e_isDir b \<and> e_fileID b = e_fileID a \<and> e_replicas b = p_Replicas p \<and>
      e_status b = StatusComplete"
proof -
  have "identities m1 = identities m" using identities_create [OF assms(1)] assms(2) by simp
  moreover have "identities m2 = identities m1" by (rule identities_update [OF assms(4)]) simp
  ultimately show "identities m2 = identities m" by simp
  obtain b where "m1 q = Some b" "\<not> e_isDir b" "e_fileID b = e_fileID a" "e_replicas b = p_Replicas p"
    using assms(1-3) by (auto simp: spec_create_def new_file_def split: if_splits)
  with assms(4) show "\<exists>b. m2 q = Some b \<and> \<not> e_isDir b \<and> e_fileID b = e_fileID a \<and>
      e_replicas b = p_Replicas p \<and> e_status b = StatusComplete"
    by (auto simp: spec_update_def split: if_splits)
qed

text \<open>Nothing under a new identity ends like a temporary file.\<close>

lemma identity_no_tmp: "length bs = 16 \<Longrightarrow> \<not> HasSuffix (data_dir @ hex_encode bs) tmp_ext"
proof
  assume len: "length bs = 16" and "HasSuffix (data_dir @ hex_encode bs) tmp_ext"
  then have "suffix ''.tmp'' (data_dir @ hex_encode bs)" by (simp add: HasSuffix_def tmp_ext_def)
  moreover have "suffix (hex_encode bs) (data_dir @ hex_encode bs)" by (simp add: suffix_def)
  ultimately have "suffix ''.tmp'' (hex_encode bs)"
    by (rule suffix_length_suffix) (simp add: length_hex_encode len)
  then have "CHR ''.'' \<in> set (hex_encode bs)" by (auto simp: suffix_def)
  with hex_encode_chars show False by blast
qed

subsection \<open>The loss\<close>

text \<open>
  C21 (overwriting loses data). A file of the tree is created again, which is granted only with
  \<^verbatim>\<open>OverwriteIfExists\<close>, and completed, with nothing else in flight; the identity drawn for
  the command is not in use. The tree keeps the identity of the first file, while the replicas of the
  reply, at least one, lie under the new identity. Whatever was stored there, and whatever the nodes
  hold, the next collection takes it for orphans: at each replica whose node is still registered, can
  be reached and works, and whose data is older than the safety window, nothing is left. The tree
  still says that the file is complete and has these replicas.
\<close>

theorem overwritten_file_lost:
  assumes "mds_inv s" "\<And>p. carries codec p" "q = splitPath (cf_Path args)"
    and "ns (root s) q = Some a" "\<not> e_isDir a"
    and "length rnd = 16" "\<forall>q' b. ns (root s) q' = Some b \<and> \<not> e_isDir b \<longrightarrow> e_fileID b \<noteq> hex_encode rnd"
    and "commits codec raft1 [] t1" "CreateFile codec raft1 (Inr rnd) args s = (Inr reply, s1)"
    and "commits codec raft2 [] t2" "CompleteFile codec raft2 (cf_Path args) s1 = (Inr ok, s2)"
    and "commits codec raft3 [] t3" "runGC codec raft3 (rpc_of dial calm) gcStart now s2 nodes = (s3, nodes3)"
  shows "GetFileLocation (cf_Path args) s3 = Inr \<lparr>fl_FileID = e_fileID a, fl_Replicas = cfr_Replicas reply,
      fl_Status = StatusComplete\<rparr> \<and>
    cfr_Replicas reply \<noteq> [] \<and>
    (\<forall>r \<in> set (cfr_Replicas reply). r_RemotePath r = ''/data/'' @ hex_encode rnd \<and>
      (\<forall>fs. r_Addr r \<in> set (dataNodes s3) \<and> dial (r_Addr r) = None \<and> svc_inv (nodes (r_Addr r)) \<and>
         ListAllPaths calm (nodes (r_Addr r)) = Inr fs \<and>
         (\<forall>nf \<in> set fs. nf_Path nf = r_RemotePath r \<longrightarrow> nf_ModTime nf \<le> gcStart - 30 * second) \<longrightarrow>
         holds (nodes3 (r_Addr r)) (r_RemotePath r) = None))"
proof -
  let ?fid = "hex_encode rnd"
  note c = create_located [OF assms(1,8,2,6,9) refl refl]
  note f = CreateFile_committed [OF assms(1,8,2,9)]
  have inv1: "mds_inv s1" using c by simp
  note d = CompleteFile_committed [OF inv1 assms(10,2,11)]
  note e = overwritten_entry [OF f(1) [folded assms(3)] assms(4,5) d(2) [folded assms(3)]]
  have "distinct (dataNodes s2)" using d(1) by (simp add: mds_inv_def nodes_ok_def)
  with remove_nodes_effect [OF assms(12,2), of s2] assms(13) have root: "root s3 = root s2"
    by (auto simp: runGC_def checkDataNodeHealth_def Let_def)
  obtain b where b: "ns (root s3) q = Some b" "\<not> e_isDir b" "e_fileID b = e_fileID a"
    "e_replicas b = cfr_Replicas reply" "e_status b = StatusComplete"
    using e(2) unfolding root by (auto simp: create_payload_def)
  then obtain x where "lookup s3 (cf_Path args) = Some x" "attr x = b"
    using assms(3) by (auto simp: ns_def lookup_def)
  with b have loc: "GetFileLocation (cf_Path args) s3 = Inr \<lparr>fl_FileID = e_fileID a,
      fl_Replicas = cfr_Replicas reply, fl_Status = StatusComplete\<rparr>" by (simp add: GetFileLocation_def)
  have ne: "rnd \<noteq> []" using assms(6) by auto
  note path = data_path [OF identity_clean [OF ne]]
  have nid: "identities (ns (root s3)) q' \<noteq> Some ?fid" for q'
    unfolding root e(1) using assms(7) by (auto simp: identities_def split: option.splits)
  then have unused: "e_fileID a' \<noteq> TrimPrefix (data_dir @ ?fid) data_dir"
    if "ns (root s3) q' = Some a'" "\<not> e_isDir a'" for q' a'
    using that path(2) nid [of q'] by (simp add: identities_def)
  have gone: "holds (nodes3 (r_Addr r)) (data_dir @ ?fid) = None"
    if "r_Addr r \<in> set (dataNodes s3)" "dial (r_Addr r) = None" "svc_inv (nodes (r_Addr r))"
      "ListAllPaths calm (nodes (r_Addr r)) = Inr fs"
      "\<And>nf. nf \<in> set fs \<Longrightarrow> nf_Path nf = data_dir @ ?fid \<Longrightarrow> nf_ModTime nf \<le> gcStart - 30 * second" for r fs
    by (rule orphan_removed [OF d(1) assms(12) that(3) path(1) identity_no_tmp [OF assms(6)] assms(13)
      that(1,2,4) that(5) unused])
  have "cfr_Replicas reply \<noteq> []" using c by auto
  with loc c gone show ?thesis by (auto simp: data_dir_def)
qed

text \<open>The file of \<^const>\<open>demo_server\<close> is overwritten, its new content stored, and lost.\<close>

definition overwrite_args :: CreateFileArgs where
  "overwrite_args = \<lparr>cf_Path = ''/d/f'', cf_Size = 1, cf_CreateMode = OverwriteIfExists\<rparr>"

definition overwritten_node :: data_node where
  "overwritten_node = snd (StoreData calm 10
     \<lparr>sa_Path = ''/data/00000000000000000000000000000000'', sa_Content = [9]\<rparr> demo_src)"

lemma overwritten_node_inv: "svc_inv overwritten_node"
proof -
  have "dn_inv overwritten_node"
    unfolding overwritten_node_def by (rule StoreData_dn_inv [OF demo_src_facts(1)]; code_simp)
  moreover have "node_at (dn_disk overwritten_node) (comps (dataDir overwritten_node)) = Some Dir" by code_simp
  ultimately show ?thesis by (simp add: svc_inv_def is_file_def)
qed

theorem overwritten_file_lost_witness:
  "\<exists>reply s1 s2 r. CreateFile direct_codec (solo_raft direct_codec 10) (Inr (replicate 16 0)) overwrite_args demo_server =
      (Inr reply, s1) \<and>
    CompleteFile direct_codec (solo_raft direct_codec 11) ''/d/f'' s1 = (Inr True, s2) \<and>
    r \<in> set (cfr_Replicas reply) \<and> holds overwritten_node (r_RemotePath r) = Some [9] \<and>
    (\<forall>s3 nodes3. runGC direct_codec (solo_raft direct_codec 0) (rpc_of (\<lambda>_. None) calm)
       (100 * second) (100 * second) s2 (\<lambda>_. overwritten_node) = (s3, nodes3) \<longrightarrow>
       holds (nodes3 (r_Addr r)) (r_RemotePath r) = None)"
proof -
  let ?create = "CreateFile direct_codec (solo_raft direct_codec 10) (Inr (replicate 16 0)) overwrite_args demo_server"
  have "is_ok (fst ?create)" by code_simp
  then obtain reply s1 where c: "?create = (Inr reply, s1)" by (metis is_ok_iff prod.collapse)
  let ?complete = "CompleteFile direct_codec (solo_raft direct_codec 11) ''/d/f'' (snd ?create)"
  have "fst ?complete = Inr True" by code_simp
  then obtain s2 where d: "CompleteFile direct_codec (solo_raft direct_codec 11) ''/d/f'' s1 = (Inr True, s2)"
    using c by (metis prod.collapse snd_conv)
  have args: "cf_Path overwrite_args = ''/d/f''" "[''d'', ''f''] = splitPath (cf_Path overwrite_args)"
    by code_simp+
  obtain a where a: "ns (root demo_server) [''d'', ''f''] = Some a" "\<not> e_isDir a"
  proof -
    have "case ns (root demo_server) [''d'', ''f''] of None \<Rightarrow> False | Some a \<Rightarrow> \<not> e_isDir a" by code_simp
    then show thesis using that by (auto split: option.splits)
  qed
  have "hex_encode (replicate 16 0) \<notin> set (collectValidFileIDs demo_server)"
    "hex_encode (replicate 16 0) \<noteq> []" by code_simp+
  then have new: "\<forall>q b. ns (root demo_server) q = Some b \<and> \<not> e_isDir b \<longrightarrow> e_fileID b \<noteq> hex_encode (replicate 16 0)"
    using valid_ids_ns [OF demo_server_inv] by blast
  have old: "case ListAllPaths calm overwritten_node of Inl _ \<Rightarrow> False
    | Inr fs \<Rightarrow> \<forall>nf \<in> set fs. nf_ModTime nf \<le> 100 * second - 30 * second" by code_simp
  then obtain fs where fs: "ListAllPaths calm overwritten_node = Inr fs"
    "\<forall>nf \<in> set fs. nf_ModTime nf \<le> 100 * second - 30 * second" by (auto split: sum.splits)
  obtain s3 nodes3 where g: "runGC direct_codec (solo_raft direct_codec 0) (rpc_of (\<lambda>_. None) calm)
       (100 * second) (100 * second) s2 (\<lambda>_. overwritten_node) = (s3, nodes3)" (is "?gc = _") by (cases ?gc)
  note lost = overwritten_file_lost [OF demo_server_inv direct_carries args(2) a _ new solo_commits c solo_commits
      d [folded args(1)] solo_commits g]
  have reg: "map r_Addr (cfr_Replicas reply) = [''n1''] \<and> map r_RemotePath (cfr_Replicas reply) =
      [''/data/00000000000000000000000000000000''] \<and> dataNodes s3 = [''n1'']"
  proof -
    have "case fst ?create of Inl _ \<Rightarrow> False | Inr reply \<Rightarrow> map r_Addr (cfr_Replicas reply) = [''n1''] \<and>
      map r_RemotePath (cfr_Replicas reply) = [''/data/00000000000000000000000000000000'']" by code_simp
    moreover have "dataNodes (fst (runGC direct_codec (solo_raft direct_codec 0) (rpc_of (\<lambda>_. None) calm)
       (100 * second) (100 * second) (snd ?complete) (\<lambda>_. overwritten_node))) = [''n1'']" by code_simp
    ultimately show ?thesis using c d g by simp
  qed
  then obtain r where r: "cfr_Replicas reply = [r]" "r_Addr r = ''n1''"
    "r_RemotePath r = ''/data/00000000000000000000000000000000''" by (auto simp: Cons_eq_map_conv)
  have "holds overwritten_node ''/data/00000000000000000000000000000000'' = Some [9]" by code_simp
  moreover have "holds (nodes3 (r_Addr r)) (r_RemotePath r) = None"
    by (rule lost [THEN conjunct2, THEN conjunct2, THEN bspec, THEN conjunct2, rule_format, of r fs])
      (use r(1,2) reg fs overwritten_node_inv in auto)
  ultimately show ?thesis using c d g r by (intro exI [of _ reply] exI [of _ s1] exI [of _ s2] exI [of _ r]) auto
qed

end
