(* ===== verification/Replicator.thy ===== *)
theory Replicator
  imports Service_Laws Data_Service
begin

text \<open>
  The repair of under-replicated files (\<^verbatim>\<open>internal/metadata/replicator.go\<close>): a leader
  scans the tree breadth first for complete files with too few live replicas, and for each of them
  marks the file as recovering, has other data nodes copy it, records the new replicas and marks it
  complete again. The set of live nodes is a Go map: it is a list here, in the order in which one
  iteration happens to visit it. Copies to several targets run in parallel in the source; they touch
  disjoint nodes and are made one after the other here.
\<close>

definition replicateScanTimeout :: duration where
  "replicateScanTimeout = 5 * minute"

definition replicateBatchSize :: nat where
  "replicateBatchSize = 16"

record repairTask =
  rt_path :: string
  rt_fileID :: string
  rt_size :: int64
  rt_replicas :: "Replica list"

subsection \<open>Finding the files\<close>

definition live_replicas :: "string list \<Rightarrow> Replica list \<Rightarrow> Replica list" where
  "live_replicas aliveNodes rs = filter (\<lambda>r. r_Addr r \<in> set aliveNodes) rs"

text \<open>
  The loop over the queue. A directory's children go to its end; a file that is pending, recovering
  or being repaired is passed over; the loop breaks when the batch is full.
\<close>

definition queued :: "entry \<times> string \<Rightarrow> (entry \<times> string) list" where
  "queued item = map (\<lambda>(_, child). (child, joinPath (snd item) (e_name (attr child)))) (children (fst item))"

lemma length_entries_children: "length (entries e) = Suc (\<Sum>kc\<leftarrow>children e. length (entries (snd kc)))"
  by (cases e) (simp add: length_concat comp_def)

lemma entries_pos: "0 < length (entries e)" "entries e \<noteq> []"
  by (cases e; simp)+

function scan_queue ::
  "nat \<Rightarrow> string list \<Rightarrow> (string \<Rightarrow> bool) \<Rightarrow> int \<Rightarrow> (entry \<times> string) list \<Rightarrow> repairTask list \<Rightarrow> repairTask list" where
  "scan_queue k aliveNodes busy rc [] tasks = tasks"
| "scan_queue k aliveNodes busy rc (item # queue) tasks =
     (let e = fst item; a = attr e in
      if e_isDir a then scan_queue k aliveNodes busy rc (queue @ queued item) tasks
      else if e_status a = StatusPending then scan_queue k aliveNodes busy rc queue tasks
      else if e_status a = StatusRecovering then scan_queue k aliveNodes busy rc queue tasks
      else if busy (e_fileID a) then scan_queue k aliveNodes busy rc queue tasks
      else
       (let aliveReplicaList = live_replicas aliveNodes (e_replicas a) in
        if int (length aliveReplicaList) < rc then
         (let tasks = tasks @ [\<lparr>rt_path = snd item, rt_fileID = e_fileID a, rt_size = e_size a,
                                rt_replicas = aliveReplicaList\<rparr>]
          in if length tasks \<ge> k then tasks
             else scan_queue k aliveNodes busy rc queue tasks)
        else scan_queue k aliveNodes busy rc queue tasks))"
  by pat_completeness auto
termination
proof (relation "measure (\<lambda>(_, _, _, _, queue, _). \<Sum>item\<leftarrow>queue. length (entries (fst item)))")
  fix item :: "entry \<times> string"
  have "(\<Sum>i\<leftarrow>queued item. length (entries (fst i))) < length (entries (fst item))"
    by (simp add: queued_def length_entries_children [of "fst item"] comp_def case_prod_beta)
  then show "((k, aliveNodes, busy, rc, queue @ queued item, tasks), k, aliveNodes, busy, rc,
      item # queue, tasks) \<in> measure (\<lambda>(_, _, _, _, queue, _). \<Sum>item\<leftarrow>queue. length (entries (fst item)))"
    for k aliveNodes busy rc queue tasks by simp
qed (simp_all add: entries_pos)

definition is_repairing :: "mds \<Rightarrow> string \<Rightarrow> bool" where
  "is_repairing s fileID \<longleftrightarrow> map_of (repairing s) fileID = Some True"

definition findUnderReplicatedTasks :: "nat \<Rightarrow> mds \<Rightarrow> repairTask list \<times> string list" where
  "findUnderReplicatedTasks k s =
     (let aliveNodes = dataNodes s
      in (scan_queue k aliveNodes (is_repairing s) (replicaCount s) [(root s, ''/'')] [], aliveNodes))"

subsection \<open>Choosing targets\<close>

text \<open>The loop over the live nodes: \<open>n\<close> is the number of candidates still wanted.\<close>

fun pick_targets :: "string list \<Rightarrow> string list \<Rightarrow> nat \<Rightarrow> string list" where
  "pick_targets hasReplica [] n = []"
| "pick_targets hasReplica (addr # addrs) n =
     (if addr \<notin> set hasReplica
      then addr # (if n \<le> 1 then [] else pick_targets hasReplica addrs (n - 1))
      else pick_targets hasReplica addrs n)"

definition selectTargetNodes :: "Replica list \<Rightarrow> string list \<Rightarrow> int \<Rightarrow> string list" where
  "selectTargetNodes aliveReplicas aliveNodes count =
     (if count \<le> 0 \<or> length aliveNodes = 0 then []
      else pick_targets (map r_Addr aliveReplicas) aliveNodes (nat count))"

subsection \<open>Copying\<close>

text \<open>
  The data nodes behind RPC. A copy is made by the target's handler; \<^const>\<open>None\<close> is a call that
  does not return.
\<close>

record 'n copy_rpc =
  cr_dial :: "string \<Rightarrow> error option"
  cr_ReplicateFile :: "string \<Rightarrow> ReplicateFileArgs \<Rightarrow> (string \<Rightarrow> 'n) \<Rightarrow> (bool result \<times> 'n) option"

definition triggerReplicate ::
  "'n copy_rpc \<Rightarrow> Replica \<Rightarrow> Replica \<Rightarrow> int64 \<Rightarrow> (string \<Rightarrow> 'n) \<Rightarrow> (error option \<times> (string \<Rightarrow> 'n)) option" where
  "triggerReplicate rpc source target fileSize nodes =
     (case cr_dial rpc (r_Addr target) of
        Some err \<Rightarrow> Some (Some (''dial target data node '' @ r_Addr target @ '': '' @ err), nodes)
      | None \<Rightarrow>
         (let args = \<lparr>rf_SourceAddr = r_Addr source, rf_SourceRemotePath = r_RemotePath source,
                      rf_TargetRemotePath = r_RemotePath target, rf_FileSize = fileSize\<rparr>
          in case cr_ReplicateFile rpc (r_Addr target) args nodes of
               None \<Rightarrow> None
             | Some (reply, n) \<Rightarrow>
                 Some (case reply of
                         Inl err \<Rightarrow> Some (''replicate file RPC: '' @ err)
                       | Inr False \<Rightarrow> Some ''replicate file RPC returned false''
                       | Inr True \<Rightarrow> None,
                       nodes(r_Addr target := n))))"

text \<open>\<^verbatim>\<open>wg.Wait\<close> returns when every copy has returned.\<close>

fun copy_all ::
  "'n copy_rpc \<Rightarrow> Replica \<Rightarrow> string \<Rightarrow> int64 \<Rightarrow> string list \<Rightarrow> (string \<Rightarrow> 'n) \<Rightarrow>
   ((Replica \<times> error option) list \<times> (string \<Rightarrow> 'n)) option" where
  "copy_all rpc source fileID fileSize [] nodes = Some ([], nodes)"
| "copy_all rpc source fileID fileSize (addr # addrs) nodes =
     (let target = \<lparr>r_Addr = addr, r_RemotePath = ''/data/'' @ fileID\<rparr> in
      case triggerReplicate rpc source target fileSize nodes of
        None \<Rightarrow> None
      | Some (err, nodes) \<Rightarrow>
         (case copy_all rpc source fileID fileSize addrs nodes of
            None \<Rightarrow> None
          | Some (results, nodes) \<Rightarrow> Some ((target, err) # results, nodes)))"

subsection \<open>Repairing one file\<close>

definition status_payload :: "string \<Rightarrow> string \<Rightarrow> commandPayload" where
  "status_payload path st = zero_payload\<lparr>p_Op := OpUpdateStatus, p_Path := path, p_NewStatus := st\<rparr>"

definition replicas_payload :: "string \<Rightarrow> Replica list \<Rightarrow> commandPayload" where
  "replicas_payload path rs = zero_payload\<lparr>p_Op := OpUpdateReplicas, p_Path := path, p_NewReplicas := rs\<rparr>"

definition rollbackStatus :: "'d codec \<Rightarrow> 'd raft_node \<Rightarrow> string \<Rightarrow> mds \<Rightarrow> mds" where
  "rollbackStatus codec raft path s =
     snd (submitCommand codec raft (status_payload path StatusComplete) s)"

text \<open>The end of a repair, once the copies are made.\<close>

definition commit_repair ::
  "'d codec \<Rightarrow> 'd raft_node \<Rightarrow> repairTask \<Rightarrow> nat \<Rightarrow> Replica list \<Rightarrow> mds \<Rightarrow> error option \<times> mds" where
  "commit_repair codec raft task targets newReplicas s =
     (let finalReplicas = rt_replicas task @ newReplicas in
      case submitCommand codec raft (replicas_payload (rt_path task) finalReplicas) s of
        (Some err, s) \<Rightarrow> (Some (''update replicas: '' @ err), s)
      | (None, s) \<Rightarrow>
         (case submitCommand codec raft (status_payload (rt_path task) StatusComplete) s of
            (Some err, s) \<Rightarrow> (Some (''switch back to complete: '' @ err), s)
          | (None, s) \<Rightarrow>
             (if length newReplicas = 0
              then Some (''all '' @ show_nat targets @ '' target replicas failed to copy'') else None,
              s)))"

definition repairFile ::
  "'d codec \<Rightarrow> 'd raft_node \<Rightarrow> 'n copy_rpc \<Rightarrow> string list \<Rightarrow> repairTask \<Rightarrow> mds \<Rightarrow> (string \<Rightarrow> 'n) \<Rightarrow>
   (error option \<times> mds \<times> (string \<Rightarrow> 'n)) option" where
  "repairFile codec raft rpc aliveNodes task s nodes =
     (let missing = replicaCount s - int (length (rt_replicas task)) in
      case submitCommand codec raft (status_payload (rt_path task) StatusRecovering) s of
        (Some err, s) \<Rightarrow> Some (Some (''switch to recovering: '' @ err), s, nodes)
      | (None, s) \<Rightarrow>
          if length (rt_replicas task) = 0
          then Some (Some (''all replicas dead for file '' @ rt_fileID task),
                     rollbackStatus codec raft (rt_path task) s, nodes)
          else
           (let sourceReplica = rt_replicas task ! 0;
                targetAddrs = selectTargetNodes (rt_replicas task) aliveNodes missing
            in if length targetAddrs = 0
               then Some (Some ''no available target data node'',
                          rollbackStatus codec raft (rt_path task) s, nodes)
               else
                (case copy_all rpc sourceReplica (rt_fileID task) (rt_size task) targetAddrs nodes of
                   None \<Rightarrow> None
                 | Some (results, nodes) \<Rightarrow>
                    (let newReplicas = map fst (filter (\<lambda>r. snd r = None) results);
                         (err, s) = commit_repair codec raft task (length targetAddrs) newReplicas s
                     in Some (err, s, nodes)))))"

subsection \<open>A cycle\<close>

text \<open>The tasks of a batch, each behind the single-flight mark of its file.\<close>

fun repair_tasks ::
  "'d codec \<Rightarrow> 'd raft_node \<Rightarrow> 'n copy_rpc \<Rightarrow> string list \<Rightarrow> repairTask list \<Rightarrow> mds \<Rightarrow> (string \<Rightarrow> 'n) \<Rightarrow>
   (mds \<times> (string \<Rightarrow> 'n)) option" where
  "repair_tasks codec raft rpc aliveNodes [] s nodes = Some (s, nodes)"
| "repair_tasks codec raft rpc aliveNodes (task # tasks) s nodes =
     (if is_repairing s (rt_fileID task) then repair_tasks codec raft rpc aliveNodes tasks s nodes
      else
       (let s = s\<lparr>repairing := AList.update (rt_fileID task) True (repairing s)\<rparr> in
        case repairFile codec raft rpc aliveNodes task s nodes of
          None \<Rightarrow> None
        | Some (err, s, nodes) \<Rightarrow>
            repair_tasks codec raft rpc aliveNodes tasks
              (s\<lparr>repairing := AList.delete (rt_fileID task) (repairing s)\<rparr>) nodes))"

text \<open>
  The loop of \<^verbatim>\<open>runReplication\<close>: \<open>clock i\<close> is the time at its \<open>i\<close>-th turn.
\<close>

partial_function (option) replication_loop ::
  "'d codec \<Rightarrow> 'd raft_node \<Rightarrow> 'n copy_rpc \<Rightarrow> (nat \<Rightarrow> time) \<Rightarrow> time \<Rightarrow> nat \<Rightarrow> mds \<Rightarrow> (string \<Rightarrow> 'n) \<Rightarrow>
   (mds \<times> (string \<Rightarrow> 'n)) option" where
  "replication_loop codec raft rpc clock deadline i s nodes =
     (if clock i > deadline then Some (s, nodes)
      else
       (let (tasks, aliveNodes) = findUnderReplicatedTasks replicateBatchSize s in
        if length tasks = 0 then Some (s, nodes)
        else
         (case repair_tasks codec raft rpc aliveNodes tasks s nodes of
            None \<Rightarrow> None
          | Some (s, nodes) \<Rightarrow> replication_loop codec raft rpc clock deadline (Suc i) s nodes)))"

definition runReplication ::
  "'d codec \<Rightarrow> 'd raft_node \<Rightarrow> 'n copy_rpc \<Rightarrow> time \<Rightarrow> (nat \<Rightarrow> time) \<Rightarrow> mds \<Rightarrow> (string \<Rightarrow> 'n) \<Rightarrow>
   (mds \<times> (string \<Rightarrow> 'n)) option" where
  "runReplication codec raft rpc start clock s nodes =
     replication_loop codec raft rpc clock (start + replicateScanTimeout) 0 s nodes"

definition replicator_tick ::
  "'d codec \<Rightarrow> 'd raft_node \<Rightarrow> 'n copy_rpc \<Rightarrow> time \<Rightarrow> (nat \<Rightarrow> time) \<Rightarrow> mds \<Rightarrow> (string \<Rightarrow> 'n) \<Rightarrow>
   (mds \<times> (string \<Rightarrow> 'n)) option" where
  "replicator_tick codec raft rpc start clock s nodes =
     (if \<not> IsLeader raft then Some (s, nodes) else runReplication codec raft rpc start clock s nodes)"

end
