(* ===== verification/Replicator_Laws.thy ===== *)
theory Replicator_Laws
  imports Replicator Namespace_Props
begin

text \<open>
  Facts on the parts of a repair: what the scan finds, which targets are chosen, what the copies
  leave on the nodes and what the commands of a repair change.
\<close>

subsection \<open>The scan\<close>

text \<open>A subtree as the list of its attributes with the paths the scan would give them.\<close>

fun pathed :: "entry \<Rightarrow> string \<Rightarrow> (entry_attr \<times> string) list" where
  "pathed (Entry a cs) p =
     (a, p) # concat (map (\<lambda>kc. pathed (snd kc) (joinPath p (e_name (attr (snd kc))))) cs)"

lemma set_pathed: "set (pathed (fst item) (snd item)) =
    insert (attr (fst item), snd item) (\<Union>i \<in> set (queued item). set (pathed (fst i) (snd i)))"
  by (cases "fst item") (auto simp: queued_def case_prod_beta)

lemma pathed_ns:
  assumes "wf_entry e" "\<forall>w \<in> set ws. valid_name w"
  shows "set (pathed e (abs_path ws)) = {(a, abs_path (ws @ q)) | a q. ns e q = Some a}"
  using assms
proof (induction e arbitrary: ws rule: entries.induct)
  case (1 b cs)
  have dist: "distinct (keys cs)" using "1.prems"(1) by simp
  have child: "set (pathed (snd kc) (joinPath (abs_path ws) (e_name (attr (snd kc))))) =
      {(a, abs_path (ws @ fst kc # q)) | a q. ns (snd kc) q = Some a}" if kc: "kc \<in> set cs" for kc
  proof -
    have k: "valid_name (fst kc)" "e_name (attr (snd kc)) = fst kc" "wf_entry (snd kc)"
      using "1.prems"(1) kc by auto
    with "1.prems"(2) have ws: "\<forall>w \<in> set (ws @ [fst kc]). valid_name w" by simp
    show ?thesis
      unfolding k(2) joinPath_abs_path [OF "1.prems"(2)] using "1.IH" [OF kc k(3) ws] by simp
  qed
  have "set (pathed (Entry b cs) (abs_path ws)) = insert (b, abs_path ws)
      (\<Union>kc \<in> set cs. {(a, abs_path (ws @ fst kc # q)) | a q. ns (snd kc) q = Some a})"
    using child by simp
  also have "\<dots> = {(a, abs_path (ws @ q)) | a q. ns (Entry b cs) q = Some a}" (is "?L = ?R")
  proof
    show "?L \<subseteq> ?R"
    proof
      fix x assume "x \<in> ?L"
      then consider "x = (b, abs_path ws)" | k c a q where "(k, c) \<in> set cs" "ns c q = Some a"
        "x = (a, abs_path (ws @ k # q))" by fastforce
      then show "x \<in> ?R"
      proof cases
        case 1
        have "ns (Entry b cs) [] = Some b \<and> x = (b, abs_path (ws @ []))" using 1 by simp
        then show ?thesis by blast
      next
        case 2
        then have "map_of cs k = Some c" using map_of_Some_iff_set [OF dist] by simp
        with 2(2) have "ns (Entry b cs) (k # q) = Some a" by (simp add: ns_Cons)
        with 2(3) show ?thesis by blast
      qed
    qed
    show "?R \<subseteq> ?L"
    proof
      fix x assume "x \<in> ?R"
      then obtain a q where x: "x = (a, abs_path (ws @ q))" "ns (Entry b cs) q = Some a" by blast
      show "x \<in> ?L"
      proof (cases q)
        case Nil
        with x show ?thesis by simp
      next
        case (Cons k q')
        with x(2) obtain c where "map_of cs k = Some c" "ns c q' = Some a"
          by (auto simp: ns_Cons bind_eq_Some_conv)
        moreover from this(1) have "(k, c) \<in> set cs" using map_of_Some_iff_set [OF dist] by simp
        ultimately show ?thesis using x(1) Cons by force
      qed
    qed
  qed
  finally show ?case .
qed

text \<open>A file the scan has to report, and the task for it.\<close>

definition needs_repair :: "string list \<Rightarrow> (string \<Rightarrow> bool) \<Rightarrow> int \<Rightarrow> entry_attr \<Rightarrow> bool" where
  "needs_repair aliveNodes busy rc a \<longleftrightarrow> \<not> e_isDir a \<and> e_status a \<noteq> StatusPending \<and>
     e_status a \<noteq> StatusRecovering \<and> \<not> busy (e_fileID a) \<and>
     int (length (live_replicas aliveNodes (e_replicas a))) < rc"

definition task_for :: "string list \<Rightarrow> entry_attr \<times> string \<Rightarrow> repairTask" where
  "task_for aliveNodes ap = \<lparr>rt_path = snd ap, rt_fileID = e_fileID (fst ap), rt_size = e_size (fst ap),
     rt_replicas = live_replicas aliveNodes (e_replicas (fst ap))\<rparr>"

definition tasks_in :: "string list \<Rightarrow> (string \<Rightarrow> bool) \<Rightarrow> int \<Rightarrow> (entry \<times> string) list \<Rightarrow> repairTask set" where
  "tasks_in aliveNodes busy rc items = task_for aliveNodes `
     {ap \<in> (\<Union>i \<in> set items. set (pathed (fst i) (snd i))). needs_repair aliveNodes busy rc (fst ap)}"

lemma tasks_in_Cons: "tasks_in al busy rc (item # queue) =
    (if needs_repair al busy rc (attr (fst item)) then {task_for al (attr (fst item), snd item)} else {}) \<union>
    tasks_in al busy rc (queue @ queued item)"
  by (auto simp: tasks_in_def set_pathed [of item] image_Un)

lemma file_queued: "wf_entry (fst item) \<Longrightarrow> \<not> e_isDir (attr (fst item)) \<Longrightarrow> queued item = []"
  by (cases "fst item") (simp add: queued_def)

lemma wf_queued: "wf_entry (fst item) \<Longrightarrow> i \<in> set (queued item) \<Longrightarrow> wf_entry (fst i)"
  by (cases "fst item") (fastforce simp: queued_def)

text \<open>One turn of the scan.\<close>

lemma scan_turn: "scan_queue k al busy rc (item # queue) tasks =
    (if e_isDir (attr (fst item)) then scan_queue k al busy rc (queue @ queued item) tasks
     else if needs_repair al busy rc (attr (fst item)) then
       (let tasks = tasks @ [task_for al (attr (fst item), snd item)]
        in if length tasks \<ge> k then tasks else scan_queue k al busy rc queue tasks)
     else scan_queue k al busy rc queue tasks)"
  by (simp add: needs_repair_def task_for_def Let_def)

definition pending_nodes :: "(entry \<times> string) list \<Rightarrow> nat" where
  "pending_nodes queue = (\<Sum>i\<leftarrow>queue. length (entries (fst i)))"

lemma pending_nodes_less:
  "pending_nodes (queue @ queued item) < pending_nodes (item # queue)"
  "pending_nodes queue < pending_nodes (item # queue)"
  using length_entries_children [of "fst item"]
  by (simp_all add: pending_nodes_def queued_def comp_def case_prod_beta entries_pos)

lemma scan_queue_tasks:
  assumes "\<forall>i \<in> set queue. wf_entry (fst i)" "length tasks < k"
    and "scan_queue k al busy rc queue tasks = res"
  shows "length res \<le> k \<and> set res \<subseteq> set tasks \<union> tasks_in al busy rc queue \<and>
    (length res < k \<longrightarrow> set res = set tasks \<union> tasks_in al busy rc queue)"
  using assms
proof (induction "pending_nodes queue" arbitrary: queue tasks rule: less_induct)
  case less
  show ?case
  proof (cases queue)
    case Nil
    with less.prems show ?thesis by (auto simp: tasks_in_def)
  next
    case (Cons item rest)
    let ?a = "attr (fst item)" and ?t = "task_for al (attr (fst item), snd item)"
    note run = less.prems(3) [unfolded Cons scan_turn]
    have wf: "\<forall>i \<in> set (rest @ queued item). wf_entry (fst i)" "\<forall>i \<in> set rest. wf_entry (fst i)"
      "wf_entry (fst item)" using less.prems(1) Cons wf_queued [of item] by fastforce+
    note IH = less.hyps [OF pending_nodes_less(1) [of rest item, folded Cons] wf(1)]
      less.hyps [OF pending_nodes_less(2) [of rest item, folded Cons] wf(2)]
    show ?thesis
    proof (cases "e_isDir ?a")
      case True
      with run have "scan_queue k al busy rc (rest @ queued item) tasks = res" by simp
      from IH(1) [OF less.prems(2) this] True show ?thesis
        unfolding Cons tasks_in_Cons by (simp add: needs_repair_def)
    next
      case nodir: False
      then have q: "tasks_in al busy rc (item # rest) =
          (if needs_repair al busy rc ?a then {?t} else {}) \<union> tasks_in al busy rc rest"
        using file_queued [OF wf(3)] by (simp add: tasks_in_Cons)
      consider "\<not> needs_repair al busy rc ?a"
        | "needs_repair al busy rc ?a" "length (tasks @ [?t]) \<ge> k"
        | "needs_repair al busy rc ?a" "length (tasks @ [?t]) < k" by linarith
      then show ?thesis
      proof cases
        case 1
        with run nodir have "scan_queue k al busy rc rest tasks = res" by simp
        from IH(2) [OF less.prems(2) this] 1 show ?thesis unfolding Cons q by simp
      next
        case 2
        with run nodir have "res = tasks @ [?t]" by simp
        with 2 less.prems(2) show ?thesis unfolding Cons q by auto
      next
        case 3
        with run nodir have "scan_queue k al busy rc rest (tasks @ [?t]) = res" by simp
        from IH(2) [OF 3(2) this] 3(1) show ?thesis unfolding Cons q by auto
      qed
    qed
  qed
qed

subsection \<open>Targets\<close>

lemma pick_targets_eq: "0 < n \<Longrightarrow>
    pick_targets has addrs n = take n (filter (\<lambda>a. a \<notin> set has) addrs)"
proof (induction has addrs n rule: pick_targets.induct)
  case (2 has addr addrs n)
  then show ?case by (cases n) auto
qed simp

lemma targets_eq: "selectTargetNodes rs aliveNodes count =
    take (nat count) (filter (\<lambda>a. a \<notin> r_Addr ` set rs) aliveNodes)"
  by (simp add: selectTargetNodes_def pick_targets_eq)

subsection \<open>Commands of a repair\<close>

text \<open>What the two commands do to the namespace when they are committed with nothing in between.\<close>

lemma submit_update:
  assumes "commits codec raft [] t" "carries codec p" "mds_inv s"
    and "p_Op p = OpUpdateStatus \<or> p_Op p = OpUpdateReplicas"
    and "submitCommand codec raft p s = (err, s')"
  shows "mds_inv s'" "dataNodes s' = dataNodes s" "replicaCount s' = replicaCount s"
    "repairing s' = repairing s"
    "err = None \<Longrightarrow> spec_apply t (p_Op p) p (ns (root s)) = Some (ns (root s'))"
    "err \<noteq> None \<Longrightarrow> s' = s \<and> spec_apply t (p_Op p) p (ns (root s)) = None"
proof -
  have wf: "wf_root (root s)" using assms(3) by (rule inv_wf)
  show "mds_inv s'" by (rule submit_inv [OF assms(1,5,3)])
  have run: "(case apply_payload t (p_Op p) p s of
       Inl err \<Rightarrow> (Some (''raft do failed: '' @ err), s) | Inr s2 \<Rightarrow> (None, s2)) = (err, s')"
    using submit_carried [OF assms(1,2), of s] assms(5) by simp
  have other: "dataNodes s2 = dataNodes s \<and> replicaCount s2 = replicaCount s \<and> repairing s2 = repairing s"
    if "apply_payload t (p_Op p) p s = Inr s2" for s2
    using that assms(4)
    by (auto simp: apply_payload_def op_names applyUpdateStatus_def applyUpdateReplicas_def
        split: option.splits if_splits)
  from run other show "dataNodes s' = dataNodes s" "replicaCount s' = replicaCount s"
    "repairing s' = repairing s" by (auto split: sum.splits)
  note ref = apply_payload_refines [OF wf, of t "p_Op p" p]
  from run ref show "err = None \<Longrightarrow> spec_apply t (p_Op p) p (ns (root s)) = Some (ns (root s'))"
    "err \<noteq> None \<Longrightarrow> s' = s \<and> spec_apply t (p_Op p) p (ns (root s)) = None"
    by (auto split: sum.splits)
qed

lemma payload_fields [simp]:
  "p_Op (status_payload path st) = OpUpdateStatus" "p_Path (status_payload path st) = path"
  "p_NewStatus (status_payload path st) = st"
  "p_Op (replicas_payload path rs) = OpUpdateReplicas" "p_Path (replicas_payload path rs) = path"
  "p_NewReplicas (replicas_payload path rs) = rs"
  by (simp_all add: status_payload_def replicas_payload_def zero_payload_def)

lemma spec_status: "st \<in> {StatusComplete, StatusRecovering, StatusPending} \<Longrightarrow>
    spec_apply t OpUpdateStatus (status_payload path st) m =
    spec_update (\<lambda>_. True) (\<lambda>a. a\<lparr>e_status := st, e_modTime := t\<rparr>) (splitPath path) m"
  by (simp add: spec_apply_def op_names Let_def)

lemma spec_replicas: "spec_apply t OpUpdateReplicas (replicas_payload path rs) m =
    spec_update (\<lambda>_. rs \<noteq> []) (\<lambda>a. a\<lparr>e_replicas := rs, e_modTime := t\<rparr>) (splitPath path) m"
  by (simp add: spec_apply_def op_names Let_def)

text \<open>On an existing file both commands succeed.\<close>

lemma submit_status:
  assumes "commits codec raft [] t" "carries codec (status_payload path st)" "mds_inv s"
    and "st \<in> {StatusComplete, StatusRecovering, StatusPending}"
    and "ns (root s) (splitPath path) = Some a" "\<not> e_isDir a"
  obtains s' where "submitCommand codec raft (status_payload path st) s = (None, s')" "mds_inv s'"
    "ns (root s') = (ns (root s))(splitPath path \<mapsto> a\<lparr>e_status := st, e_modTime := t\<rparr>)"
    "dataNodes s' = dataNodes s" "replicaCount s' = replicaCount s" "repairing s' = repairing s"
proof -
  obtain err s' where run: "submitCommand codec raft (status_payload path st) s = (err, s')"
    by (cases "submitCommand codec raft (status_payload path st) s")
  note u = submit_update [OF assms(1-3) _ run]
  have sp: "spec_apply t OpUpdateStatus (status_payload path st) (ns (root s)) =
      Some ((ns (root s))(splitPath path \<mapsto> a\<lparr>e_status := st, e_modTime := t\<rparr>))"
    using spec_status [OF assms(4)] assms(5,6) by (simp add: spec_update_def)
  with u(6) have "err = None" by (cases err) auto
  with that u sp run show thesis by simp
qed

lemma submit_replicas:
  assumes "commits codec raft [] t" "carries codec (replicas_payload path rs)" "mds_inv s" "rs \<noteq> []"
    and "ns (root s) (splitPath path) = Some a" "\<not> e_isDir a"
  obtains s' where "submitCommand codec raft (replicas_payload path rs) s = (None, s')" "mds_inv s'"
    "ns (root s') = (ns (root s))(splitPath path \<mapsto> a\<lparr>e_replicas := rs, e_modTime := t\<rparr>)"
    "dataNodes s' = dataNodes s" "replicaCount s' = replicaCount s" "repairing s' = repairing s"
proof -
  obtain err s' where run: "submitCommand codec raft (replicas_payload path rs) s = (err, s')"
    by (cases "submitCommand codec raft (replicas_payload path rs) s")
  note u = submit_update [OF assms(1-3) _ run]
  have sp: "spec_apply t OpUpdateReplicas (replicas_payload path rs) (ns (root s)) =
      Some ((ns (root s))(splitPath path \<mapsto> a\<lparr>e_replicas := rs, e_modTime := t\<rparr>))"
    using assms(4-6) by (simp add: spec_replicas spec_update_def)
  with u(6) have "err = None" by (cases err) auto
  with that u sp run show thesis by simp
qed

end
