(* ===== verification/Replicator_Props.thy ===== *)
theory Replicator_Props
  imports Replicator_Laws
begin

text \<open>
  Repairs on a cluster of data nodes. \<open>dial\<close> says whether the leader reaches a node, \<open>peer\<close>
  whether a node reaches another.
\<close>

definition node_rpc ::
  "(string \<Rightarrow> error option) \<Rightarrow> (string \<Rightarrow> string \<Rightarrow> error option) \<Rightarrow> (string \<Rightarrow> os_env) \<Rightarrow> time \<Rightarrow>
   data_node copy_rpc" where
  "node_rpc dial peer env now =
     \<lparr>cr_dial = dial,
      cr_ReplicateFile = (\<lambda>addr args nodes.
        ReplicateFile (env addr) now \<lparr>Dial = peer addr, CallRangeRead = (\<lambda>a. rpc_range (nodes a))\<rparr>
          args (nodes addr))\<rparr>"

subsection \<open>Copies\<close>

text \<open>A target that can be reached, reaches the source, and whose disk works and has a place for the file.\<close>

definition good_target ::
  "(string \<Rightarrow> error option) \<Rightarrow> (string \<Rightarrow> string \<Rightarrow> error option) \<Rightarrow> (string \<Rightarrow> os_env) \<Rightarrow> time \<Rightarrow>
   (string \<Rightarrow> data_node) \<Rightarrow> string \<Rightarrow> string \<Rightarrow> string \<Rightarrow> bool" where
  "good_target dial peer env now nodes src path addr \<longleftrightarrow>
     dial addr = None \<and> peer addr src = None \<and> env addr = calm \<and> writable calm now (nodes addr) path"

text \<open>
  The copy to a target succeeds: it can be dialled and its handler replies true. Which of the targets
  these are does not depend on the other copies, since each reads the source and writes its own node.
\<close>

definition copy_net :: "(string \<Rightarrow> string \<Rightarrow> error option) \<Rightarrow> (string \<Rightarrow> data_node) \<Rightarrow> string \<Rightarrow> net" where
  "copy_net peer nodes addr = \<lparr>Dial = peer addr, CallRangeRead = (\<lambda>a. rpc_range (nodes a))\<rparr>"

definition copied ::
  "(string \<Rightarrow> error option) \<Rightarrow> (string \<Rightarrow> string \<Rightarrow> error option) \<Rightarrow> (string \<Rightarrow> os_env) \<Rightarrow> time \<Rightarrow>
   (string \<Rightarrow> data_node) \<Rightarrow> ReplicateFileArgs \<Rightarrow> string \<Rightarrow> bool" where
  "copied dial peer env now nodes args addr \<longleftrightarrow> dial addr = None \<and>
     map_option fst (ReplicateFile (env addr) now (copy_net peer nodes addr) args (nodes addr)) = Some (Inr True)"

lemma copied_elsewhere:
  assumes "addr \<noteq> x" "rf_SourceAddr args \<noteq> x"
  shows "copied dial peer env now (nodes(x := n')) args addr = copied dial peer env now nodes args addr"
proof -
  have "Dial (copy_net peer (nodes(x := n')) addr) = Dial (copy_net peer nodes addr)"
    "CallRangeRead (copy_net peer (nodes(x := n')) addr) (rf_SourceAddr args) =
     CallRangeRead (copy_net peer nodes addr) (rf_SourceAddr args)"
    using assms(2) by (simp_all add: copy_net_def)
  then show ?thesis using assms(1) by (simp only: copied_def ReplicateFile_def fun_upd_other simp_thms)
qed

lemma trigger_effect:
  assumes inv: "\<And>a. dn_inv (nodes a)" and src: "holds (nodes src) path = Some bs"
    and sz: "sz \<le> length bs" "length bs < 2 ^ 62"
  shows "\<exists>err n'. triggerReplicate (node_rpc dial peer env now) \<lparr>r_Addr = src, r_RemotePath = path\<rparr>
      \<lparr>r_Addr = addr, r_RemotePath = tp\<rparr> (of_nat sz) nodes = Some (err, nodes(addr := n')) \<and>
    dn_inv n' \<and> (err = None \<longrightarrow> holds n' tp = Some (take sz bs)) \<and>
    (\<forall>q. vcomps q \<noteq> vcomps tp \<longrightarrow> holds n' q = holds (nodes addr) q) \<and>
    (good_target dial peer env now nodes src tp addr \<longrightarrow> err = None) \<and>
    (err = None \<longleftrightarrow> copied dial peer env now nodes \<lparr>rf_SourceAddr = src, rf_SourceRemotePath = path,
      rf_TargetRemotePath = tp, rf_FileSize = of_nat sz\<rparr> addr)"
proof (cases "dial addr")
  case (Some err)
  then have "triggerReplicate (node_rpc dial peer env now) \<lparr>r_Addr = src, r_RemotePath = path\<rparr>
      \<lparr>r_Addr = addr, r_RemotePath = tp\<rparr> (of_nat sz) nodes =
      Some (Some (''dial target data node '' @ addr @ '': '' @ err), nodes(addr := nodes addr))"
    by (simp add: triggerReplicate_def node_rpc_def)
  with inv Some show ?thesis by (fastforce simp: good_target_def copied_def)
next
  case None
  let ?args = "\<lparr>rf_SourceAddr = src, rf_SourceRemotePath = path, rf_TargetRemotePath = tp,
    rf_FileSize = of_nat sz\<rparr>"
  let ?net = "\<lparr>Dial = peer addr, CallRangeRead = (\<lambda>a. rpc_range (nodes a))\<rparr>"
  from replicate_effect [OF inv [of addr] inv [of src], of ?args bs ?net sz tp "env addr" now] src sz
  obtain r n' where c: "ReplicateFile (env addr) now ?net ?args (nodes addr) = Some (r, n')" "dn_inv n'"
    "r = Inr True \<longrightarrow> holds n' tp = Some (take sz bs)"
    "\<forall>q. vcomps q \<noteq> vcomps tp \<longrightarrow> holds n' q = holds (nodes addr) q"
    "peer addr src = None \<and> env addr = calm \<and> writable calm now (nodes addr) tp \<longrightarrow> r = Inr True"
    by auto
  let ?err = "case r of Inl err \<Rightarrow> Some (''replicate file RPC: '' @ err)
    | Inr False \<Rightarrow> Some ''replicate file RPC returned false'' | Inr True \<Rightarrow> None"
  have copied: "copied dial peer env now nodes ?args addr \<longleftrightarrow> r = Inr True"
    using None c(1) by (simp add: copied_def copy_net_def)
  have err: "?err = None \<longleftrightarrow> r = Inr True" by (auto split: sum.split bool.split)
  have "triggerReplicate (node_rpc dial peer env now) \<lparr>r_Addr = src, r_RemotePath = path\<rparr>
      \<lparr>r_Addr = addr, r_RemotePath = tp\<rparr> (of_nat sz) nodes = Some (?err, nodes(addr := n'))"
    using None c(1) by (simp add: triggerReplicate_def node_rpc_def)
  then show ?thesis
    by (intro exI conjI) (use c(2-5) err copied in \<open>auto simp: good_target_def\<close>)
qed

lemma copy_all_effect:
  assumes "\<And>a. dn_inv (nodes a)" "holds (nodes src) path = Some bs"
    and "sz \<le> length bs" "length bs < 2 ^ 62" "distinct addrs" "src \<notin> set addrs"
    and tp: "tp = data_dir @ fid"
  shows "\<exists>results nodes'. copy_all (node_rpc dial peer env now) \<lparr>r_Addr = src, r_RemotePath = path\<rparr>
      fid (of_nat sz) addrs nodes = Some (results, nodes') \<and>
    map fst results = map (\<lambda>a. \<lparr>r_Addr = a, r_RemotePath = tp\<rparr>) addrs \<and>
    map fst (filter (\<lambda>r. snd r = None) results) = map (\<lambda>a. \<lparr>r_Addr = a, r_RemotePath = tp\<rparr>)
      (filter (copied dial peer env now nodes \<lparr>rf_SourceAddr = src, rf_SourceRemotePath = path,
        rf_TargetRemotePath = tp, rf_FileSize = of_nat sz\<rparr>) addrs) \<and>
    (\<forall>a. dn_inv (nodes' a)) \<and> (\<forall>a. a \<notin> set addrs \<longrightarrow> nodes' a = nodes a) \<and>
    (\<forall>r. (r, None) \<in> set results \<longrightarrow> holds (nodes' (r_Addr r)) tp = Some (take sz bs)) \<and>
    (\<forall>a q. vcomps q \<noteq> vcomps tp \<longrightarrow> holds (nodes' a) q = holds (nodes a) q) \<and>
    ((\<forall>a \<in> set addrs. good_target dial peer env now nodes src tp a) \<longrightarrow> (\<forall>re \<in> set results. snd re = None))"
  using assms(1,2,5,6)
proof (induction addrs arbitrary: nodes)
  case Nil
  then show ?case by simp
next
  case (Cons addr addrs)
  let ?args = "\<lparr>rf_SourceAddr = src, rf_SourceRemotePath = path, rf_TargetRemotePath = tp, rf_FileSize = of_nat sz\<rparr>"
  obtain err n' where t: "triggerReplicate (node_rpc dial peer env now) \<lparr>r_Addr = src, r_RemotePath = path\<rparr>
      \<lparr>r_Addr = addr, r_RemotePath = tp\<rparr> (of_nat sz) nodes = Some (err, nodes(addr := n'))"
    "dn_inv n'" "err = None \<longrightarrow> holds n' tp = Some (take sz bs)"
    "\<forall>q. vcomps q \<noteq> vcomps tp \<longrightarrow> holds n' q = holds (nodes addr) q"
    "good_target dial peer env now nodes src tp addr \<longrightarrow> err = None"
    "err = None \<longleftrightarrow> copied dial peer env now nodes ?args addr"
    using trigger_effect [of nodes src path bs sz dial peer env now addr tp, OF Cons.prems(1,2) assms(3,4)]
    by metis
  let ?nodes = "nodes(addr := n')"
  have "\<And>a. dn_inv (?nodes a)" "holds (?nodes src) path = Some bs" "distinct addrs" "src \<notin> set addrs"
    using Cons.prems t(2) by auto
  from Cons.IH [of ?nodes, OF this] obtain results nodes' where c:
    "copy_all (node_rpc dial peer env now) \<lparr>r_Addr = src, r_RemotePath = path\<rparr> fid (of_nat sz) addrs ?nodes =
      Some (results, nodes')"
    "map fst results = map (\<lambda>a. \<lparr>r_Addr = a, r_RemotePath = tp\<rparr>) addrs"
    "\<forall>a. dn_inv (nodes' a)" "\<forall>a. a \<notin> set addrs \<longrightarrow> nodes' a = ?nodes a"
    "\<forall>r. (r, None) \<in> set results \<longrightarrow> holds (nodes' (r_Addr r)) tp = Some (take sz bs)"
    "\<forall>a q. vcomps q \<noteq> vcomps tp \<longrightarrow> holds (nodes' a) q = holds (?nodes a) q"
    "(\<forall>a \<in> set addrs. good_target dial peer env now ?nodes src tp a) \<longrightarrow> (\<forall>re \<in> set results. snd re = None)"
    "map fst (filter (\<lambda>r. snd r = None) results) = map (\<lambda>a. \<lparr>r_Addr = a, r_RemotePath = tp\<rparr>)
      (filter (copied dial peer env now ?nodes ?args) addrs)"
    by blast
  have "filter (copied dial peer env now ?nodes ?args) addrs = filter (copied dial peer env now nodes ?args) addrs"
    using Cons.prems(3,4) by (intro filter_cong refl copied_elsewhere) auto
  with c(8) have new: "map fst (filter (\<lambda>r. snd r = None) results) =
    map (\<lambda>a. \<lparr>r_Addr = a, r_RemotePath = tp\<rparr>) (filter (copied dial peer env now nodes ?args) addrs)" by simp
  have run: "copy_all (node_rpc dial peer env now) \<lparr>r_Addr = src, r_RemotePath = path\<rparr> fid (of_nat sz)
      (addr # addrs) nodes = Some ((\<lparr>r_Addr = addr, r_RemotePath = tp\<rparr>, err) # results, nodes')"
    using t(1) c(1) by (simp add: tp data_dir_def)
  have here: "nodes' addr = n'" using c(4) Cons.prems(3) by simp
  have good: "good_target dial peer env now ?nodes src tp a" if "a \<in> set addrs"
    "good_target dial peer env now nodes src tp a" for a
    using that Cons.prems(3) by (auto simp: good_target_def)
  have ok: "\<forall>re \<in> set ((\<lparr>r_Addr = addr, r_RemotePath = tp\<rparr>, err) # results). snd re = None"
    if "\<forall>a \<in> set (addr # addrs). good_target dial peer env now nodes src tp a"
    using that t(5) c(7) good by auto
  show ?case
    by (intro exI conjI, rule run) (use c(2-6) here t(3,4,6) new Cons.prems(3) ok in auto)
qed

subsection \<open>The scan and the choice of targets\<close>

definition under_replicated :: "mds \<Rightarrow> entry_attr \<Rightarrow> bool" where
  "under_replicated s a \<longleftrightarrow> \<not> e_isDir a \<and> e_status a = StatusComplete \<and> \<not> is_repairing s (e_fileID a) \<and>
     int (length (live_replicas (dataNodes s) (e_replicas a))) < replicaCount s"

lemma scan_root:
  assumes "mds_inv s"
  shows "tasks_in (dataNodes s) (is_repairing s) (replicaCount s) [(root s, ''/'')] =
    {task_for (dataNodes s) (a, abs_path q) | q a. ns (root s) q = Some a \<and> under_replicated s a}"
proof -
  have wf: "wf_entry (root s)" and "ns_all status_ok (ns (root s))"
    using assms tree_all_ns [of "root s" status_ok] by (simp_all add: mds_inv_def wf_root_def)
  then have "needs_repair (dataNodes s) (is_repairing s) (replicaCount s) a \<longleftrightarrow> under_replicated s a"
    if "ns (root s) q = Some a" for q a
    using that by (auto simp: needs_repair_def under_replicated_def ns_all_def status_ok_def)
  moreover have "''/'' = abs_path []" by (simp add: abs_path_def)
  ultimately show ?thesis
    using pathed_ns [OF wf, of "[]"] by (fastforce simp: tasks_in_def)
qed

lemma scan_sound:
  assumes "mds_inv s" "0 < k" "findUnderReplicatedTasks k s = (tasks, aliveNodes)"
  defines "U \<equiv> {task_for (dataNodes s) (a, abs_path q) | q a. ns (root s) q = Some a \<and> under_replicated s a}"
  shows "aliveNodes = dataNodes s \<and> length tasks \<le> k \<and> set tasks \<subseteq> U \<and>
    (length tasks < k \<longrightarrow> set tasks = U)"
proof -
  have wf: "\<forall>i \<in> set [(root s, ''/'')]. wf_entry (fst i)" using assms(1) by (simp add: mds_inv_def wf_root_def)
  have "scan_queue k (dataNodes s) (is_repairing s) (replicaCount s) [(root s, ''/'')] [] = tasks"
    and "aliveNodes = dataNodes s" using assms(3) by (auto simp: findUnderReplicatedTasks_def Let_def)
  with scan_queue_tasks [OF wf _ this(1)] assms(2) show ?thesis
    unfolding scan_root [OF assms(1), folded U_def] by simp
qed

text \<open>
  C24 (scan). A scan reports only complete files with too few live replicas, with their path, their
  identity and exactly their live replicas, never more than the batch holds; when the batch is not
  full it reports every one of them.
\<close>

theorem scan_finds:
  assumes "mds_inv s" "0 < k" "findUnderReplicatedTasks k s = (tasks, aliveNodes)"
    and "U = {task_for (dataNodes s) (a, abs_path q) | q a. ns (root s) q = Some a \<and> under_replicated s a}"
  shows "aliveNodes = dataNodes s \<and> length tasks \<le> k \<and> set tasks \<subseteq> U \<and>
    (length tasks < k \<longrightarrow> set tasks = U)"
  unfolding assms(4) by (rule scan_sound [OF assms(1-3)])

theorem scan_finds_witness:
  "\<exists>t. findUnderReplicatedTasks 16 demo_server = ([t], [''n1'']) \<and> rt_path t = ''/d/f'' \<and>
     \<not> (\<exists>q a. ns (root demo_server) q = Some a \<and> under_replicated demo_server a \<and> abs_path q \<noteq> ''/d/f'')"
proof -
  have "case findUnderReplicatedTasks 16 demo_server of
      ([t], al) \<Rightarrow> rt_path t = ''/d/f'' \<and> al = [''n1''] | _ \<Rightarrow> False" by code_simp
  then obtain t where t: "findUnderReplicatedTasks 16 demo_server = ([t], [''n1''])" "rt_path t = ''/d/f''"
    by (auto split: prod.splits list.splits)
  from scan_finds [OF demo_server_inv _ t(1) refl]
  have "{t} = {task_for (dataNodes demo_server) (a, abs_path q) | q a.
      ns (root demo_server) q = Some a \<and> under_replicated demo_server a}" by simp
  then have "task_for (dataNodes demo_server) (a, abs_path q) = t"
    if "ns (root demo_server) q = Some a" "under_replicated demo_server a" for q a using that by blast
  then have "abs_path q = ''/d/f''"
    if "ns (root demo_server) q = Some a" "under_replicated demo_server a" for q a
    using that t(2) by (metis repairTask.select_convs(1) snd_conv task_for_def)
  with t show ?thesis by blast
qed

text \<open>
  The targets of a repair are distinct live nodes that hold no replica of the file yet,
  as many as are missing or as there are; no order of visiting the live nodes changes that.
\<close>

theorem targets_chosen:
  assumes "distinct aliveNodes" "ts = selectTargetNodes rs aliveNodes count"
    and "cands = set aliveNodes - r_Addr ` set rs"
  shows "distinct ts \<and> set ts \<subseteq> cands \<and> int (length ts) = max 0 (min count (int (card cands)))"
proof -
  let ?fs = "filter (\<lambda>a. a \<notin> r_Addr ` set rs) aliveNodes"
  have c: "set ?fs = cands" "distinct ?fs" using assms(1,3) by auto
  with distinct_card [OF c(2)] have "length ?fs = card cands" by simp
  then have "int (length ts) = max 0 (min count (int (card cands)))"
    unfolding assms(2) targets_eq by auto
  moreover have "distinct ts" "set ts \<subseteq> set ?fs"
    unfolding assms(2) targets_eq using c(2) by (auto intro: distinct_take dest: in_set_takeD)
  ultimately show ?thesis using c(1) by simp
qed

theorem targets_chosen_witness:
  "set (selectTargetNodes [rep ''a'' ''F''] [''c'', ''a'', ''b''] 2) = {''b'', ''c''}"
proof -
  define ts where "ts = selectTargetNodes [rep ''a'' ''F''] [''c'', ''a'', ''b''] 2"
  have cands: "set [''c'', ''a'', ''b''] - r_Addr ` set [rep ''a'' ''F''] = {''b'', ''c''}"
    by (auto simp: rep_def)
  from targets_chosen [OF _ ts_def cands [symmetric]]
  have "distinct ts" "set ts \<subseteq> {''b'', ''c''}" "length ts = 2" by auto
  moreover from this(1,3) have "card (set ts) = 2" by (simp add: distinct_card)
  ultimately have "set ts = {''b'', ''c''}" by (intro card_subset_eq) auto
  then show ?thesis by (simp add: ts_def)
qed

subsection \<open>One repair\<close>

lemma attr_update_order:
  "a\<lparr>e_replicas := r, e_status := st, e_modTime := t\<rparr> = a\<lparr>e_status := st, e_replicas := r, e_modTime := t\<rparr>"
  by (cases a) simp

lemma commit_repair_effect:
  assumes "commits codec raft [] t" "\<And>p. carries codec p" "mds_inv s"
    and "ns (root s) (splitPath (rt_path task)) = Some a" "\<not> e_isDir a" "rt_replicas task \<noteq> []"
  shows "\<exists>s'. commit_repair codec raft task n new s =
      (if new = [] then Some (''all '' @ show_nat n @ '' target replicas failed to copy'') else None, s') \<and>
    mds_inv s' \<and> ns (root s') = (ns (root s))(splitPath (rt_path task) \<mapsto>
      a\<lparr>e_status := StatusComplete, e_replicas := rt_replicas task @ new, e_modTime := t\<rparr>) \<and>
    dataNodes s' = dataNodes s"
proof -
  let ?p = "splitPath (rt_path task)"
  from submit_replicas [OF assms(1,2,3) _ assms(4,5), of "rt_replicas task @ new"] assms(6) obtain s1 where
    1: "submitCommand codec raft (replicas_payload (rt_path task) (rt_replicas task @ new)) s = (None, s1)"
      "mds_inv s1" "dataNodes s1 = dataNodes s"
      "ns (root s1) = (ns (root s))(?p \<mapsto> a\<lparr>e_replicas := rt_replicas task @ new, e_modTime := t\<rparr>)" by auto
  let ?a = "a\<lparr>e_replicas := rt_replicas task @ new, e_modTime := t\<rparr>"
  have a1: "ns (root s1) ?p = Some ?a" "\<not> e_isDir ?a" using 1(4) assms(5) by simp_all
  obtain s2 where
    2: "submitCommand codec raft (status_payload (rt_path task) StatusComplete) s1 = (None, s2)"
      "mds_inv s2" "dataNodes s2 = dataNodes s1"
      "ns (root s2) = (ns (root s1))(?p \<mapsto> ?a\<lparr>e_status := StatusComplete, e_modTime := t\<rparr>)"
    by (rule submit_status [OF assms(1,2) 1(2) _ a1, of StatusComplete]) auto
  from 1 2 show ?thesis
    by (intro exI [of _ s2]) (simp add: commit_repair_def Let_def attr_update_order)
qed

lemma rollback_effect:
  assumes "commits codec raft [] t" "\<And>p. carries codec p" "mds_inv s"
    and "ns (root s) (splitPath path) = Some a" "\<not> e_isDir a"
  shows "mds_inv (rollbackStatus codec raft path s)"
    "ns (root (rollbackStatus codec raft path s)) =
      (ns (root s))(splitPath path \<mapsto> a\<lparr>e_status := StatusComplete, e_modTime := t\<rparr>)"
    "dataNodes (rollbackStatus codec raft path s) = dataNodes s"
proof -
  obtain s' where
    "submitCommand codec raft (status_payload path StatusComplete) s = (None, s')" "mds_inv s'"
    "ns (root s') = (ns (root s))(splitPath path \<mapsto> a\<lparr>e_status := StatusComplete, e_modTime := t\<rparr>)"
    "dataNodes s' = dataNodes s"
    by (rule submit_status [OF assms(1-3) _ assms(4,5), of StatusComplete]) auto
  then show "mds_inv (rollbackStatus codec raft path s)"
    "ns (root (rollbackStatus codec raft path s)) =
      (ns (root s))(splitPath path \<mapsto> a\<lparr>e_status := StatusComplete, e_modTime := t\<rparr>)"
    "dataNodes (rollbackStatus codec raft path s) = dataNodes s"
    by (simp_all add: rollbackStatus_def)
qed

lemma repair_effect:
  assumes raft: "commits codec raft [] t" "\<And>p. carries codec p" and inv: "mds_inv s"
    and file_at: "ns (root s) (splitPath (rt_path task)) = Some a" "\<not> e_isDir a"
    and live: "rt_replicas task \<noteq> []" "src = hd (rt_replicas task)"
    and nodes: "\<And>x. dn_inv (nodes x)" "holds (nodes (r_Addr src)) (r_RemotePath src) = Some bs"
    and sz: "rt_size task = of_nat sz" "sz \<le> length bs" "length bs < 2 ^ 62"
    and alive: "distinct aliveNodes" and tp: "tp = data_dir @ rt_fileID task"
    and targets: "targets = selectTargetNodes (rt_replicas task) aliveNodes
      (replicaCount s - int (length (rt_replicas task)))"
    and new: "new = map (\<lambda>x. \<lparr>r_Addr = x, r_RemotePath = tp\<rparr>) (filter (copied dial peer env now nodes
      \<lparr>rf_SourceAddr = r_Addr src, rf_SourceRemotePath = r_RemotePath src, rf_TargetRemotePath = tp,
        rf_FileSize = rt_size task\<rparr>) targets)"
  shows "\<exists>err s' nodes'. repairFile codec raft (node_rpc dial peer env now) aliveNodes task s nodes =
      Some (err, s', nodes') \<and> mds_inv s' \<and> dataNodes s' = dataNodes s \<and>
    ns (root s') = (ns (root s))(splitPath (rt_path task) \<mapsto> a\<lparr>e_status := StatusComplete,
      e_replicas := (if targets = [] then e_replicas a else rt_replicas task @ new), e_modTime := t\<rparr>) \<and>
    err = (if targets = [] then Some ''no available target data node''
      else if new = [] then Some (''all '' @ show_nat (length targets) @ '' target replicas failed to copy'')
      else None) \<and>
    (\<forall>r \<in> set new. holds (nodes' (r_Addr r)) tp = Some (take sz bs)) \<and>
    (\<forall>x q. vcomps q \<noteq> vcomps tp \<longrightarrow> holds (nodes' x) q = holds (nodes x) q) \<and>
    (\<forall>x. x \<notin> set targets \<longrightarrow> nodes' x = nodes x) \<and> (\<forall>x. dn_inv (nodes' x)) \<and>
    ((\<forall>x \<in> set targets. good_target dial peer env now nodes (r_Addr src) tp x) \<longrightarrow> map r_Addr new = targets)"
proof -
  let ?p = "splitPath (rt_path task)"
  let ?a = "a\<lparr>e_status := StatusRecovering, e_modTime := t\<rparr>"
  obtain s1 where
    1: "submitCommand codec raft (status_payload (rt_path task) StatusRecovering) s = (None, s1)"
      "mds_inv s1" "ns (root s1) = (ns (root s))(?p \<mapsto> ?a)" "dataNodes s1 = dataNodes s"
    by (rule submit_status [OF raft inv _ file_at, of StatusRecovering]) auto
  have a1: "ns (root s1) ?p = Some ?a" "\<not> e_isDir ?a" using 1(3) file_at(2) by simp_all
  have src: "rt_replicas task ! 0 = \<lparr>r_Addr = r_Addr src, r_RemotePath = r_RemotePath src\<rparr>"
    using live by (simp add: hd_conv_nth)
  show ?thesis
  proof (cases "targets = []")
    case True
    note rb = rollback_effect [OF raft 1(2) a1]
    have "repairFile codec raft (node_rpc dial peer env now) aliveNodes task s nodes =
        Some (Some ''no available target data node'', rollbackStatus codec raft (rt_path task) s1, nodes)"
      using 1(1) live(1) True targets by (simp add: repairFile_def Let_def)
    then show ?thesis
      by (intro exI conjI, assumption) (use rb 1(3,4) True new nodes(1) in auto)
  next
    case False
    have ts: "distinct targets" "r_Addr src \<notin> set targets"
      using alive live
      by (auto simp: targets targets_eq intro: distinct_take dest!: in_set_takeD)
    obtain results nodes' where
      c: "copy_all (node_rpc dial peer env now) (rt_replicas task ! 0) (rt_fileID task) (rt_size task)
            targets nodes = Some (results, nodes')"
      "map fst results = map (\<lambda>x. \<lparr>r_Addr = x, r_RemotePath = tp\<rparr>) targets"
      "\<forall>x. x \<notin> set targets \<longrightarrow> nodes' x = nodes x"
      "\<forall>r. (r, None) \<in> set results \<longrightarrow> holds (nodes' (r_Addr r)) tp = Some (take sz bs)"
      "\<forall>x q. vcomps q \<noteq> vcomps tp \<longrightarrow> holds (nodes' x) q = holds (nodes x) q"
      "(\<forall>x \<in> set targets. good_target dial peer env now nodes (r_Addr src) tp x) \<longrightarrow>
         (\<forall>re \<in> set results. snd re = None)"
      "map fst (filter (\<lambda>r. snd r = None) results) = new" "\<forall>x. dn_inv (nodes' x)"
      using copy_all_effect [of nodes "r_Addr src" "r_RemotePath src" bs sz targets tp "rt_fileID task"
          dial peer env now, OF nodes sz(2,3) ts tp] src
      unfolding new sz(1) by auto
    let ?n = "length targets"
    obtain s2 where
      2: "commit_repair codec raft task ?n new s1 =
          (if new = [] then Some (''all '' @ show_nat ?n @ '' target replicas failed to copy'') else None, s2)"
      "mds_inv s2" "dataNodes s2 = dataNodes s1"
      "ns (root s2) = (ns (root s1))(?p \<mapsto>
        ?a\<lparr>e_status := StatusComplete, e_replicas := rt_replicas task @ new, e_modTime := t\<rparr>)"
      using commit_repair_effect [OF raft 1(2) a1 live(1), of ?n new] by auto
    have run: "repairFile codec raft (node_rpc dial peer env now) aliveNodes task s nodes =
        Some (if new = [] then Some (''all '' @ show_nat ?n @ '' target replicas failed to copy'') else None,
          s2, nodes')"
      using 1(1) live(1) False c(1) 2(1) targets
      by (simp add: repairFile_def Let_def c(7))
    have all: "new = map (\<lambda>x. \<lparr>r_Addr = x, r_RemotePath = tp\<rparr>) targets"
      if "\<forall>re \<in> set results. snd re = None"
      using that c(2) by (simp add: c(7) [symmetric])
    have held: "\<forall>r \<in> set new. holds (nodes' (r_Addr r)) tp = Some (take sz bs)"
      using c(4) by (auto simp: c(7) [symmetric])
    show ?thesis
      by (intro exI conjI, rule run)
        (use 2(2-4) 1(3,4) held c(3,5,6,8) all False in \<open>auto simp: comp_def\<close>)
  qed
qed

text \<open>
  C23 (repair). When its commands commit with nothing in between and the first live replica has the
  bytes of the file, a repair returns whatever happens to network and disks. The file is complete
  again; it keeps identity and size. With no target to copy to, it keeps its replicas. Otherwise its
  replicas are the live ones followed by exactly the targets whose copy succeeded, in order, each with
  exactly the file's bytes; the repair is an error only if there are none. No data of another file
  changes on any node. A copy to a target that can be reached and works succeeds.
\<close>

theorem repair_outcome:
  assumes "commits codec raft [] t" "\<And>p. carries codec p" "mds_inv s"
    and "ns (root s) (splitPath (rt_path task)) = Some a" "\<not> e_isDir a"
    and "rt_replicas task \<noteq> []" "src = hd (rt_replicas task)"
    and "\<And>x. dn_inv (nodes x)" "holds (nodes (r_Addr src)) (r_RemotePath src) = Some bs"
    and "rt_size task = of_nat sz" "sz \<le> length bs" "length bs < 2 ^ 62"
    and "distinct aliveNodes" "tp = data_dir @ rt_fileID task"
    and "targets = selectTargetNodes (rt_replicas task) aliveNodes
      (replicaCount s - int (length (rt_replicas task)))"
    and "new = map (\<lambda>x. \<lparr>r_Addr = x, r_RemotePath = tp\<rparr>) (filter (copied dial peer env now nodes
      \<lparr>rf_SourceAddr = r_Addr src, rf_SourceRemotePath = r_RemotePath src, rf_TargetRemotePath = tp,
        rf_FileSize = rt_size task\<rparr>) targets)"
  shows "\<exists>err s' nodes'. repairFile codec raft (node_rpc dial peer env now) aliveNodes task s nodes =
      Some (err, s', nodes') \<and> mds_inv s' \<and> dataNodes s' = dataNodes s \<and>
    ns (root s') = (ns (root s))(splitPath (rt_path task) \<mapsto> a\<lparr>e_status := StatusComplete,
      e_replicas := (if targets = [] then e_replicas a else rt_replicas task @ new), e_modTime := t\<rparr>) \<and>
    err = (if targets = [] then Some ''no available target data node''
      else if new = [] then Some (''all '' @ show_nat (length targets) @ '' target replicas failed to copy'')
      else None) \<and>
    (\<forall>r \<in> set new. holds (nodes' (r_Addr r)) tp = Some (take sz bs)) \<and>
    (\<forall>x q. vcomps q \<noteq> vcomps tp \<longrightarrow> holds (nodes' x) q = holds (nodes x) q) \<and>
    (\<forall>x. x \<notin> set targets \<longrightarrow> nodes' x = nodes x) \<and> (\<forall>x. dn_inv (nodes' x)) \<and>
    ((\<forall>x \<in> set targets. good_target dial peer env now nodes (r_Addr src) tp x) \<longrightarrow> map r_Addr new = targets)"
  by (rule repair_effect [where nodes = nodes and src = src and bs = bs]; (rule assms)?)

text \<open>The file of \<^const>\<open>demo_server\<close> is repaired onto the empty nodes \<^verbatim>\<open>n2\<close> and \<^verbatim>\<open>n3\<close>.\<close>

definition three_nodes :: "string \<Rightarrow> data_node" where
  "three_nodes a = (if a = ''n1'' then demo_src else demo_dn)"

definition repair_task :: repairTask where
  "repair_task = \<lparr>rt_path = ''/d/f'', rt_fileID = ''F'', rt_size = 3, rt_replicas = [rep ''n1'' ''F'']\<rparr>"

lemma three_nodes_inv: "dn_inv (three_nodes x)"
  by (simp add: three_nodes_def demo_dn_inv demo_src_facts)

theorem repair_outcome_witness:
  "\<exists>s' nodes'. repairFile direct_codec (solo_raft direct_codec 9)
      (node_rpc (\<lambda>_. None) (\<lambda>_ _. None) (\<lambda>_. calm) 9) [''n3'', ''n1'', ''n2''] repair_task
      demo_server three_nodes = Some (None, s', nodes') \<and>
    holds (nodes' ''n2'') ''/data/F'' = Some [1, 2, 3] \<and> holds (nodes' ''n3'') ''/data/F'' = Some [1, 2, 3]"
proof -
  obtain a where a: "ns (root demo_server) (splitPath (rt_path repair_task)) = Some a" "\<not> e_isDir a"
  proof -
    have "case ns (root demo_server) (splitPath (rt_path repair_task)) of None \<Rightarrow> False
      | Some a \<Rightarrow> \<not> e_isDir a" by code_simp
    then show thesis using that by (auto split: option.splits)
  qed
  have src: "rep ''n1'' ''F'' = hd (rt_replicas repair_task)" "rt_replicas repair_task \<noteq> []"
    by (simp_all add: repair_task_def)
  have facts: "r_Addr (rep ''n1'' ''F'') = ''n1''" "r_RemotePath (rep ''n1'' ''F'') = ''/data/F''"
    "''/data/F'' = data_dir @ rt_fileID repair_task" "three_nodes ''n1'' = demo_src"
    "[''n3'', ''n2''] = selectTargetNodes (rt_replicas repair_task) [''n3'', ''n1'', ''n2'']
      (replicaCount demo_server - int (length (rt_replicas repair_task)))"
    "three_nodes ''n2'' = demo_dn" "three_nodes ''n3'' = demo_dn" by code_simp+
  have sz: "rt_size repair_task = of_nat 3" by (simp add: repair_task_def)
  have d: "distinct [''n3'', ''n1'', ''n2'']" by simp
  have w: "writable calm 9 demo_dn ''/data/F''" by code_simp
  have held: "holds (three_nodes (r_Addr (rep ''n1'' ''F''))) (r_RemotePath (rep ''n1'' ''F'')) = Some [1, 2, 3]"
    using facts(1,2,4) demo_src_facts by simp
  have good: "good_target (\<lambda>_. None) (\<lambda>_ _. None) (\<lambda>_. calm) 9 three_nodes (r_Addr (rep ''n1'' ''F''))
      ''/data/F'' x" if "x \<in> set [''n3'', ''n2'']" for x
    using that w facts(6,7) by (auto simp: good_target_def)
  from repair_outcome [where nodes = three_nodes, OF solo_commits direct_carries demo_server_inv a src(2,1) three_nodes_inv held sz
      _ _ d facts(3,5) refl, of 9 "\<lambda>_. None" "\<lambda>_ _. None" "\<lambda>_. calm" 9] good
  show ?thesis by (auto simp: comp_def)
qed

end
