(* ===== verification/Replication_Cycles.thy ===== *)
theory Replication_Cycles
  imports Replicator_Props
begin

text \<open>
  Whole repair cycles that do nothing but wait for their deadline.
\<close>

definition lost_rpc :: "data_node copy_rpc" where
  "lost_rpc = \<lparr>cr_dial = (\<lambda>_. Some ''connection refused''),
     cr_ReplicateFile = (\<lambda>addr args nodes. Some (Inl ''unreachable'', nodes addr))\<rparr>"

subsection \<open>Cycles that only wait\<close>

text \<open>A complete file with too few replicas and no live node without one.\<close>

definition starved :: "string list \<Rightarrow> Replica list \<Rightarrow> string \<Rightarrow> string list \<Rightarrow> int \<Rightarrow>
   (string \<times> bool) list \<Rightarrow> mds \<Rightarrow> bool" where
  "starved q rs fid nds rc marks s \<longleftrightarrow> mds_inv s \<and> dataNodes s = nds \<and> replicaCount s = rc \<and>
     repairing s = marks \<and>
     (\<exists>a. ns (root s) q = Some a \<and> \<not> e_isDir a \<and> e_status a = StatusComplete \<and> e_replicas a = rs \<and>
       e_fileID a = fid)"

lemma spec_update_elsewhere: "spec_update ok f p m = Some m' \<Longrightarrow> q \<noteq> p \<Longrightarrow> m' q = m q"
  by (auto simp: spec_update_def split: option.splits if_splits)

lemma submit_elsewhere:
  assumes "commits codec raft [] t" "\<And>p. carries codec p" "mds_inv s"
    and "p_Op p = OpUpdateStatus \<or> p_Op p = OpUpdateReplicas" "splitPath (p_Path p) \<noteq> q"
    and "submitCommand codec raft p s = (err, s')"
  shows "mds_inv s' \<and> dataNodes s' = dataNodes s \<and> replicaCount s' = replicaCount s \<and>
    repairing s' = repairing s \<and> ns (root s') q = ns (root s) q"
proof -
  note u = submit_update [OF assms(1-4,6)]
  have "ns (root s') q = ns (root s) q"
  proof (cases err)
    case None
    from u(5) [OF None] assms(4,5) show ?thesis
      by (auto simp: spec_apply_def op_names Let_def dest!: spec_update_elsewhere [OF _ assms(5) [symmetric]])
  next
    case (Some e)
    with u(6) show ?thesis by simp
  qed
  with u(1-4) show ?thesis by simp
qed

lemma starved_elsewhere:
  assumes "commits codec raft [] t" "\<And>p. carries codec p" "starved q rs fid nds rc marks s"
    and "p_Op p = OpUpdateStatus \<or> p_Op p = OpUpdateReplicas" "splitPath (p_Path p) \<noteq> q"
    and "submitCommand codec raft p s = (err, s')"
  shows "starved q rs fid nds rc marks s'"
  using submit_elsewhere [OF assms(1,2) _ assms(4-6)] assms(3) by (simp add: starved_def)

lemma rollback_elsewhere:
  assumes "commits codec raft [] t" "\<And>p. carries codec p" "starved q rs fid nds rc marks s" "splitPath path \<noteq> q"
  shows "starved q rs fid nds rc marks (rollbackStatus codec raft path s)"
proof -
  obtain err s' where "submitCommand codec raft (status_payload path StatusComplete) s = (err, s')"
    by (cases "submitCommand codec raft (status_payload path StatusComplete) s")
  with starved_elsewhere [OF assms(1-3) _ _ this] assms(4) show ?thesis by (simp add: rollbackStatus_def)
qed

text \<open>A repair of another path leaves the file starved.\<close>

lemma repair_elsewhere:
  assumes "commits codec raft [] t" "\<And>p. carries codec p" "starved q rs fid nds rc marks s"
    and "splitPath (rt_path task) \<noteq> q"
    and "repairFile codec raft rpc aliveNodes task s nodes = Some (err, s', nodes')"
  shows "starved q rs fid nds rc marks s'"
proof -
  obtain e1 s1 where 1: "submitCommand codec raft (status_payload (rt_path task) StatusRecovering) s = (e1, s1)"
    by (cases "submitCommand codec raft (status_payload (rt_path task) StatusRecovering) s")
  have st1: "starved q rs fid nds rc marks s1" by (rule starved_elsewhere [OF assms(1-3) _ _ 1]) (use assms(4) in simp_all)
  have commit: "starved q rs fid nds rc marks s3" if "commit_repair codec raft task n new s1 = (e, s3)" for n new e s3
  proof -
    let ?p = "replicas_payload (rt_path task) (rt_replicas task @ new)"
    obtain e2 s2 where 2: "submitCommand codec raft ?p s1 = (e2, s2)" by (cases "submitCommand codec raft ?p s1")
    have st2: "starved q rs fid nds rc marks s2" by (rule starved_elsewhere [OF assms(1,2) st1 _ _ 2]) (use assms(4) in simp_all)
    obtain e3 s3' where 3: "submitCommand codec raft (status_payload (rt_path task) StatusComplete) s2 = (e3, s3')"
      by (cases "submitCommand codec raft (status_payload (rt_path task) StatusComplete) s2")
    have st3: "starved q rs fid nds rc marks s3'" by (rule starved_elsewhere [OF assms(1,2) st2 _ _ 3]) (use assms(4) in simp_all)
    from that 2 3 st2 st3 show ?thesis
      by (auto simp: commit_repair_def Let_def split: option.splits)
  qed
  from assms(5) 1 st1 commit rollback_elsewhere [OF assms(1,2) st1 assms(4)] show ?thesis
    by (auto simp: repairFile_def Let_def split: option.splits if_splits prod.splits)
qed

text \<open>A repair of the file itself finds no target, or no live replica, and goes back to complete.\<close>

lemma repair_itself:
  assumes "commits codec raft [] t" "\<And>p. carries codec p" "starved q rs fid nds rc marks s"
    and "splitPath (rt_path task) = q" "rt_replicas task = live_replicas nds rs" "set nds \<subseteq> r_Addr ` set rs"
    and "repairFile codec raft rpc nds task s nodes = Some (err, s', nodes')"
  shows "starved q rs fid nds rc marks s'"
proof -
  obtain a where a: "ns (root s) q = Some a" "\<not> e_isDir a" "e_status a = StatusComplete"
    "e_replicas a = rs" "e_fileID a = fid" and s: "mds_inv s" "dataNodes s = nds" "replicaCount s = rc"
    "repairing s = marks"
    using assms(3) by (auto simp: starved_def)
  let ?a = "a\<lparr>e_status := StatusRecovering, e_modTime := t\<rparr>"
  have sub: "\<exists>s1. submitCommand codec raft (status_payload (rt_path task) st) s0 = (None, s1) \<and>
      mds_inv s1 \<and> ns (root s1) q = Some (a0\<lparr>e_status := st, e_modTime := t\<rparr>) \<and>
      dataNodes s1 = dataNodes s0 \<and> replicaCount s1 = replicaCount s0 \<and> repairing s1 = repairing s0"
    if "mds_inv s0" "ns (root s0) q = Some a0" "\<not> e_isDir a0" "st \<in> {StatusComplete, StatusRecovering}"
    for s0 a0 st
    by (rule submit_status [OF assms(1,2) that(1) _ that(2) [folded assms(4)] that(3), of st])
      (use that(4) assms(4) in auto)
  from sub [OF s(1) a(1,2), of StatusRecovering] obtain s1 where
    1: "submitCommand codec raft (status_payload (rt_path task) StatusRecovering) s = (None, s1)"
      "mds_inv s1" "ns (root s1) q = Some ?a" "dataNodes s1 = dataNodes s"
      "replicaCount s1 = replicaCount s" "repairing s1 = repairing s" by auto
  from sub [OF 1(2,3), of StatusComplete] a(2) obtain s2 where
    2: "submitCommand codec raft (status_payload (rt_path task) StatusComplete) s1 = (None, s2)"
      "mds_inv s2" "ns (root s2) q = Some (?a\<lparr>e_status := StatusComplete, e_modTime := t\<rparr>)"
      "dataNodes s2 = dataNodes s1" "replicaCount s2 = replicaCount s1" "repairing s2 = repairing s1" by auto
  have "set nds \<subseteq> r_Addr ` set (rt_replicas task)"
    using assms(5,6) by (force simp: live_replicas_def)
  then have "filter (\<lambda>x. x \<notin> r_Addr ` set (rt_replicas task)) nds = []" by (simp add: filter_empty_conv subset_iff)
  then have none: "selectTargetNodes (rt_replicas task) nds k = []" for k
    unfolding targets_eq by (simp only: take_Nil)
  have "s' = s2"
    using assms(7) 1(1) 2(1) none
    by (auto simp: repairFile_def rollbackStatus_def Let_def split: if_splits)
  with 1 2 a s show ?thesis by (simp add: starved_def)
qed

lemma tasks_starved:
  assumes "commits codec raft [] t" "\<And>p. carries codec p" "set nds \<subseteq> r_Addr ` set rs"
    and "starved q rs fid nds rc marks s" "map_of marks fid \<noteq> Some True"
    and "\<forall>task \<in> set tasks. splitPath (rt_path task) = q \<longrightarrow> rt_replicas task = live_replicas nds rs"
    and "repair_tasks codec raft rpc nds tasks s nodes = Some (s', nodes')"
  shows "\<exists>marks'. starved q rs fid nds rc marks' s' \<and> map_of marks' fid \<noteq> Some True"
  using assms(4-7)
proof (induction tasks arbitrary: marks s nodes)
  case Nil
  then show ?case by auto
next
  case (Cons task tasks)
  let ?id = "rt_fileID task"
  show ?case
  proof (cases "is_repairing s ?id")
    case True
    with Cons.IH [OF Cons.prems(1,2)] Cons.prems(3,4) show ?thesis by simp
  next
    case False
    let ?s = "s\<lparr>repairing := AList.update ?id True (repairing s)\<rparr>"
    obtain err s1 nodes1 where run: "repairFile codec raft rpc nds task ?s nodes = Some (err, s1, nodes1)"
      and rest: "repair_tasks codec raft rpc nds tasks (s1\<lparr>repairing := AList.delete ?id (repairing s1)\<rparr>)
        nodes1 = Some (s', nodes')"
      using Cons.prems(4) False by (auto simp: Let_def split: option.splits)
    have "starved q rs fid nds rc (AList.update ?id True marks) ?s"
      using Cons.prems(1) by (auto simp: starved_def mds_inv_def nodes_ok_def)
    then have "starved q rs fid nds rc (AList.update ?id True marks) s1"
      using repair_elsewhere [OF assms(1,2) _ _ run] repair_itself [OF assms(1,2) _ _ _ assms(3) run]
        Cons.prems(3) by (cases "splitPath (rt_path task) = q") auto
    then have "starved q rs fid nds rc (AList.delete ?id (AList.update ?id True marks))
        (s1\<lparr>repairing := AList.delete ?id (repairing s1)\<rparr>)"
      by (auto simp: starved_def mds_inv_def nodes_ok_def)
    from Cons.IH [OF this _ _ rest] Cons.prems(2,3) show ?thesis by simp
  qed
qed

text \<open>The scan never comes back empty, so the loop goes on until its deadline.\<close>

lemma starved_scan:
  assumes "starved q rs fid nds rc marks s" "map_of marks fid \<noteq> Some True"
    and "int (length (live_replicas nds rs)) < rc"
    and "findUnderReplicatedTasks replicateBatchSize s = (tasks, aliveNodes)"
  shows "tasks \<noteq> []" "aliveNodes = nds"
    "\<forall>task \<in> set tasks. splitPath (rt_path task) = q \<longrightarrow> rt_replicas task = live_replicas nds rs"
proof -
  obtain a where a: "ns (root s) q = Some a" "under_replicated s a" "e_replicas a = rs"
    and s: "mds_inv s" "dataNodes s = nds"
    using assms(1-3) by (auto simp: starved_def under_replicated_def is_repairing_def)
  let ?U = "{task_for (dataNodes s) (a, abs_path q) | q a. ns (root s) q = Some a \<and> under_replicated s a}"
  have f: "aliveNodes = dataNodes s \<and> length tasks \<le> replicateBatchSize \<and> set tasks \<subseteq> ?U \<and>
      (length tasks < replicateBatchSize \<longrightarrow> set tasks = ?U)"
    by (rule scan_sound [OF s(1) _ assms(4)]) (simp add: replicateBatchSize_def)
  then show "aliveNodes = nds" using s(2) by simp
  have "?U \<noteq> {}" using a by blast
  with f show "tasks \<noteq> []" by (auto simp: replicateBatchSize_def)
  have valid: "splitPath (abs_path p) = p" if "ns (root s) p = Some b" for p b
  proof -
    have "wf_entry (root s)" using s(1) by (simp add: mds_inv_def wf_root_def)
    with that show ?thesis
      by (intro splitPath_abs_path) (auto simp: ns_def dest: wf_entry_lookup_valid)
  qed
  show "\<forall>task \<in> set tasks. splitPath (rt_path task) = q \<longrightarrow> rt_replicas task = live_replicas nds rs"
  proof (intro ballI impI)
    fix task assume "task \<in> set tasks" "splitPath (rt_path task) = q"
    with f obtain p b where "task = task_for (dataNodes s) (b, abs_path p)" "ns (root s) p = Some b"
      "splitPath (rt_path task) = q" by blast
    moreover from this valid have "p = q" by (simp add: task_for_def)
    ultimately show "rt_replicas task = live_replicas nds rs" using a s(2) by (simp add: task_for_def)
  qed
qed

lemma starved_loop:
  assumes "commits codec raft [] t" "\<And>p. carries codec p" "set nds \<subseteq> r_Addr ` set rs"
    and "int (length (live_replicas nds rs)) < rc"
    and "starved q rs fid nds rc marks s" "map_of marks fid \<noteq> Some True"
    and "replication_loop codec raft rpc clock deadline i s nodes = Some r"
  shows "\<exists>j. clock j > deadline"
proof -
  define P where "P = (\<lambda>c ra (rp :: 'b copy_rpc) cl dl (i :: nat) s
    (ns :: string \<Rightarrow> 'b) (r :: mds \<times> (string \<Rightarrow> 'b)). c = codec \<and> ra = raft \<and>
    (\<exists>marks. starved q rs fid nds rc marks s \<and> map_of marks fid \<noteq> Some True) \<longrightarrow> (\<exists>j :: nat. cl j > (dl :: time)))"
  have "P codec raft rpc clock deadline i s nodes r"
  proof (rule replication_loop.raw_induct [where P = P, OF _ assms(7)])
    fix loop c ra rp cl dl i s ns r
    assume IH: "\<And>c ra rp cl dl i s ns r. loop c ra rp cl dl i s ns = Some r \<Longrightarrow> P c ra rp cl dl i s ns r"
      and body: "(if dl < cl i then Some (s, ns)
        else let (tasks, aliveNodes) = findUnderReplicatedTasks replicateBatchSize s in
          if length tasks = 0 then Some (s, ns)
          else case repair_tasks c ra rp aliveNodes tasks s ns of None \<Rightarrow> None
            | Some (s, ns) \<Rightarrow> loop c ra rp cl dl (Suc i) s ns) = Some r"
    show "P c ra rp cl dl i s ns r"
      unfolding P_def
    proof (intro impI, elim conjE exE)
      fix marks
      assume eq: "c = codec" "ra = raft" and st: "starved q rs fid nds rc marks s"
        "map_of marks fid \<noteq> Some True"
      show "\<exists>j. cl j > dl"
      proof (cases "cl i > dl")
        case False
        obtain tasks aliveNodes where t: "findUnderReplicatedTasks replicateBatchSize s = (tasks, aliveNodes)"
          by (cases "findUnderReplicatedTasks replicateBatchSize s")
        note sc = starved_scan [OF st assms(4) t]
        from body False t sc(1,2) eq obtain s1 ns1 where
          run: "repair_tasks codec raft rp nds tasks s ns = Some (s1, ns1)"
          and rest: "loop codec raft rp cl dl (Suc i) s1 ns1 = Some r"
          by (auto split: option.splits)
        from tasks_starved [OF assms(1-3) st sc(3) run] IH [OF rest] show ?thesis by (auto simp: P_def)
      qed blast
    qed
  qed
  with assms(5,6) show ?thesis by (auto simp: P_def)
qed

text \<open>
  C26 (cycles that cannot help). A complete file with too few live replicas, when every registered
  node already has one (or none is alive), keeps the repair loop spinning: the cycle does not end before
  its deadline of five minutes has passed.
\<close>

theorem replication_spins:
  assumes "commits codec raft [] t" "\<And>p. carries codec p" "mds_inv s"
    and "ns (root s) q = Some a" "under_replicated s a" "set (dataNodes s) \<subseteq> r_Addr ` set (e_replicas a)"
    and "runReplication codec raft rpc start clock s nodes = Some r"
  shows "\<exists>i. clock i > start + 5 * minute"
proof -
  have "starved q (e_replicas a) (e_fileID a) (dataNodes s) (replicaCount s) (repairing s) s"
    and "map_of (repairing s) (e_fileID a) \<noteq> Some True"
    and "int (length (live_replicas (dataNodes s) (e_replicas a))) < replicaCount s"
    using assms(3-5) by (simp_all add: starved_def under_replicated_def is_repairing_def)
  with starved_loop [OF assms(1,2,6)] assms(7) show ?thesis
    unfolding runReplication_def replicateScanTimeout_def by blast
qed

theorem replication_spins_witness:
  "\<not> (\<exists>r. runReplication direct_codec (solo_raft direct_codec 9) lost_rpc 0 (\<lambda>_. 5 * minute)
      demo_server three_nodes = Some r)"
proof -
  obtain a where a: "ns (root demo_server) [''d'', ''f''] = Some a" "under_replicated demo_server a"
    "set (dataNodes demo_server) \<subseteq> r_Addr ` set (e_replicas a)"
  proof -
    have "case ns (root demo_server) [''d'', ''f''] of None \<Rightarrow> False | Some a \<Rightarrow> under_replicated demo_server a \<and>
      set (dataNodes demo_server) \<subseteq> r_Addr ` set (e_replicas a)" by code_simp
    then show thesis using that by (auto split: option.splits)
  qed
  from replication_spins [OF solo_commits direct_carries demo_server_inv a, where start = 0 and clock = "\<lambda>_. 5 * minute"]
  show ?thesis by auto
qed

end
