(* ===== verification/Repair_Race.thy ===== *)
theory Repair_Race
  imports Replication_Cycles
begin

text \<open>
  What commands of clients can do in the middle of a repair. The repair names the file by its path in
  each of its commands, and holds no lock between them.
\<close>

text \<open>
  A leader whose log gets the commands \<open>others\<close> while the copies of a repair are made, just before the
  command that records the new replicas; nothing else comes in between.
\<close>

definition races :: "'d codec \<Rightarrow> 'd raft_node \<Rightarrow> 'd log_entry list \<Rightarrow> time \<Rightarrow> bool" where
  "races codec raft others t \<longleftrightarrow> (\<forall>op data s. Do raft op data s =
     Do (solo_raft codec t) op data (if op = OpUpdateReplicas then replay (log_step codec) others s else s))"

lemma races_submit:
  assumes "races codec raft others t" "carries codec p"
  shows "submitCommand codec raft p s = submitCommand codec (solo_raft codec t) p
    (if p_Op p = OpUpdateReplicas then replay (log_step codec) others s else s)"
proof -
  obtain data where "Marshal codec p = Inr data" using assms(2) by (auto simp: carries_def)
  with assms(1) show ?thesis by (simp add: submitCommand_def races_def)
qed

text \<open>A file moves to another path, and a new one is made where it was.\<close>

lemma moved_and_replaced:
  assumes inv: "mds_inv s" and a: "ns (root s) q = Some a" "\<not> e_isDir a" and ne: "q2 \<noteq> q"
    and dst: "is_dir_at (ns (root s)) (butlast q2)" "\<not> is_dir_at (ns (root s)) q2"
    and pr: "splitPath (p_Path pr) = q" "splitPath (p_DstPath pr) = q2"
    and pc: "splitPath (p_Path pc) = q"
  obtains s1 s2 where "applyRename u pr s = Inr s1" "applyCreateFile v pc s1 = Inr s2" "mds_inv s2"
    "\<exists>b. ns (root s2) q = Some b \<and> \<not> e_isDir b \<and> e_fileID b = p_FileID pc"
    "ns (root s2) q2 = Some (a\<lparr>e_name := last q2, e_modTime := u\<rparr>)"
proof -
  let ?m = "ns (root s)"
  have nodir: "\<not> is_dir_at ?m q" "is_file_at ?m q" using a by (simp_all add: is_dir_at_def is_file_at_def)
  have "is_dir_at ?m []" using inv by (auto simp: mds_inv_def wf_root_def is_dir_at_ns)
  with nodir(1) dst(2) have nonempty: "q \<noteq> []" "q2 \<noteq> []" by auto
  have below: "\<not> prefix q (butlast q2)"
    using no_dir_below_file [OF inv _ nodir(1)] a dst(1) by auto
  have up: "is_dir_at ?m (butlast q)" using parent_of_existing [OF inv] a nonempty(1) by auto
  have above: "\<not> prefix q2 q"
  proof
    assume p: "prefix q2 q"
    have "?m q2 = None \<or> is_file_at ?m q2" using dst(2) by (auto simp: is_dir_at_def is_file_at_def split: option.splits)
    from ns_below_None [OF inv_wf [OF inv] this p] ne a(1) show False by simp
  qed
  have "?m q \<noteq> None" using a(1) by simp
  from rename_moves [OF inv pr nonempty this below dst] obtain s1 where
    s1: "applyRename u pr s = Inr s1" "ns (root s1) = spec_moved u q q2 ?m" by blast
  have inv1: "mds_inv s1" using apply_payload_inv [OF inv, of u OpRename pr] s1(1)
    by (simp add: apply_payload_def op_names)
  have m1: "ns (root s1) q = None" "ns (root s1) q2 = Some (a\<lparr>e_name := last q2, e_modTime := u\<rparr>)"
    using above ne a(1) by (auto simp: s1(2) spec_moved_def)
  have "butlast q \<noteq> q2" "\<not> prefix q2 (butlast q)" "\<not> prefix q (butlast q)"
    using above prefix_order.trans [OF _ prefix_butlast [of q], of q2] up dst(2) nonempty(1)
    by (auto dest: prefix_length_le)
  then have up1: "is_dir_at (ns (root s1)) (butlast q)"
    using up by (auto simp: s1(2) spec_moved_def is_dir_at_def touched_def split: option.splits)
  have "result_ns (applyCreateFile v pc s1) = spec_create v q pc (ns (root s1))"
    using success_ns(2) [OF inv1, of v pc] by (simp add: pc)
  also have "\<dots> = Some ((ns (root s1))(q \<mapsto> attr (new_file v v (last q) (p_FileID pc) pc),
      butlast q := touched v (ns (root s1) (butlast q))))"
    using nonempty(1) up1 m1(1) by (simp add: spec_create_def is_dir_at_def is_file_at_def)
  finally obtain s2 where s2: "applyCreateFile v pc s1 = Inr s2"
    "ns (root s2) = (ns (root s1))(q \<mapsto> attr (new_file v v (last q) (p_FileID pc) pc),
      butlast q := touched v (ns (root s1) (butlast q)))" using result_ns_Some by blast
  have inv2: "mds_inv s2" using apply_payload_inv [OF inv1, of v OpCreateFile pc] s2(1)
    by (simp add: apply_payload_def op_names)
  have "butlast q \<noteq> q" using nonempty(1) by (metis length_butlast diff_less length_greater_0_conv less_irrefl zero_less_one)
  then have "ns (root s2) q = Some (attr (new_file v v (last q) (p_FileID pc) pc))"
    "ns (root s2) q2 = Some (a\<lparr>e_name := last q2, e_modTime := u\<rparr>)"
    using m1(2) ne \<open>butlast q \<noteq> q2\<close> by (auto simp: s2(2))
  with that [OF s1(1) s2(1) inv2] show thesis by (simp add: new_file_def)
qed

text \<open>No scan looks at a recovering file.\<close>

lemma recovering_not_scanned:
  assumes "mds_inv s" "ns (root s) q = Some a" "e_status a = StatusRecovering" "0 < k"
    and "task \<in> set (fst (findUnderReplicatedTasks k s))"
  shows "rt_path task \<noteq> abs_path q"
proof
  assume p: "rt_path task = abs_path q"
  obtain tasks alive where f: "findUnderReplicatedTasks k s = (tasks, alive)"
    by (cases "findUnderReplicatedTasks k s")
  with scan_sound [OF assms(1,4) f] assms(5) obtain q' b where b: "ns (root s) q' = Some b" "under_replicated s b"
    "task = task_for (dataNodes s) (b, abs_path q')" by auto
  have "splitPath (abs_path r) = r" if "ns (root s) r = Some c" for r c
    using that assms(1)
    by (intro splitPath_abs_path) (auto simp: ns_def mds_inv_def wf_root_def dest: wf_entry_lookup_valid)
  with b(1,3) p assms(2) have "q' = q" by (metis repairTask.select_convs(1) snd_conv task_for_def)
  with b assms(2,3) show False by (simp add: under_replicated_def)
qed

text \<open>
  C27 (repair by path). While the copies of a repair are made, a client moves the file to another
  path, below an existing directory and not onto one, and creates a file under the old name; these
  commands commit before the repair records its replicas. Whatever server, task and copies: the repair
  hands the replicas of the moved file, with the new copies, to the new file and marks it complete, so
  it is read with the other file's data. The moved file keeps its identity and replicas and stays
  recovering: it refuses to change size, and no scan reports it.
\<close>

theorem repair_races_rename:
  assumes "mds_inv s" "\<And>p. carries codec p" "q = splitPath (rt_path task)" "q2 = splitPath dst" "q2 \<noteq> q"
    and "ns (root s) q = Some a" "\<not> e_isDir a"
    and "is_dir_at (ns (root s)) (butlast q2)" "\<not> is_dir_at (ns (root s)) q2"
    and "rt_replicas task \<noteq> []" "targets = selectTargetNodes (rt_replicas task) aliveNodes
      (replicaCount s - int (length (rt_replicas task)))" "targets \<noteq> []"
    and "copy_all rpc (rt_replicas task ! 0) (rt_fileID task) (rt_size task) targets nodes = Some (results, nodes')"
    and "new = map fst (filter (\<lambda>r. snd r = None) results)"
    and "races codec raft [(u, OpRename, d), (v, OpCreateFile, d')] t"
    and "Unmarshal codec d = Inr pr" "p_Path pr = rt_path task" "p_DstPath pr = dst"
    and "Unmarshal codec d' = Inr pc" "p_Path pc = rt_path task"
  shows "\<exists>err s'. repairFile codec raft rpc aliveNodes task s nodes = Some (err, s', nodes') \<and>
    GetFileLocation (rt_path task) s' = Inr \<lparr>fl_FileID = p_FileID pc, fl_Replicas = rt_replicas task @ new,
      fl_Status = StatusComplete\<rparr> \<and>
    GetFileLocation dst s' = Inr \<lparr>fl_FileID = e_fileID a, fl_Replicas = e_replicas a,
      fl_Status = StatusRecovering\<rparr> \<and>
    (\<forall>w p. p_Path p = dst \<longrightarrow> applyUpdateSize w p s' = Inl (''file is recovering, write not allowed: '' @ dst)) \<and>
    (\<forall>k task'. 0 < k \<and> task' \<in> set (fst (findUnderReplicatedTasks k s')) \<longrightarrow> rt_path task' \<noteq> abs_path q2)"
proof -
  let ?others = "[(u, OpRename, d), (v, OpCreateFile, d')]" and ?solo = "solo_raft codec t"
  note sub = races_submit [OF assms(15,2)]
  let ?a = "a\<lparr>e_status := StatusRecovering, e_modTime := t\<rparr>"
  obtain s1 where s1: "submitCommand codec ?solo (status_payload (rt_path task) StatusRecovering) s = (None, s1)"
    "mds_inv s1" "ns (root s1) = (ns (root s))(q \<mapsto> ?a)" "replicaCount s1 = replicaCount s"
    by (rule submit_status [OF solo_commits assms(2,1) _ assms(6) [unfolded assms(3)] assms(7),
      where t = t and st = StatusRecovering]) (auto simp: assms(3))
  have "butlast q2 \<noteq> q" using assms(6-8) by (auto simp: is_dir_at_def)
  then have dst: "is_dir_at (ns (root s1)) (butlast q2)" "\<not> is_dir_at (ns (root s1)) q2"
    using assms(5,8,9) by (simp_all add: s1(3) is_dir_at_def)
  have a1: "ns (root s1) q = Some ?a" "\<not> e_isDir ?a" using assms(7) by (simp_all add: s1(3))
  have paths: "splitPath (p_Path pr) = q" "splitPath (p_DstPath pr) = q2" "splitPath (p_Path pc) = q"
    by (simp_all add: assms(3,4,17,18,20))
  obtain sr s2 where s2: "applyRename u pr s1 = Inr sr" "applyCreateFile v pc sr = Inr s2" "mds_inv s2"
    "\<exists>b. ns (root s2) q = Some b \<and> \<not> e_isDir b \<and> e_fileID b = p_FileID pc"
    "ns (root s2) q2 = Some (?a\<lparr>e_name := last q2, e_modTime := u\<rparr>)"
    by (rule moved_and_replaced [OF s1(2) a1 assms(5) dst paths, of u v])
  have replayed: "replay (log_step codec) ?others s1 = s2"
    using s2(1,2) assms(16,19) by (simp add: Apply_def apply_payload_def op_names)
  have status: "submitCommand codec raft (status_payload path st) x = submitCommand codec ?solo (status_payload path st) x"
    for path st x using sub [of "status_payload path st" x] by (simp add: op_names)
  have recorded: "submitCommand codec raft (replicas_payload path rs) s1 = submitCommand codec ?solo (replicas_payload path rs) s2"
    for path rs using sub [of "replicas_payload path rs" s1] unfolding replayed by simp
  obtain b where b: "ns (root s2) q = Some b" "\<not> e_isDir b" "e_fileID b = p_FileID pc" using s2(4) by blast
  let ?rs = "rt_replicas task @ new" and ?n = "length targets"
  have "?rs \<noteq> []" using assms(10) by simp
  from submit_replicas [OF solo_commits assms(2) s2(3) this b(1) [unfolded assms(3)] b(2), where t = t]
  obtain s3 where s3: "submitCommand codec ?solo (replicas_payload (rt_path task) ?rs) s2 = (None, s3)"
    "mds_inv s3" "ns (root s3) = (ns (root s2))(q \<mapsto> b\<lparr>e_replicas := ?rs, e_modTime := t\<rparr>)"
    unfolding assms(3) by metis
  let ?b = "b\<lparr>e_replicas := ?rs, e_modTime := t\<rparr>"
  have b3: "ns (root s3) q = Some ?b" "\<not> e_isDir ?b" using b(2) by (simp_all add: s3(3))
  obtain s4 where s4: "submitCommand codec ?solo (status_payload (rt_path task) StatusComplete) s3 = (None, s4)"
    "mds_inv s4" "ns (root s4) = (ns (root s3))(q \<mapsto> ?b\<lparr>e_status := StatusComplete, e_modTime := t\<rparr>)"
    by (rule submit_status [OF solo_commits assms(2) s3(2) _ b3(1) [unfolded assms(3)] b3(2),
      where t = t and st = StatusComplete]) (auto simp: assms(3))
  have "\<exists>err. repairFile codec raft rpc aliveNodes task s nodes = Some (err, s4, nodes')"
    using s1(1) s3(1) s4(1) assms(10,12,13)
    by (simp add: repairFile_def commit_repair_def Let_def status recorded assms(11,14) [symmetric])
  moreover have at: "ns (root s4) q2 = Some (?a\<lparr>e_name := last q2, e_modTime := u\<rparr>)"
    using s2(5) assms(5) by (simp add: s4(3) s3(3))
  moreover have "GetFileLocation path s' = Inr \<lparr>fl_FileID = e_fileID c, fl_Replicas = e_replicas c, fl_Status = e_status c\<rparr>"
    if "ns (root s') (splitPath path) = Some c" "\<not> e_isDir c" for path s' c
    using that by (auto simp: GetFileLocation_def lookup_def ns_def)
  note loc = this [of s4 "rt_path task", folded assms(3)] this [of s4 dst, folded assms(4)]
  moreover have "applyUpdateSize w p s4 = Inl (''file is recovering, write not allowed: '' @ dst)" if "p_Path p = dst" for w p
    using at that assms(4,7) by (auto simp: applyUpdateSize_def lookup_def ns_def)
  ultimately show ?thesis
    using recovering_not_scanned [OF s4(2) at] assms(7) b(2,3) loc(1) [of "?b\<lparr>e_status := StatusComplete, e_modTime := t\<rparr>"]
    by (auto simp: s4(3))
qed

text \<open>The file of \<^const>\<open>demo_server\<close> is renamed in the middle of its repair.\<close>

definition race_log :: "commandPayload log_entry list" where
  "race_log =
     [(8, OpRename, zero_payload\<lparr>p_Path := ''/d/f'', p_DstPath := ''/d/g''\<rparr>),
      (8, OpCreateFile, zero_payload\<lparr>p_Path := ''/d/f'', p_FileID := ''N'',
                                    p_Replicas := [rep ''n2'' ''N'']\<rparr>)]"

definition race_raft :: "commandPayload raft_node" where
  "race_raft = (solo_raft direct_codec 9)\<lparr>Do := (\<lambda>op data s. Do (solo_raft direct_codec 9) op data
     (if op = OpUpdateReplicas then replay (log_step direct_codec) race_log s else s))\<rparr>"

theorem repair_races_rename_witness:
  "\<exists>err s' nodes'. repairFile direct_codec race_raft lost_rpc [''n1'', ''n2''] repair_task demo_server three_nodes =
      Some (err, s', nodes') \<and>
    GetFileLocation ''/d/f'' s' = Inr \<lparr>fl_FileID = ''N'', fl_Replicas = [rep ''n1'' ''F''], fl_Status = StatusComplete\<rparr>"
proof -
  let ?pr = "zero_payload\<lparr>p_Path := ''/d/f'', p_DstPath := ''/d/g''\<rparr>"
  let ?pc = "zero_payload\<lparr>p_Path := ''/d/f'', p_FileID := ''N'', p_Replicas := [rep ''n2'' ''N'']\<rparr>"
  let ?copies = "copy_all lost_rpc (rt_replicas repair_task ! 0) (rt_fileID repair_task) (rt_size repair_task) [''n2''] three_nodes"
  have q: "[''d'', ''f''] = splitPath (rt_path repair_task)" "[''d'', ''g''] = splitPath ''/d/g''" by code_simp+
  obtain a where a: "ns (root demo_server) [''d'', ''f''] = Some a" "\<not> e_isDir a"
  proof -
    have "case ns (root demo_server) [''d'', ''f''] of None \<Rightarrow> False | Some a \<Rightarrow> \<not> e_isDir a" by code_simp
    then show thesis using that by (auto split: option.splits)
  qed
  have dst: "is_dir_at (ns (root demo_server)) (butlast [''d'', ''g''])" "\<not> is_dir_at (ns (root demo_server)) [''d'', ''g'']"
    by code_simp+
  have t: "rt_replicas repair_task \<noteq> []" "[''n2''] = selectTargetNodes (rt_replicas repair_task) [''n1'', ''n2'']
      (replicaCount demo_server - int (length (rt_replicas repair_task)))" by code_simp+
  have "map_option (\<lambda>x. map fst (filter (\<lambda>r. snd r = None) (fst x))) ?copies = Some []" by code_simp
  then obtain results nodes' where c: "?copies = Some (results, nodes')"
    "[] = map fst (filter (\<lambda>r. snd r = None) results)" by auto
  have r: "races direct_codec race_raft [(8, OpRename, ?pr), (8, OpCreateFile, ?pc)] 9"
    by (simp add: races_def race_raft_def race_log_def)
  have u: "Unmarshal direct_codec ?pr = Inr ?pr" "Unmarshal direct_codec ?pc = Inr ?pc" by (simp_all add: direct_codec_def)
  have p: "p_Path ?pr = rt_path repair_task" "p_Path ?pc = rt_path repair_task" by (simp_all add: repair_task_def)
  from repair_races_rename [OF demo_server_inv direct_carries q _ a dst t _ c r u(1) p(1) _ u(2) p(2)]
  show ?thesis by (fastforce simp: repair_task_def)
qed

end
