(* ===== verification/Sound_States.thy ===== *)
theory Sound_States
  imports Identities Gc_Props Service_Props Replication_Cycles
begin

text \<open>
  The states of a metadata server that clients, the collector and the repair rely on: each file has at
  least one replica, all its replicas are at different nodes, no two files share an identity, and the
  replicas of a file lie under its identity. Every handler, a collection and a repair cycle lead from
  such a state to such a state, with one exception: a creation over an existing file puts replicas
  under another identity (\<open>overwritten_file_lost\<close>). The parameter \<open>over\<close> says whether such
  creations are allowed; with them the last part is given up and all the others stay.
\<close>

subsection \<open>Sound files\<close>

definition good_replicas :: "bool \<Rightarrow> string \<Rightarrow> Replica list \<Rightarrow> bool" where
  "good_replicas over fid rs \<longleftrightarrow> rs \<noteq> [] \<and> (over \<or> placed_at fid rs) \<and> distinct (map r_Addr rs)"

definition sound_file :: "bool \<Rightarrow> entry_attr \<Rightarrow> bool" where
  "sound_file over a \<longleftrightarrow> e_isDir a \<or> clean_name (e_fileID a) \<and> good_replicas over (e_fileID a) (e_replicas a)"

definition sound :: "bool \<Rightarrow> mds \<Rightarrow> bool" where
  "sound over s \<longleftrightarrow> mds_inv s \<and> ns_all (sound_file over) (ns (root s)) \<and> distinct_ids (ns (root s))"

lemma sound_new: "sound over (NewMetadataServer created modified)"
proof -
  have "ns (root (NewMetadataServer created modified)) = [[] \<mapsto> attr (new_root created modified)]"
    by (rule ext) (simp add: NewMetadataServer_def new_root_def)
  then show ?thesis
    by (auto simp: sound_def mds_inv_new ns_all_def sound_file_def new_root_def distinct_ids_def identities_def
        split: if_splits)
qed

text \<open>A command that keeps files sound.\<close>

definition sound_command :: "bool \<Rightarrow> commandPayload \<Rightarrow> namespace \<Rightarrow> bool" where
  "sound_command over p m \<longleftrightarrow>
     (p_Op p = OpCreateFile \<longrightarrow> clean_name (p_FileID p) \<and> good_replicas over (p_FileID p) (p_Replicas p) \<and>
        (over \<or> p_CreateMode p \<noteq> OverwriteIfExists) \<and> (\<forall>q. identities m q \<noteq> Some (p_FileID p))) \<and>
     (p_Op p = OpUpdateReplicas \<longrightarrow> (\<forall>a. m (splitPath (p_Path p)) = Some a \<and> \<not> e_isDir a \<longrightarrow>
        good_replicas over (e_fileID a) (p_NewReplicas p)))"

lemma stable_sound_file [simp]: "stable (sound_file over)"
  by (simp add: stable_def sound_file_def)

lemma good_replicas_over: "good_replicas True f rs \<longleftrightarrow> good_replicas True g rs"
  by (simp add: good_replicas_def)

lemma sound_file_simps [simp]:
  "sound_file over (a\<lparr>e_modTime := t\<rparr>) = sound_file over a"
  "sound_file over (a\<lparr>e_status := st\<rparr>) = sound_file over a"
  "sound_file over (a\<lparr>e_size := sz\<rparr>) = sound_file over a"
  "sound_file over (attr (new_dir t name fid))"
  by (simp_all add: sound_file_def new_dir_def)

lemma spec_create_sound:
  assumes "spec_create now q p m = Some m'" "ns_all (sound_file over) m"
    and "clean_name (p_FileID p)" "good_replicas over (p_FileID p) (p_Replicas p)"
    and "over \<or> p_CreateMode p \<noteq> OverwriteIfExists"
  shows "ns_all (sound_file over) m'"
  using assms(1,2) stable_sound_file
proof (rule spec_create_all)
  show "sound_file over (attr (new_file now now (last q) (p_FileID p) p))"
    using assms(3,4) by (simp add: sound_file_def new_file_def)
next
  fix a assume a: "m q = Some a" "\<not> e_isDir a" "p_CreateMode p = OverwriteIfExists"
  with assms(2) have "clean_name (e_fileID a)" by (auto simp: ns_all_def sound_file_def)
  with a(3) assms(4,5) good_replicas_over [of "p_FileID p" "p_Replicas p" "e_fileID a"]
  show "sound_file over (attr (new_file now (e_createdAt a) (last q) (e_fileID a) p))"
    by (simp add: sound_file_def new_file_def)
qed

lemma spec_replicas_sound:
  assumes "spec_update ok (\<lambda>a. a\<lparr>e_replicas := rs, e_modTime := now\<rparr>) q m = Some m'" "ns_all (sound_file over) m"
    and "\<And>a. m q = Some a \<Longrightarrow> \<not> e_isDir a \<Longrightarrow> good_replicas over (e_fileID a) rs"
  shows "ns_all (sound_file over) m'"
  using assms(1,2) by (rule spec_update_all) (use assms(3) in \<open>auto simp: sound_file_def\<close>)

lemma spec_apply_sound:
  assumes "spec_apply now (p_Op p) p m = Some m'" "ns_all (sound_file over) m" "sound_command over p m"
  shows "ns_all (sound_file over) m'"
proof -
  have "ns_all (sound_file over) m'" if "p_Op p = OpUpdateReplicas"
  proof -
    have "spec_update (\<lambda>_. p_NewReplicas p \<noteq> [])
        (\<lambda>a. a\<lparr>e_replicas := p_NewReplicas p, e_modTime := now\<rparr>) (splitPath (p_Path p)) m = Some m'"
      using assms(1) that by (simp add: spec_apply_def op_names Let_def)
    then show ?thesis
      by (rule spec_replicas_sound [OF _ assms(2)]) (use assms(3) that in \<open>simp add: sound_command_def\<close>)
  qed
  moreover have "ns_all (sound_file over) m'" if "p_Op p = OpCreateFile"
  proof -
    have "spec_create now (splitPath (p_Path p)) p m = Some m'"
      using assms(1) that by (simp add: spec_apply_def op_names Let_def)
    then show ?thesis
      by (rule spec_create_sound [OF _ assms(2)]) (use assms(3) that in \<open>simp_all add: sound_command_def\<close>)
  qed
  moreover have "ns_all (sound_file over) m'" if "p_Op p \<noteq> OpUpdateReplicas" "p_Op p \<noteq> OpCreateFile"
    using assms(1,2) that
    by (auto simp: spec_apply_def Let_def split: if_splits
        elim!: spec_mkdir_all spec_delete_all spec_rename_all spec_update_all)
  ultimately show ?thesis by blast
qed

subsection \<open>Commands\<close>

text \<open>
  A Raft library that returns once the command is applied, at a time of its own choice, with nothing
  else in flight.
\<close>

definition prompt :: "'d codec \<Rightarrow> 'd raft_node \<Rightarrow> bool" where
  "prompt codec raft \<longleftrightarrow> (\<forall>op data s. \<exists>t. Do raft op data s =
     (case Apply codec t op data s of Inl err \<Rightarrow> (Some err, s) | Inr s' \<Rightarrow> (None, s')))"

lemma commits_prompt: "commits codec raft [] t \<Longrightarrow> prompt codec raft"
  by (auto simp: commits_def prompt_def Let_def)

lemma submit_cases:
  assumes "prompt codec raft" "carries codec p" "submitCommand codec raft p s = (e, s')"
  shows "(\<exists>err. e = Some err) \<and> s' = s \<or> e = None \<and> (\<exists>t. apply_payload t (p_Op p) p s = Inr s')"
proof -
  obtain data where d: "Marshal codec p = Inr data" "Unmarshal codec data = Inr p"
    using assms(2) by (auto simp: carries_def)
  obtain t where "Do raft (p_Op p) data s =
      (case Apply codec t (p_Op p) data s of Inl err \<Rightarrow> (Some err, s) | Inr s' \<Rightarrow> (None, s'))"
    using assms(1) unfolding prompt_def by blast
  with assms(3) d show ?thesis
    by (cases "apply_payload t (p_Op p) p s") (auto simp: submitCommand_def Apply_def)
qed

lemma submit_sound:
  assumes "prompt codec raft" "carries codec p" "sound over s" "sound_command over p (ns (root s))"
    and "submitCommand codec raft p s = (e, s')"
  shows "sound over s'"
proof (cases "s' = s")
  case False
  with submit_cases [OF assms(1,2,5)] obtain t where a: "apply_payload t (p_Op p) p s = Inr s'" by blast
  have inv: "mds_inv s" using assms(3) by (simp add: sound_def)
  have "spec_apply t (p_Op p) p (ns (root s)) = Some (ns (root s'))"
    by (rule apply_payload_ns [OF inv_wf [OF inv] a])
  from spec_apply_sound [OF this _ assms(4)] spec_apply_identities [OF this] assms(3,4) apply_payload_inv [OF inv a]
  show ?thesis by (simp add: sound_def sound_command_def)
qed (use assms(3) in simp)

subsection \<open>Commands in flight\<close>

text \<open>
  The commands that other clients, and the removals of the health check, can have in flight: all
  kinds but the new replica lists of a repair. A creation is one that \<^const>\<open>CreateFile\<close> submits,
  with the replicas that some server in good order selected for the drawn identity.
\<close>

definition file_creation :: "bool \<Rightarrow> commandPayload \<Rightarrow> bool" where
  "file_creation over p \<longleftrightarrow> (\<exists>s args buf rs. mds_inv s \<and> dataNodes s \<noteq> [] \<and> length buf = 16 \<and>
     (over \<or> cf_CreateMode args \<noteq> OverwriteIfExists) \<and>
     selectDataNodes s (cf_Path args) (hex_encode buf) (replicaCount s) = Some rs \<and>
     p = create_payload args (hex_encode buf) rs)"

definition client_command :: "bool \<Rightarrow> commandPayload \<Rightarrow> bool" where
  "client_command over p \<longleftrightarrow> p_Op p \<noteq> OpUpdateReplicas \<and> (p_Op p = OpCreateFile \<longrightarrow> file_creation over p)"

definition unused :: "string \<Rightarrow> mds \<Rightarrow> bool" where
  "unused fid s \<longleftrightarrow> (\<forall>q. identities (ns (root s)) q \<noteq> Some fid)"

text \<open>
  A log of such commands from a state on: each creation brings an identity that is unused when it is
  applied and is none of \<open>avoid\<close>. Entries that do not decode are refused.
\<close>

fun client_log :: "bool \<Rightarrow> string set \<Rightarrow> 'd codec \<Rightarrow> 'd log_entry list \<Rightarrow> mds \<Rightarrow> bool" where
  "client_log over avoid codec [] s = True"
| "client_log over avoid codec ((now, op, data) # es) s =
     ((case Unmarshal codec data of Inl _ \<Rightarrow> True
       | Inr p \<Rightarrow> p_Op p = op \<and> client_command over p \<and>
           (op = OpCreateFile \<longrightarrow> p_FileID p \<notin> avoid \<and> unused (p_FileID p) s)) \<and>
      client_log over avoid codec es (case log_step codec (now, op, data) s of Inl _ \<Rightarrow> s | Inr s' \<Rightarrow> s'))"

text \<open>
  A Raft library that commits such commands and then this one, at a time of its own choice, or loses
  this one; whatever it answers, a refusal, a time-out after the commit or no error.
\<close>

definition orderly :: "bool \<Rightarrow> string set \<Rightarrow> 'd codec \<Rightarrow> 'd raft_node \<Rightarrow> bool" where
  "orderly over avoid codec raft \<longleftrightarrow> (\<forall>op data s. \<exists>others t. client_log over avoid codec others s \<and>
     snd (Do raft op data s) = (let s1 = replay (log_step codec) others s in
       case Apply codec t op data s1 of Inl _ \<Rightarrow> s1 | Inr s2 \<Rightarrow> s2) \<or>
     client_log over avoid codec others s \<and> snd (Do raft op data s) = replay (log_step codec) others s)"

lemma prompt_orderly: "prompt codec raft \<Longrightarrow> orderly over avoid codec raft"
  unfolding orderly_def
proof (intro allI)
  fix op data s
  assume "prompt codec raft"
  then obtain t where "Do raft op data s =
    (case Apply codec t op data s of Inl err \<Rightarrow> (Some err, s) | Inr s' \<Rightarrow> (None, s'))"
    unfolding prompt_def by blast
  then show "\<exists>others t. client_log over avoid codec others s \<and>
      snd (Do raft op data s) = (let s1 = replay (log_step codec) others s in
        case Apply codec t op data s1 of Inl _ \<Rightarrow> s1 | Inr s2 \<Rightarrow> s2) \<or>
      client_log over avoid codec others s \<and> snd (Do raft op data s) = replay (log_step codec) others s"
    by (intro exI [of _ "[]"] exI [of _ t]) (simp split: sum.split)
qed

lemma client_command_sound:
  assumes "client_command over p" "p_Op p = OpCreateFile \<Longrightarrow> unused (p_FileID p) s"
  shows "sound_command over p (ns (root s))"
proof (cases "p_Op p = OpCreateFile")
  case True
  with assms(1) obtain s0 args buf rs where c: "mds_inv s0" "dataNodes s0 \<noteq> []" "length buf = 16"
    "over \<or> cf_CreateMode args \<noteq> OverwriteIfExists"
    "selectDataNodes s0 (cf_Path args) (hex_encode buf) (replicaCount s0) = Some rs"
    "p = create_payload args (hex_encode buf) rs"
    by (auto simp: client_command_def file_creation_def)
  have "distinct (dataNodes s0)" using c(1) by (simp add: mds_inv_def nodes_ok_def)
  from placement [OF this c(2) refl refl, of "cf_Path args" "hex_encode buf" "replicaCount s0"] c(5)
  have "good_replicas over (hex_encode buf) rs" by (auto simp: good_replicas_def)
  moreover have "clean_name (hex_encode buf)" using c(3) by (intro identity_clean) auto
  ultimately show ?thesis
    using True assms c(4,6)
    by (auto simp: sound_command_def client_command_def create_payload_def unused_def op_names)
next
  case False
  with assms(1) show ?thesis by (simp add: sound_command_def client_command_def)
qed

lemma spec_apply_unused:
  assumes "spec_apply now op p m = Some m'" "\<forall>q. identities m q \<noteq> Some f"
    and "op = OpCreateFile \<Longrightarrow> p_FileID p \<noteq> f"
  shows "\<forall>q. identities m' q \<noteq> Some f"
proof -
  let ?q = "splitPath (p_Path p)"
  have upd: "\<forall>q. identities m' q \<noteq> Some f" if "spec_update ok g ?q m = Some m'"
    "\<And>a. e_isDir (g a) = e_isDir a \<and> e_fileID (g a) = e_fileID a" for ok g
    using identities_update [OF that] assms(2) by simp
  have "m' = m \<or> spec_mkdir now ?q (p_FileID p) m = Some m' \<or>
      op = OpCreateFile \<and> spec_create now ?q p m = Some m' \<or> spec_delete now ?q m = Some m' \<or>
      spec_rename now ?q (splitPath (p_DstPath p)) m = Some m' \<or>
      (\<exists>ok g. spec_update ok g ?q m = Some m' \<and> (\<forall>a. e_isDir (g a) = e_isDir a \<and> e_fileID (g a) = e_fileID a))"
    using assms(1) by (simp add: spec_apply_def Let_def split: if_splits) (fastforce | force)+
  with upd assms(2,3) show ?thesis
    by (elim disjE)
      (auto simp: identities_mkdir identities_create identities_delete identities_rename split: if_splits)
qed

lemma log_step_sound:
  assumes "sound over s" "log_step codec (now, op, data) s = Inr s'" "Unmarshal codec data = Inr p"
    and "p_Op p = op" "client_command over p" "op = OpCreateFile \<Longrightarrow> unused (p_FileID p) s"
  shows "sound over s'" "unused f s \<Longrightarrow> op = OpCreateFile \<longrightarrow> p_FileID p \<noteq> f \<Longrightarrow> unused f s'"
proof -
  have a: "apply_payload now (p_Op p) p s = Inr s'" using assms(2-4) by (auto simp: Apply_def)
  have inv: "mds_inv s" using assms(1) by (simp add: sound_def)
  have sp: "spec_apply now (p_Op p) p (ns (root s)) = Some (ns (root s'))"
    by (rule apply_payload_ns [OF inv_wf [OF inv] a])
  have c: "sound_command over p (ns (root s))" using client_command_sound [OF assms(5)] assms(4,6) by blast
  from spec_apply_sound [OF sp _ c] spec_apply_identities [OF sp] c assms(1) apply_payload_inv [OF inv a]
  show "sound over s'" by (simp add: sound_def sound_command_def)
  assume "unused f s" "op = OpCreateFile \<longrightarrow> p_FileID p \<noteq> f"
  with spec_apply_unused [OF sp] assms(4) show "unused f s'" by (simp add: unused_def)
qed

lemma client_log_sound:
  assumes "client_log over avoid codec es s" "sound over s"
  shows "sound over (replay (log_step codec) es s) \<and>
    (\<forall>f \<in> avoid. unused f s \<longrightarrow> unused f (replay (log_step codec) es s))"
  using assms
proof (induction es arbitrary: s)
  case (Cons e es)
  obtain now op data where e: "e = (now, op, data)" by (cases e)
  show ?case
  proof (cases "log_step codec e s")
    case (Inl err)
    with Cons e show ?thesis by simp
  next
    case (Inr s')
    then obtain p where p: "Unmarshal codec data = Inr p" by (auto simp: e Apply_def split: sum.splits)
    with Cons.prems(1) e have c: "p_Op p = op" "client_command over p"
      "op = OpCreateFile \<Longrightarrow> unused (p_FileID p) s" "op = OpCreateFile \<Longrightarrow> p_FileID p \<notin> avoid"
      "client_log over avoid codec es s'" using Inr by simp_all
    note st = log_step_sound [OF Cons.prems(2) Inr [unfolded e] p c(1-3)]
    from Cons.IH [OF c(5) st(1)] st(2) c(4) Inr show ?thesis by auto
  qed
qed simp

lemma submit_orderly:
  assumes "orderly over avoid codec raft" "carries codec p" "sound over s" "client_command over p"
    and "p_Op p = OpCreateFile \<Longrightarrow> p_FileID p \<in> avoid \<and> unused (p_FileID p) s"
  shows "sound over (snd (submitCommand codec raft p s))"
proof -
  obtain data where d: "Marshal codec p = Inr data" "Unmarshal codec data = Inr p"
    using assms(2) by (auto simp: carries_def)
  from assms(1) obtain others t where o: "client_log over avoid codec others s"
    "snd (Do raft (p_Op p) data s) \<in> {replay (log_step codec) others s,
      case Apply codec t (p_Op p) data (replay (log_step codec) others s) of
        Inl _ \<Rightarrow> replay (log_step codec) others s | Inr s2 \<Rightarrow> s2}"
    unfolding orderly_def Let_def insert_iff by meson
  let ?s1 = "replay (log_step codec) others s"
  note l = client_log_sound [OF o(1) assms(3)]
  have "sound over s2" if "Apply codec t (p_Op p) data ?s1 = Inr s2" for s2
    by (rule log_step_sound(1) [OF conjunct1 [OF l] _ d(2) refl assms(4)]) (use that l assms(5) in auto)
  with l o(2) have "sound over (snd (Do raft (p_Op p) data s))" by (auto split: sum.splits)
  moreover have "snd (submitCommand codec raft p s) = snd (Do raft (p_Op p) data s)"
    using d(1) by (cases "Do raft (p_Op p) data s"; cases "fst (Do raft (p_Op p) data s)")
      (auto simp: submitCommand_def)
  ultimately show ?thesis by simp
qed

text \<open>A command of another kind needs no care.\<close>

lemma client_commandI: "p_Op p \<noteq> OpCreateFile \<Longrightarrow> p_Op p \<noteq> OpUpdateReplicas \<Longrightarrow> client_command over p"
  by (simp add: client_command_def)

lemma sound_commandI: "p_Op p \<noteq> OpCreateFile \<Longrightarrow> p_Op p \<noteq> OpUpdateReplicas \<Longrightarrow> sound_command over p m"
  by (simp add: sound_command_def)

subsection \<open>Handlers\<close>

lemma Heartbeat_sound:
  assumes "orderly over avoid codec raft" "\<And>p. carries codec p" "sound over s"
  shows "sound over (snd (Heartbeat codec raft addr reply s))"
  using assms
  by (auto simp: Heartbeat_def returning_snd op_names zero_payload_def
      intro!: submit_orderly client_commandI split: option.split)

lemma Mkdir_sound:
  assumes "orderly over avoid codec raft" "\<And>p. carries codec p" "sound over s"
  shows "sound over (snd (Mkdir codec raft rnd path s))"
  using assms
  by (auto simp: Mkdir_def returning_snd op_names zero_payload_def
      intro!: submit_orderly client_commandI split: option.split sum.split)

lemma CompleteFile_sound:
  assumes "orderly over avoid codec raft" "\<And>p. carries codec p" "sound over s"
  shows "sound over (snd (CompleteFile codec raft path s))"
  using assms
  by (auto simp: CompleteFile_def returning_snd op_names zero_payload_def
      intro!: submit_orderly client_commandI split: option.split)

lemma Delete_sound:
  assumes "orderly over avoid codec raft" "\<And>p. carries codec p" "sound over s"
  shows "sound over (snd (Delete codec raft path s))"
  using assms
  by (auto simp: Delete_def Let_def returning_snd op_names zero_payload_def
      intro!: submit_orderly client_commandI split: option.split)

lemma Rename_sound:
  assumes "orderly over avoid codec raft" "\<And>p. carries codec p" "sound over s"
  shows "sound over (snd (Rename codec raft args s))"
  using assms
  by (auto simp: Rename_def returning_snd op_names zero_payload_def
      intro!: submit_orderly client_commandI split: option.split)

lemma UpdateSize_sound:
  assumes "orderly over avoid codec raft" "\<And>p. carries codec p" "sound over s"
  shows "sound over (snd (UpdateSize codec raft args s))"
  using assms
  by (auto simp: UpdateSize_def returning_snd op_names zero_payload_def
      intro!: submit_orderly client_commandI split: option.split)

text \<open>The random source fills the 16 bytes of an identity that is not in use, or fails.\<close>

definition fresh_id :: "mds \<Rightarrow> byte list result \<Rightarrow> bool" where
  "fresh_id s rnd = (case rnd of Inl err \<Rightarrow> True
     | Inr buf \<Rightarrow> length buf = 16 \<and> hex_encode buf \<notin> set (collectValidFileIDs s))"

lemma unused_fresh:
  assumes "mds_inv s" "fid \<notin> set (collectValidFileIDs s)" "fid \<noteq> []"
  shows "unused fid s"
  using valid_ids_ns [OF assms(1), of fid] assms(2,3)
  by (auto simp: unused_def identities_def split: option.splits if_splits)

lemma CreateFile_sound:
  assumes "\<And>buf. rnd = Inr buf \<Longrightarrow> orderly over {hex_encode buf} codec raft" "\<And>p. carries codec p" "sound over s"
    and "fresh_id s rnd" "over \<or> cf_CreateMode args \<noteq> OverwriteIfExists"
  shows "sound over (snd (CreateFile codec raft rnd args s))"
proof -
  have inv: "mds_inv s" using assms(3) by (simp add: sound_def)
  have "sound over (snd (submitCommand codec raft (create_payload args (hex_encode buf) replicas) s))"
    if "rnd = Inr buf" "dataNodes s \<noteq> []"
      "selectDataNodes s (cf_Path args) (hex_encode buf) (replicaCount s) = Some replicas" for buf replicas
  proof (rule submit_orderly [OF _ assms(2,3)])
    have buf: "length buf = 16" "hex_encode buf \<notin> set (collectValidFileIDs s)"
      using assms(4) that(1) by (simp_all add: fresh_id_def)
    show "orderly over {hex_encode buf} codec raft" using assms(1) that(1) by simp
    have "file_creation over (create_payload args (hex_encode buf) replicas)"
      unfolding file_creation_def using inv that(2,3) buf(1) assms(5) by blast
    then show "client_command over (create_payload args (hex_encode buf) replicas)"
      by (simp add: client_command_def create_payload_def op_names)
    have "buf \<noteq> []" using buf(1) by auto
    then have "hex_encode buf \<noteq> []" using identity_clean [of buf] by (auto simp: clean_name_def valid_name_def)
    from unused_fresh [OF inv buf(2) this]
    show "p_FileID (create_payload args (hex_encode buf) replicas) \<in> {hex_encode buf} \<and>
        unused (p_FileID (create_payload args (hex_encode buf) replicas)) s"
      by (simp add: create_payload_def)
  qed
  with assms(3) show ?thesis
    by (auto simp: CreateFile_def generateFileID_def Let_def returning_snd split: option.split sum.split)
qed

lemma remove_nodes_sound:
  assumes "orderly over avoid codec raft" "\<And>p. carries codec p" "sound over s"
  shows "sound over (remove_nodes codec raft addrs s)"
  using assms(3)
proof (induction addrs arbitrary: s)
  case (Cons a addrs)
  have "sound over (snd (submitCommand codec raft (zero_payload\<lparr>p_Op := OpRemoveDataNode, p_Addr := a\<rparr>) s))"
    by (rule submit_orderly [OF assms(1,2) Cons.prems])
      (auto intro!: client_commandI simp: op_names zero_payload_def)
  with Cons.IH show ?case by simp
qed simp

lemma runGC_sound:
  assumes "orderly over avoid codec raft" "\<And>p. carries codec p" "sound over s"
    and "runGC codec raft rpc gcStart now s nodes = (s', nodes')"
  shows "sound over s'"
  using remove_nodes_sound [OF assms(1-3)] assms(4)
  by (auto simp: runGC_def checkDataNodeHealth_def Let_def)

subsection \<open>Repairs\<close>

lemma update_ids:
  assumes "apply_payload t (p_Op p) p s = Inr s'" "mds_inv s" "p_Op p \<in> {OpUpdateStatus, OpUpdateReplicas}"
  shows "identities (ns (root s')) = identities (ns (root s))"
proof -
  have "spec_apply t (p_Op p) p (ns (root s)) = Some (ns (root s'))"
    by (rule apply_payload_ns [OF inv_wf [OF assms(2)] assms(1)])
  moreover have "\<exists>ok f. spec_apply t (p_Op p) p m = spec_update ok f (splitPath (p_Path p)) m \<and>
      (\<forall>a. e_isDir (f a) = e_isDir a \<and> e_fileID (f a) = e_fileID a)" for m
    using assms(3)
  proof (elim insertE emptyE)
    assume "p_Op p = OpUpdateStatus"
    then show ?thesis by (intro exI conjI) (simp add: spec_apply_def op_names Let_def, simp)
  next
    assume "p_Op p = OpUpdateReplicas"
    then show ?thesis by (intro exI conjI) (simp add: spec_apply_def op_names Let_def, simp)
  qed
  ultimately show ?thesis by (metis identities_update)
qed

text \<open>A task of a scan, against the namespace in which it is carried out.\<close>

definition fits :: "bool \<Rightarrow> namespace \<Rightarrow> repairTask \<Rightarrow> bool" where
  "fits over m task \<longleftrightarrow> (over \<or> placed_at (rt_fileID task) (rt_replicas task)) \<and> distinct (map r_Addr (rt_replicas task)) \<and>
     identities m (splitPath (rt_path task)) \<in> {None, Some (rt_fileID task)}"

lemma fits_same_ids: "fits over m task \<Longrightarrow> identities m' = identities m \<Longrightarrow> fits over m' task"
  by (simp add: fits_def)

definition keeps :: "bool \<Rightarrow> mds \<Rightarrow> mds \<Rightarrow> bool" where
  "keeps over s s' \<longleftrightarrow> (sound over s \<longrightarrow> sound over s' \<and> identities (ns (root s')) = identities (ns (root s)))"

lemma keeps_refl [simp]: "keeps over s s"
  by (simp add: keeps_def)

lemma keeps_trans: "keeps over s s' \<Longrightarrow> keeps over s' s'' \<Longrightarrow> keeps over s s''"
  by (auto simp: keeps_def)

lemma keeps_marks [simp]: "keeps over s (s\<lparr>repairing := r\<rparr>)" "keeps over (s\<lparr>repairing := r\<rparr>) s"
  by (simp_all add: keeps_def sound_def mds_inv_def nodes_ok_def)

lemma submit_keeps:
  assumes "prompt codec raft" "\<And>p. carries codec p" "submitCommand codec raft p s = (e, s')"
    and "p_Op p \<in> {OpUpdateStatus, OpUpdateReplicas}"
    and "sound over s \<Longrightarrow> sound_command over p (ns (root s))"
  shows "keeps over s s'"
proof -
  have "identities (ns (root s')) = identities (ns (root s))" if "sound over s"
    using submit_cases [OF assms(1,2,3)] update_ids [OF _ _ assms(4)] that by (auto simp: sound_def)
  with submit_sound [OF assms(1,2) _ assms(5) assms(3)] show ?thesis by (simp add: keeps_def)
qed

lemma status_keeps:
  assumes "prompt codec raft" "\<And>p. carries codec p"
    and "submitCommand codec raft (status_payload path st) s = (e, s')"
  shows "keeps over s s'"
  by (rule submit_keeps [OF assms]) (auto simp: op_names intro: sound_commandI)

lemma replicas_keeps:
  assumes "prompt codec raft" "\<And>p. carries codec p" "fits over (ns (root s)) task"
    and "good_replicas over (rt_fileID task) rs"
    and "submitCommand codec raft (replicas_payload (rt_path task) rs) s = (e, s')"
  shows "keeps over s s'"
  by (rule submit_keeps [OF assms(1,2,5)])
    (use assms(3,4) in \<open>auto simp: sound_command_def op_names fits_def identities_def\<close>)

text \<open>The replicas that a repair adds.\<close>

lemma copy_all_targets:
  "copy_all rpc src fid sz addrs nodes = Some (results, nodes') \<Longrightarrow>
    map fst results = map (\<lambda>a. \<lparr>r_Addr = a, r_RemotePath = data_dir @ fid\<rparr>) addrs"
  by (induction addrs arbitrary: nodes results nodes')
    (auto simp: Let_def data_dir_def split: option.splits prod.splits)

lemma repaired_replicas:
  assumes "over \<or> placed_at fid rs" "distinct (map r_Addr rs)" "rs \<noteq> []" "distinct alive"
    and "map fst results = map (\<lambda>a. \<lparr>r_Addr = a, r_RemotePath = data_dir @ fid\<rparr>) (selectTargetNodes rs alive n)"
  shows "good_replicas over fid (rs @ map fst (filter P results))"
proof -
  let ?new = "map fst (filter P results)"
  have "map r_Addr (map fst results) = selectTargetNodes rs alive n"
    unfolding assms(5) by (simp add: comp_def)
  moreover have "distinct (selectTargetNodes rs alive n)" "set (selectTargetNodes rs alive n) \<inter> r_Addr ` set rs = {}"
    unfolding targets_eq using assms(4) by (auto dest: in_set_takeD intro: distinct_take)
  ultimately have d: "distinct (map r_Addr (map fst results))" "r_Addr ` fst ` set results \<inter> r_Addr ` set rs = {}"
    by (simp, metis set_map)
  have "distinct (map r_Addr ?new)" using d(1) by (simp add: distinct_map_filter comp_def)
  moreover have "r_Addr ` set ?new \<inter> r_Addr ` set rs = {}" using d(2) by auto
  moreover have "\<forall>r \<in> fst ` set results. r_RemotePath r = data_dir @ fid"
    using arg_cong [OF assms(5), of set] by auto
  ultimately show ?thesis using assms(1-3) by (auto simp: good_replicas_def placed_at_def)
qed

lemma commit_keeps:
  assumes "prompt codec raft" "\<And>p. carries codec p" "fits over (ns (root s)) task"
    and "good_replicas over (rt_fileID task) (rt_replicas task @ new)"
    and "commit_repair codec raft task n new s = (e, s')"
  shows "keeps over s s'"
proof -
  let ?sub = "submitCommand codec raft (replicas_payload (rt_path task) (rt_replicas task @ new)) s"
  obtain e1 s1 where r: "?sub = (e1, s1)" by (cases ?sub)
  have k1: "keeps over s s1" by (rule replicas_keeps [OF assms(1-4) r])
  obtain e2 s2 where st: "submitCommand codec raft (status_payload (rt_path task) StatusComplete) s1 = (e2, s2)"
    by (cases "submitCommand codec raft (status_payload (rt_path task) StatusComplete) s1")
  have "keeps over s1 s2" by (rule status_keeps [OF assms(1,2) st])
  with k1 r st assms(5) show ?thesis
    by (auto simp: commit_repair_def Let_def split: option.splits intro: keeps_trans)
qed

lemma rollback_keeps:
  assumes "prompt codec raft" "\<And>p. carries codec p"
  shows "keeps over s (rollbackStatus codec raft path s)"
  using status_keeps [OF assms] by (metis rollbackStatus_def prod.collapse)

lemma repairFile_keeps:
  assumes "prompt codec raft" "\<And>p. carries codec p" "distinct alive" "fits over (ns (root s)) task"
    and "repairFile codec raft rpc alive task s nodes = Some (e, s', nodes')"
  shows "keeps over s s'"
proof -
  let ?sub = "submitCommand codec raft (status_payload (rt_path task) StatusRecovering) s"
  obtain e1 s1 where r: "?sub = (e1, s1)" by (cases ?sub)
  have k1: "keeps over s s1" by (rule status_keeps [OF assms(1,2) r])
  have roll: "keeps over s (rollbackStatus codec raft path s1)" for path
    by (rule keeps_trans [OF k1 rollback_keeps [OF assms(1,2)]])
  let ?n = "replicaCount s - int (length (rt_replicas task))"
  let ?targets = "selectTargetNodes (rt_replicas task) alive ?n"
  show ?thesis
  proof (cases "e1 = None \<and> rt_replicas task \<noteq> [] \<and> ?targets \<noteq> []")
    case False
    with r k1 roll assms(5) show ?thesis
      by (auto simp: repairFile_def Let_def split: option.splits if_splits)
  next
    case True
    with r assms(5) obtain results nodes1 n where
      c: "copy_all rpc (rt_replicas task ! 0) (rt_fileID task) (rt_size task) ?targets nodes = Some (results, nodes1)"
      and commit: "commit_repair codec raft task n (map fst (filter (\<lambda>r. snd r = None) results)) s1 = (e, s')"
      by (auto simp: repairFile_def Let_def split: option.splits prod.splits if_splits)
    have "good_replicas over (rt_fileID task) (rt_replicas task @ map fst (filter (\<lambda>r. snd r = None) results))"
      using assms(4) True by (intro repaired_replicas [OF _ _ _ assms(3) copy_all_targets [OF c]]) (auto simp: fits_def)
    note good = commit_keeps [OF assms(1,2) _ this commit]
    show ?thesis
    proof (cases "sound over s")
      case True
      with k1 assms(4) have "fits over (ns (root s1)) task" by (auto simp: keeps_def intro: fits_same_ids)
      from keeps_trans [OF k1 good [OF this]] show ?thesis .
    qed (simp add: keeps_def)
  qed
qed

lemma repair_tasks_keeps:
  assumes "prompt codec raft" "\<And>p. carries codec p" "distinct alive"
    and "\<forall>task \<in> set tasks. fits over (ns (root s)) task"
    and "repair_tasks codec raft rpc alive tasks s nodes = Some (s', nodes')"
  shows "keeps over s s'"
  using assms(4,5)
proof (induction tasks arbitrary: s nodes)
  case (Cons task tasks)
  let ?s = "s\<lparr>repairing := AList.update (rt_fileID task) True (repairing s)\<rparr>"
  show ?case
  proof (cases "is_repairing s (rt_fileID task)")
    case True
    with Cons show ?thesis by simp
  next
    case False
    with Cons.prems(2) obtain e s1 nodes1 where
      r: "repairFile codec raft rpc alive task ?s nodes = Some (e, s1, nodes1)"
      and rest: "repair_tasks codec raft rpc alive tasks
        (s1\<lparr>repairing := AList.delete (rt_fileID task) (repairing s1)\<rparr>) nodes1 = Some (s', nodes')"
      by (cases "repairFile codec raft rpc alive task ?s nodes") (auto simp: Let_def)
    let ?s1 = "s1\<lparr>repairing := AList.delete (rt_fileID task) (repairing s1)\<rparr>"
    have "keeps over ?s s1" using Cons.prems(1) by (intro repairFile_keeps [OF assms(1-3) _ r]) simp
    then have k: "keeps over s ?s1" by (rule keeps_trans [OF keeps_marks(1) keeps_trans [OF _ keeps_marks(1)]])
    show ?thesis
    proof (cases "sound over s")
      case True
      with k Cons.prems(1) have "\<forall>task \<in> set tasks. fits over (ns (root ?s1)) task"
        by (auto simp: keeps_def intro: fits_same_ids)
      from keeps_trans [OF k Cons.IH [OF this rest]] show ?thesis .
    qed (simp add: keeps_def)
  qed
qed simp

text \<open>What a scan reports fits the namespace it has scanned.\<close>

lemma scan_fits:
  assumes "sound over s" "findUnderReplicatedTasks replicateBatchSize s = (tasks, alive)"
  shows "distinct alive" "\<forall>task \<in> set tasks. fits over (ns (root s)) task"
proof -
  have inv: "mds_inv s" using assms(1) by (simp add: sound_def)
  note sc = scan_sound [OF inv _ assms(2)]
  show "distinct alive" using sc inv by (simp add: replicateBatchSize_def mds_inv_def nodes_ok_def)
  show "\<forall>task \<in> set tasks. fits over (ns (root s)) task"
  proof
    fix task assume "task \<in> set tasks"
    with sc obtain q a where t: "task = task_for (dataNodes s) (a, abs_path q)" "ns (root s) q = Some a"
      "under_replicated s a" by (auto simp: replicateBatchSize_def)
    have "\<forall>w \<in> set q. valid_name w" using wf_entry_lookup_valid t(2) inv
      by (auto simp: ns_def mds_inv_def wf_root_def)
    then have "splitPath (abs_path q) = q" by (rule splitPath_abs_path)
    moreover have "good_replicas over (e_fileID a) (e_replicas a)"
      using assms(1) t(2,3) by (auto simp: sound_def ns_all_def sound_file_def under_replicated_def needs_repair_def)
    ultimately show "fits over (ns (root s)) task"
      using t(2) by (auto simp: t(1) fits_def task_for_def good_replicas_def placed_at_def live_replicas_def
          identities_def distinct_map_filter)
  qed
qed

lemma replication_loop_keeps:
  assumes "prompt codec raft" "\<And>p. carries codec p"
    and "replication_loop codec raft rpc clock deadline i s nodes = Some y" "sound over s"
  shows "sound over (fst y)"
proof -
  have "prompt codec raft \<and> (\<forall>p. carries codec p) \<and> sound over s \<longrightarrow> sound over (fst y)"
  proof (rule replication_loop.raw_induct [where
        P = "\<lambda>codec raft rpc clock deadline i s nodes y.
          prompt codec raft \<and> (\<forall>p. carries codec p) \<and> sound over s \<longrightarrow> sound over (fst y)", OF _ assms(3)], goal_cases)
    case (1 loop codec raft rpc clock deadline i s nodes y)
    show ?case
    proof (intro impI, elim conjE)
      assume a: "prompt codec raft" "\<forall>p. carries codec p" and s: "sound over s"
      obtain tasks alive where f: "findUnderReplicatedTasks replicateBatchSize s = (tasks, alive)"
        by (cases "findUnderReplicatedTasks replicateBatchSize s")
      note sc = scan_fits [OF s f]
      have "sound over s1" if "repair_tasks codec raft rpc alive tasks s nodes = Some (s1, nodes1)" for s1 nodes1
        using repair_tasks_keeps [OF a(1) _ sc that] a(2) s by (simp add: keeps_def)
      then show "sound over (fst y)"
        using 1(1) [of codec raft rpc clock deadline "Suc i" _ _ y] 1(2) a s f
        by (auto split: if_splits option.splits prod.splits)
    qed
  qed
  with assms(1,2,4) show ?thesis by blast
qed

end
