(* ===== verification/Replication_Ends.thy ===== *)
theory Replication_Ends
  imports Sound_States
begin

text \<open>
  When a repair cycle returns. A copy hangs when its source has fewer bytes than the file's size
  (\<open>replicate_hangs\<close>); as long as the live replicas of complete files have their bytes, no copy does,
  and the repairs of a cycle keep it that way.
\<close>

definition backed :: "mds \<Rightarrow> (string \<Rightarrow> data_node) \<Rightarrow> bool" where
  "backed s nodes \<longleftrightarrow> (\<forall>q a. ns (root s) q = Some a \<and> \<not> e_isDir a \<and> e_status a = StatusComplete \<longrightarrow>
     (\<forall>r \<in> set (e_replicas a). r_Addr r \<in> set (dataNodes s) \<longrightarrow>
       (\<exists>bs. holds (nodes (r_Addr r)) (r_RemotePath r) = Some bs \<and> unat (e_size a) \<le> length bs \<and>
          length bs < 2 ^ 62)))"

text \<open>A task that still describes its file.\<close>

definition current :: "mds \<Rightarrow> repairTask \<Rightarrow> bool" where
  "current s task \<longleftrightarrow> (\<exists>a. ns (root s) (splitPath (rt_path task)) = Some a \<and> \<not> e_isDir a \<and>
     e_status a = StatusComplete \<and> e_fileID a = rt_fileID task \<and> e_size a = rt_size task \<and>
     set (rt_replicas task) \<subseteq> set (e_replicas a) \<and> distinct (map r_Addr (rt_replicas task)) \<and>
     r_Addr ` set (rt_replicas task) \<subseteq> set (dataNodes s))"

lemma marks_irrelevant [simp]:
  "backed (s\<lparr>repairing := r\<rparr>) nodes = backed s nodes" "current (s\<lparr>repairing := r\<rparr>) task = current s task"
  "sound over (s\<lparr>repairing := r\<rparr>) = sound over s"
  using keeps_marks [where s = s and r = r] by (auto simp: backed_def current_def keeps_def)
















end
