(* ===== verification/Service_Runs.thy ===== *)
theory Service_Runs
  imports Sound_States
begin

text \<open>
  The metadata service over time: every operation that commits commands as a step, in any order, with
  any arguments and with the commands of other clients in flight; what holds in every state that such
  runs reach.
\<close>

subsection \<open>Runs\<close>











end
