(* ===== verification/Client.thy ===== *)
theory Client
  imports Redirect Os_Disk
begin

text \<open>
  The client library (\<^verbatim>\<open>internal/client/client.go\<close>). It reaches the servers through
  RPC only: the calls are a record of functions over an arbitrary world, which a call takes to the
  world behind it. Calls that the source makes in parallel go to different data nodes and are made one
  after the other here; which of several errors is reported first is then a matter of the order of the
  replicas. An operation without a result returns \<^const>\<open>None\<close> or its error.
\<close>

record 'w rpcs =
  rpc_Dial :: "string \<Rightarrow> error option"
  rpc_Mkdir :: "string \<Rightarrow> string \<Rightarrow> 'w \<Rightarrow> bool result \<times> 'w"
  rpc_CreateFile :: "string \<Rightarrow> CreateFileArgs \<Rightarrow> 'w \<Rightarrow> CreateFileReply result \<times> 'w"
  rpc_CompleteFile :: "string \<Rightarrow> string \<Rightarrow> 'w \<Rightarrow> bool result \<times> 'w"
  rpc_Delete :: "string \<Rightarrow> string \<Rightarrow> 'w \<Rightarrow> DeleteReply result \<times> 'w"
  rpc_Rename :: "string \<Rightarrow> RenameArgs \<Rightarrow> 'w \<Rightarrow> bool result \<times> 'w"
  rpc_UpdateSize :: "string \<Rightarrow> UpdateSizeArgs \<Rightarrow> 'w \<Rightarrow> bool result \<times> 'w"
  rpc_TriggerGC :: "string \<Rightarrow> 'w \<Rightarrow> bool result \<times> 'w"
  rpc_GetFileLocation :: "string \<Rightarrow> string \<Rightarrow> 'w \<Rightarrow> FileLocation result"
  rpc_ListDir :: "string \<Rightarrow> string \<Rightarrow> 'w \<Rightarrow> FileInfo list result"
  rpc_Stat :: "string \<Rightarrow> string \<Rightarrow> 'w \<Rightarrow> FileInfo result"
  rpc_ListDataNodes :: "string \<Rightarrow> 'w \<Rightarrow> string list result"
  rpc_StoreData :: "string \<Rightarrow> StoreArgs \<Rightarrow> 'w \<Rightarrow> bool result \<times> 'w"
  rpc_GetData :: "string \<Rightarrow> string \<Rightarrow> 'w \<Rightarrow> byte list result"
  rpc_DeleteData :: "string \<Rightarrow> string \<Rightarrow> 'w \<Rightarrow> bool result \<times> 'w"
  rpc_RangeRead :: "string \<Rightarrow> RangeReadArgs \<Rightarrow> 'w \<Rightarrow> RangeReadReply result"
  rpc_PartialWrite :: "string \<Rightarrow> PartialWriteArgs \<Rightarrow> 'w \<Rightarrow> bool result \<times> 'w"
  rpc_Truncate :: "string \<Rightarrow> TruncateArgs \<Rightarrow> 'w \<Rightarrow> bool result \<times> 'w"
  rpc_Sync :: "string \<Rightarrow> SyncArgs \<Rightarrow> 'w \<Rightarrow> bool result"

subsection \<open>Connections\<close>

definition dialMDS :: "'w rpcs \<Rightarrow> string \<Rightarrow> error option" where
  "dialMDS api c =
     map_option (\<lambda>err. ''cannot connect to metadata server at '' @ c @ '': '' @ err) (rpc_Dial api c)"

definition dialDataNode :: "'w rpcs \<Rightarrow> string \<Rightarrow> error option" where
  "dialDataNode api addr =
     map_option (\<lambda>err. ''cannot connect to data node at '' @ addr @ '': '' @ err) (rpc_Dial api addr)"

text \<open>A read on the metadata server: dial it, call it, wrap its error.\<close>

definition query :: "'w rpcs \<Rightarrow> string \<Rightarrow> string \<Rightarrow> (string \<Rightarrow> 'w \<Rightarrow> 'r result) \<Rightarrow> 'w \<Rightarrow> 'r result" where
  "query api c msg call w =
     (case dialMDS api c of Some err \<Rightarrow> Inl err
      | None \<Rightarrow> (case call c w of Inl err \<Rightarrow> Inl (msg @ err) | Inr reply \<Rightarrow> Inr reply))"

text \<open>A write on the metadata server, following the leader; only the wrapped error is kept.\<close>

fun wrapped :: "string \<Rightarrow> 'r result \<times> 'w \<Rightarrow> error option \<times> 'w" where
  "wrapped msg (Inl err, w) = (Some (msg @ err), w)"
| "wrapped msg (Inr _, w) = (None, w)"

definition via_leader ::
  "'w rpcs \<Rightarrow> string \<Rightarrow> string \<Rightarrow> (string \<Rightarrow> 'w \<Rightarrow> 'r result \<times> 'w) \<Rightarrow> 'w \<Rightarrow> 'r result \<times> 'w" where
  "via_leader api c method call w = callMDSWithRedirect (rpc_Dial api) call method c w"

subsection \<open>Metadata operations\<close>

definition Client_Mkdir :: "'w rpcs \<Rightarrow> string \<Rightarrow> string \<Rightarrow> 'w \<Rightarrow> error option \<times> 'w" where
  "Client_Mkdir api c path w = wrapped ''mkdir failed: ''
     (via_leader api c ''MetadataService.Mkdir'' (\<lambda>a. rpc_Mkdir api a path) w)"

definition Client_CompleteFile :: "'w rpcs \<Rightarrow> string \<Rightarrow> string \<Rightarrow> 'w \<Rightarrow> error option \<times> 'w" where
  "Client_CompleteFile api c path w = wrapped ''complete file failed: ''
     (via_leader api c ''MetadataService.CompleteFile'' (\<lambda>a. rpc_CompleteFile api a path) w)"

definition Client_Rename :: "'w rpcs \<Rightarrow> string \<Rightarrow> string \<Rightarrow> string \<Rightarrow> 'w \<Rightarrow> error option \<times> 'w" where
  "Client_Rename api c src dst w = wrapped ''rename failed: ''
     (via_leader api c ''MetadataService.Rename''
       (\<lambda>a. rpc_Rename api a \<lparr>ra_SrcPath = src, ra_DstPath = dst\<rparr>) w)"

definition Client_TriggerGC :: "'w rpcs \<Rightarrow> string \<Rightarrow> 'w \<Rightarrow> error option \<times> 'w" where
  "Client_TriggerGC api c w = wrapped ''trigger GC failed: ''
     (via_leader api c ''MetadataService.TriggerGC'' (rpc_TriggerGC api) w)"

definition updateSize :: "'w rpcs \<Rightarrow> string \<Rightarrow> string \<Rightarrow> int64 \<Rightarrow> 'w \<Rightarrow> error option \<times> 'w" where
  "updateSize api c path sz w = wrapped []
     (via_leader api c ''MetadataService.UpdateSize''
       (\<lambda>a. rpc_UpdateSize api a \<lparr>us_Path = path, us_Size = sz\<rparr>) w)"

definition Client_ListDir :: "'w rpcs \<Rightarrow> string \<Rightarrow> string \<Rightarrow> 'w \<Rightarrow> FileInfo list result" where
  "Client_ListDir api c path w = query api c ''list dir failed: '' (\<lambda>a. rpc_ListDir api a path) w"

definition Client_Stat :: "'w rpcs \<Rightarrow> string \<Rightarrow> string \<Rightarrow> 'w \<Rightarrow> FileInfo result" where
  "Client_Stat api c path w = query api c ''stat failed: '' (\<lambda>a. rpc_Stat api a path) w"

definition GetReplicas :: "'w rpcs \<Rightarrow> string \<Rightarrow> string \<Rightarrow> 'w \<Rightarrow> Replica list result" where
  "GetReplicas api c path w =
     map_sum id fl_Replicas
       (query api c ''get file location failed: '' (\<lambda>a. rpc_GetFileLocation api a path) w)"

definition Client_ListDataNodes :: "'w rpcs \<Rightarrow> string \<Rightarrow> 'w \<Rightarrow> string list result" where
  "Client_ListDataNodes api c w = query api c ''list data nodes failed: '' (rpc_ListDataNodes api) w"

definition getFileLocation :: "'w rpcs \<Rightarrow> string \<Rightarrow> string \<Rightarrow> 'w \<Rightarrow> FileLocation result" where
  "getFileLocation api c path w = query api c [] (\<lambda>a. rpc_GetFileLocation api a path) w"

subsection \<open>Deleting\<close>

text \<open>The clean-up of the replicas never fails the operation.\<close>

fun clean_replicas :: "'w rpcs \<Rightarrow> Replica list \<Rightarrow> 'w \<Rightarrow> 'w" where
  "clean_replicas api [] w = w"
| "clean_replicas api (replica # rs) w =
     (case dialDataNode api (r_Addr replica) of
        Some err \<Rightarrow> clean_replicas api rs w
      | None \<Rightarrow> clean_replicas api rs (snd (rpc_DeleteData api (r_Addr replica) (r_RemotePath replica) w)))"

definition Client_Delete :: "'w rpcs \<Rightarrow> string \<Rightarrow> string \<Rightarrow> 'w \<Rightarrow> error option \<times> 'w" where
  "Client_Delete api c path w =
     (case via_leader api c ''MetadataService.Delete'' (\<lambda>a. rpc_Delete api a path) w of
        (Inl err, w) \<Rightarrow> (Some (''delete metadata failed: '' @ err), w)
      | (Inr reply, w) \<Rightarrow>
          if \<not> dr_IsDir reply \<and> length (dr_Replicas reply) > 0
          then (None, clean_replicas api (dr_Replicas reply) w)
          else (None, w))"

subsection \<open>Uploading\<close>

fun store_replicas :: "'w rpcs \<Rightarrow> byte list \<Rightarrow> Replica list \<Rightarrow> 'w \<Rightarrow> error option list \<times> 'w" where
  "store_replicas api data [] w = ([], w)"
| "store_replicas api data (r # rs) w =
     (case dialDataNode api (r_Addr r) of
        Some err \<Rightarrow> (case store_replicas api data rs w of (es, w) \<Rightarrow> (Some err # es, w))
      | None \<Rightarrow>
         (case rpc_StoreData api (r_Addr r) \<lparr>sa_Path = r_RemotePath r, sa_Content = data\<rparr> w of (reply, w) \<Rightarrow>
          (case store_replicas api data rs w of (es, w) \<Rightarrow>
             ((case reply of Inl err \<Rightarrow> Some (''store data failed: '' @ err) | Inr _ \<Rightarrow> None) # es, w))))"

definition successes :: "error option list \<Rightarrow> nat" where
  "successes es = length (filter (\<lambda>e. e = None) es)"

definition firstErr :: "error option list \<Rightarrow> error option" where
  "firstErr es = Option.bind (List.find (\<lambda>e. e \<noteq> None) es) id"

text \<open>\<^verbatim>\<open>%w\<close> of an error, or of nil.\<close>

definition show_err :: "error option \<Rightarrow> string" where
  "show_err e = (case e of None \<Rightarrow> ''%!w(<nil>)'' | Some err \<Rightarrow> err)"

definition PutFile ::
  "'w rpcs \<Rightarrow> os_env \<Rightarrow> string \<Rightarrow> disk \<Rightarrow> string \<Rightarrow> string \<Rightarrow> CreateMode \<Rightarrow> 'w \<Rightarrow> error option \<times> 'w" where
  "PutFile api env c local_disk localPath remotePath createMode w =
     (case ReadFile env localPath local_disk of
        Inl err \<Rightarrow> (Some (''read local file failed: '' @ err_text err), w)
      | Inr data \<Rightarrow>
         (case via_leader api c ''MetadataService.CreateFile''
             (\<lambda>a. rpc_CreateFile api a \<lparr>cf_Path = remotePath, cf_Size = of_nat (length data),
                                       cf_CreateMode = createMode\<rparr>) w of
            (Inl err, w) \<Rightarrow> (Some (''create metadata failed: '' @ err), w)
          | (Inr createReply, w) \<Rightarrow>
             (case store_replicas api data (cfr_Replicas createReply) w of (es, w) \<Rightarrow>
                if successes es = 0
                then (Some (''all '' @ show_nat (length (cfr_Replicas createReply)) @
                            '' replica stores failed: '' @ show_err (firstErr es)),
                      snd (Client_Delete api c remotePath w))
                else (None, snd (via_leader api c ''MetadataService.CompleteFile''
                                   (\<lambda>a. rpc_CompleteFile api a remotePath) w)))))"

subsection \<open>Downloading\<close>

text \<open>
  A byte slice behind gob: decoding an empty one into a nil slice leaves it nil, which is
  \<^const>\<open>None\<close> here.
\<close>

definition gob_bytes :: "byte list \<Rightarrow> byte list option" where
  "gob_bytes bs = (if bs = [] then None else Some bs)"

text \<open>The replicas in order, until one answers: the content and the last error before it.\<close>

fun fetch :: "'w rpcs \<Rightarrow> Replica list \<Rightarrow> error option \<Rightarrow> 'w \<Rightarrow> byte list option \<times> error option" where
  "fetch api [] lastErr w = (None, lastErr)"
| "fetch api (replica # rs) lastErr w =
     (case dialDataNode api (r_Addr replica) of
        Some err \<Rightarrow> fetch api rs (Some err) w
      | None \<Rightarrow>
         (case rpc_GetData api (r_Addr replica) (r_RemotePath replica) w of
            Inl err \<Rightarrow> fetch api rs (Some err) w
          | Inr bs \<Rightarrow> (gob_bytes bs, lastErr)))"

definition GetFile ::
  "'w rpcs \<Rightarrow> os_env \<Rightarrow> time \<Rightarrow> string \<Rightarrow> string \<Rightarrow> string \<Rightarrow> 'w \<Rightarrow> disk \<Rightarrow> error option \<times> disk" where
  "GetFile api env now c remotePath localPath w local_disk =
     (let write_local = (\<lambda>bs.
            case WriteFile env now localPath bs local_disk of
              (Some err, d) \<Rightarrow> (Some (''write local file failed: '' @ err_text err), d)
            | (None, d) \<Rightarrow> (None, d))
      in case query api c ''get file location failed: '' (\<lambda>a. rpc_GetFileLocation api a remotePath) w of
           Inl err \<Rightarrow> (Some err, local_disk)
         | Inr loc \<Rightarrow>
             if fl_Status loc = ''pending'' then write_local []
             else
              (case fetch api (fl_Replicas loc) None w of
                 (None, lastErr) \<Rightarrow>
                   (Some (''all '' @ show_nat (length (fl_Replicas loc)) @ '' replicas failed, last error: '' @
                          show_err lastErr), local_disk)
               | (Some bs, lastErr) \<Rightarrow> write_local bs))"

subsection \<open>Single replicas\<close>

text \<open>What was read goes to the front of the buffer: the number of bytes, the flag and the buffer.\<close>

definition rangeRead ::
  "'w rpcs \<Rightarrow> Replica \<Rightarrow> int64 \<Rightarrow> byte list \<Rightarrow> 'w \<Rightarrow> (nat \<times> bool \<times> byte list) result" where
  "rangeRead api replica offset buf w =
     (case dialDataNode api (r_Addr replica) of
        Some err \<Rightarrow> Inl err
      | None \<Rightarrow>
         (case rpc_RangeRead api (r_Addr replica)
             \<lparr>rr_Path = r_RemotePath replica, rr_Offset = offset, rr_Length = of_nat (length buf)\<rparr> w of
            Inl err \<Rightarrow> Inl (''range read failed: '' @ err)
          | Inr reply \<Rightarrow>
             (let n = min (length buf) (length (rrr_Data reply))
              in Inr (n, rrr_EOF reply, take n (rrr_Data reply) @ drop n buf))))"

definition on_replica ::
  "'w rpcs \<Rightarrow> Replica \<Rightarrow> string \<Rightarrow> (string \<Rightarrow> 'w \<Rightarrow> bool result \<times> 'w) \<Rightarrow> 'w \<Rightarrow> error option \<times> 'w" where
  "on_replica api replica msg call w =
     (case dialDataNode api (r_Addr replica) of
        Some err \<Rightarrow> (Some err, w)
      | None \<Rightarrow> wrapped msg (call (r_Addr replica) w))"

definition partialWrite :: "'w rpcs \<Rightarrow> Replica \<Rightarrow> int64 \<Rightarrow> byte list \<Rightarrow> 'w \<Rightarrow> error option \<times> 'w" where
  "partialWrite api replica offset data w =
     on_replica api replica ''partial write failed: ''
       (\<lambda>a. rpc_PartialWrite api a \<lparr>pw_Path = r_RemotePath replica, pw_Offset = offset, pw_Data = data\<rparr>) w"

definition truncateReplica :: "'w rpcs \<Rightarrow> Replica \<Rightarrow> int64 \<Rightarrow> 'w \<Rightarrow> error option \<times> 'w" where
  "truncateReplica api replica sz w =
     on_replica api replica ''truncate failed: ''
       (\<lambda>a. rpc_Truncate api a \<lparr>ta_Path = r_RemotePath replica, ta_Size = sz\<rparr>) w"

definition syncReplica :: "'w rpcs \<Rightarrow> Replica \<Rightarrow> 'w \<Rightarrow> error option" where
  "syncReplica api replica w =
     fst (on_replica api replica ''sync failed: ''
       (\<lambda>a w. (rpc_Sync api a \<lparr>sy_Path = r_RemotePath replica\<rparr> w, w)) w)"

text \<open>One operation on every replica; the results in the order of the replicas.\<close>

fun each_replica :: "(Replica \<Rightarrow> 'w \<Rightarrow> error option \<times> 'w) \<Rightarrow> Replica list \<Rightarrow> 'w \<Rightarrow> error option list \<times> 'w" where
  "each_replica op [] w = ([], w)"
| "each_replica op (r # rs) w =
     (case op r w of (e, w) \<Rightarrow> (case each_replica op rs w of (es, w) \<Rightarrow> (e # es, w)))"

definition truncateAllReplicas ::
  "'w rpcs \<Rightarrow> string \<Rightarrow> string \<Rightarrow> int64 \<Rightarrow> 'w \<Rightarrow> error option \<times> 'w" where
  "truncateAllReplicas api c path sz w =
     (case getFileLocation api c path w of
        Inl err \<Rightarrow> (Some err, w)
      | Inr loc \<Rightarrow>
         (case each_replica (\<lambda>r. truncateReplica api r sz) (fl_Replicas loc) w of (errs, w) \<Rightarrow>
            (firstErr errs, w)))"

end
