(* ===== verification/Client_Handle.thy ===== *)
theory Client_Handle
  imports Client
begin

text \<open>
  Open files of the client library (\<^verbatim>\<open>internal/client/file_handle.go\<close> and
  \<^verbatim>\<open>Open\<close> of \<^verbatim>\<open>client.go\<close>). Go's \<^verbatim>\<open>int\<close> and
  \<^verbatim>\<open>int64\<close> are 64-bit words. A read returns the number of bytes, whether its error is
  \<^verbatim>\<open>io.EOF\<close>, and the buffer.
\<close>

unbundle bit_operations_syntax

definition O_RDONLY :: int64 where "O_RDONLY = 0x00"
definition O_WRONLY :: int64 where "O_WRONLY = 0x01"
definition O_RDWR :: int64 where "O_RDWR = 0x02"
definition O_CREAT :: int64 where "O_CREAT = 0x40"
definition O_EXCL :: int64 where "O_EXCL = 0x80"
definition O_TRUNC :: int64 where "O_TRUNC = 0x200"

lemmas open_flags = O_RDONLY_def O_WRONLY_def O_RDWR_def O_CREAT_def O_EXCL_def O_TRUNC_def

record FileHandle =
  fh_path :: string
  fh_fileID :: string
  fh_flags :: int64
  fh_replicas :: "Replica list"
  fh_size :: int64
  fh_status :: string

definition minParallelReadSize :: nat where
  "minParallelReadSize = 4096"

subsection \<open>Open\<close>

text \<open>
  The end of \<^verbatim>\<open>Open\<close>: the location is asked for, and a recovering file refuses to be
  opened for writing. \<open>replicas\<close> and \<open>status\<close> are what a creation gave, or nothing.
\<close>

definition open_located ::
  "'w rpcs \<Rightarrow> string \<Rightarrow> string \<Rightarrow> int64 \<Rightarrow> Replica list \<Rightarrow> string \<Rightarrow> int64 \<Rightarrow> 'w \<Rightarrow> FileHandle result" where
  "open_located api c path flags replicas status sz w =
     (case getFileLocation api c path w of
        Inl err \<Rightarrow> Inl (''open: get location failed: '' @ err)
      | Inr loc \<Rightarrow>
         (let replicas = (if replicas = [] then fl_Replicas loc else replicas);
              status = (if status = [] then fl_Status loc else status)
          in if status = ''recovering'' \<and> flags AND (O_WRONLY OR O_RDWR) \<noteq> 0
             then Inl (''open: file is recovering, write not allowed: '' @ path)
             else Inr \<lparr>fh_path = path, fh_fileID = fl_FileID loc, fh_flags = flags,
                       fh_replicas = replicas, fh_size = sz, fh_status = status\<rparr>))"

definition Open ::
  "'w rpcs \<Rightarrow> string \<Rightarrow> string \<Rightarrow> int64 \<Rightarrow> 'w \<Rightarrow> FileHandle result \<times> 'w" where
  "Open api c path flags w =
     (case Client_Stat api c path w of
        Inl err \<Rightarrow>
          if \<not> Contains err ''not found'' then (Inl (''open: stat failed: '' @ err), w)
          else if flags AND O_CREAT = 0
          then (Inl (''open: no such file or directory: '' @ path), w)
          else
           (case via_leader api c ''MetadataService.CreateFile''
               (\<lambda>a. rpc_CreateFile api a \<lparr>cf_Path = path, cf_Size = 0, cf_CreateMode = CreateIfNotExist\<rparr>) w of
              (Inl err, w) \<Rightarrow> (Inl (''open: create failed: '' @ err), w)
            | (Inr createReply, w) \<Rightarrow>
                (open_located api c path flags (cfr_Replicas createReply) ''pending'' 0 w, w))
      | Inr info \<Rightarrow>
          if flags AND O_EXCL \<noteq> 0
          then (Inl (''open: file already exists (O_EXCL): '' @ path), w)
          else if fi_IsDir info then (Inl (''open: is a directory: '' @ path), w)
          else if flags AND O_TRUNC \<noteq> 0 then
           (case truncateAllReplicas api c path 0 w of
              (Some err, w) \<Rightarrow> (Inl (''open: truncate replicas failed: '' @ err), w)
            | (None, w) \<Rightarrow>
               (case updateSize api c path 0 w of
                  (Some err, w) \<Rightarrow> (Inl (''open: update size failed: '' @ err), w)
                | (None, w) \<Rightarrow> (open_located api c path flags [] [] 0 w, w)))
          else (open_located api c path flags [] [] (fi_Size info) w, w))"

subsection \<open>Reading\<close>

type_synonym read_result = "(nat \<times> bool \<times> byte list) result"

text \<open>The replicas from a list, in order, until one answers; the last error otherwise.\<close>

fun first_answer :: "'w rpcs \<Rightarrow> Replica list \<Rightarrow> error option \<Rightarrow> int64 \<Rightarrow> byte list \<Rightarrow> 'w \<Rightarrow>
    error option + nat \<times> bool \<times> byte list" where
  "first_answer api [] lastErr offset buf w = Inl lastErr"
| "first_answer api (r # rs) lastErr offset buf w =
     (case rangeRead api r offset buf w of
        Inr answer \<Rightarrow> Inr answer
      | Inl err \<Rightarrow> first_answer api rs (Some err) offset buf w)"

definition readAtSerial :: "'w rpcs \<Rightarrow> FileHandle \<Rightarrow> byte list \<Rightarrow> int64 \<Rightarrow> 'w \<Rightarrow> read_result" where
  "readAtSerial api fh buf offset w =
     (case first_answer api (fh_replicas fh) None offset buf w of
        Inr answer \<Rightarrow> Inr answer
      | Inl lastErr \<Rightarrow> Inl (''readat: all '' @ show_nat (length (fh_replicas fh)) @
                            '' replicas failed, last error: '' @ show_err lastErr))"

text \<open>A segment starts at its own replica and goes round: \<open>(start + k) mod n\<close>.\<close>

definition readSegmentWithFailover ::
  "'w rpcs \<Rightarrow> FileHandle \<Rightarrow> int64 \<Rightarrow> byte list \<Rightarrow> nat \<Rightarrow> 'w \<Rightarrow> read_result" where
  "readSegmentWithFailover api fh offset buf startReplica w =
     (let n = length (fh_replicas fh) in
      case first_answer api (map (\<lambda>k. fh_replicas fh ! ((startReplica + k) mod n)) [0..<n]) None offset buf w of
        Inr answer \<Rightarrow> Inr answer
      | Inl lastErr \<Rightarrow> Inl (''all '' @ show_nat n @ '' replicas failed for segment, last error: '' @
                            show_err lastErr))"

text \<open>The results in order: the first failed segment, or what all of them read.\<close>

fun join_segments :: "nat \<Rightarrow> read_result list \<Rightarrow> read_result" where
  "join_segments i [] = Inr (0, False, [])"
| "join_segments i (Inl err # rs) = Inl (''readat: segment '' @ show_nat i @ '' failed: '' @ err)"
| "join_segments i (Inr (n, eof, buf) # rs) =
     (case join_segments (Suc i) rs of
        Inl err \<Rightarrow> Inl err
      | Inr (m, any, bufs) \<Rightarrow> Inr (n + m, eof \<or> any, buf @ bufs))"

definition segment_len :: "nat \<Rightarrow> nat \<Rightarrow> nat \<Rightarrow> nat \<Rightarrow> nat" where
  "segment_len amount nReplicas segSize idx =
     (if idx = nReplicas - 1 then amount - idx * segSize else segSize)"

definition readAtParallel :: "'w rpcs \<Rightarrow> FileHandle \<Rightarrow> byte list \<Rightarrow> int64 \<Rightarrow> 'w \<Rightarrow> read_result" where
  "readAtParallel api fh buf offset w =
     (let nReplicas = length (fh_replicas fh);
          amount = length buf;
          segSize = amount div nReplicas
      in if segSize = 0 then readAtSerial api fh buf offset w
         else
          (let results = map (\<lambda>idx.
                 readSegmentWithFailover api fh (offset + of_nat idx * of_nat segSize)
                   (take (segment_len amount nReplicas segSize idx) (drop (idx * segSize) buf)) idx w)
                 [0..<nReplicas]
           in case join_segments 0 results of
                Inl err \<Rightarrow> Inl err
              | Inr (totalRead, anyEOF, buf) \<Rightarrow> Inr (totalRead, anyEOF \<or> totalRead < amount, buf)))"

definition ReadAt :: "'w rpcs \<Rightarrow> FileHandle \<Rightarrow> byte list \<Rightarrow> int64 \<Rightarrow> 'w \<Rightarrow> read_result" where
  "ReadAt api fh buf offset w =
     (if sint offset < 0 then Inl ''readat: negative offset''
      else if length (fh_replicas fh) = 0
      then Inl (''readat: no replicas for file '' @ fh_path fh)
      else if length buf = 0 then Inr (0, False, buf)
      else if length (fh_replicas fh) = 1 \<or> length buf < minParallelReadSize
      then readAtSerial api fh buf offset w
      else readAtParallel api fh buf offset w)"

subsection \<open>Writing\<close>

definition replicas_failed :: "string \<Rightarrow> FileHandle \<Rightarrow> error option list \<Rightarrow> error" where
  "replicas_failed op fh errs =
     op @ '': '' @ show_nat (length (fh_replicas fh) - successes errs) @ ''/'' @
     show_nat (length (fh_replicas fh)) @ '' replicas failed, first error: '' @ show_err (firstErr errs)"

definition WriteAt ::
  "'w rpcs \<Rightarrow> string \<Rightarrow> byte list \<Rightarrow> int64 \<Rightarrow> FileHandle \<Rightarrow> 'w \<Rightarrow> nat result \<times> FileHandle \<times> 'w" where
  "WriteAt api c data offset fh w =
     (if sint offset < 0 then (Inl ''writeat: negative offset'', fh, w)
      else if length (fh_replicas fh) = 0
      then (Inl (''writeat: no replicas for file '' @ fh_path fh), fh, w)
      else
       (case each_replica (\<lambda>r. partialWrite api r offset data) (fh_replicas fh) w of (errs, w) \<Rightarrow>
          if successes errs \<noteq> length (fh_replicas fh)
          then (Inl (replicas_failed ''writeat'' fh errs), fh, w)
          else
           (let newEnd = offset + of_nat (length data);
                needUpdate = (sint newEnd > sint (fh_size fh))
            in if needUpdate
               then (Inr (length data), fh\<lparr>fh_size := newEnd\<rparr>, snd (updateSize api c (fh_path fh) newEnd w))
               else (Inr (length data), fh, w))))"

definition Truncate ::
  "'w rpcs \<Rightarrow> string \<Rightarrow> int64 \<Rightarrow> FileHandle \<Rightarrow> 'w \<Rightarrow> error option \<times> FileHandle \<times> 'w" where
  "Truncate api c sz fh w =
     (if sint sz < 0 then (Some ''truncate: negative size'', fh, w)
      else
       (case truncateAllReplicas api c (fh_path fh) sz w of
          (Some err, w) \<Rightarrow> (Some (''truncate: replica truncate failed: '' @ err), fh, w)
        | (None, w) \<Rightarrow>
           (case updateSize api c (fh_path fh) sz w of
              (Some err, w) \<Rightarrow> (Some (''truncate: update size failed: '' @ err), fh, w)
            | (None, w) \<Rightarrow> (None, fh\<lparr>fh_size := sz\<rparr>, w))))"

definition SyncAll :: "'w rpcs \<Rightarrow> FileHandle \<Rightarrow> 'w \<Rightarrow> error option" where
  "SyncAll api fh w =
     (let errs = map (\<lambda>r. syncReplica api r w) (fh_replicas fh)
      in if successes errs \<noteq> length (fh_replicas fh) then Some (replicas_failed ''sync'' fh errs) else None)"

text \<open>A nil handle closes without an effect; the handle itself does not change.\<close>

definition Close :: "'w rpcs \<Rightarrow> string \<Rightarrow> FileHandle option \<Rightarrow> 'w \<Rightarrow> error option \<times> 'w" where
  "Close api c fh w =
     (case fh of None \<Rightarrow> (None, w)
      | Some fh \<Rightarrow>
          if fh_status fh = ''pending'' then
           (case Client_CompleteFile api c (fh_path fh) w of
              (Some err, w) \<Rightarrow> (Some (''close: complete file failed: '' @ err), w)
            | (None, w) \<Rightarrow> (None, w))
          else (None, w))"

end
