(* ===== verification/Fuse_Node.thy ===== *)
theory Fuse_Node
  imports Client_Handle
begin

text \<open>
  The FUSE adapter (\<^verbatim>\<open>internal/fuse\<close>): the callbacks of the inode layer
  (\<^verbatim>\<open>node.go\<close>) and of the file descriptor layer (\<^verbatim>\<open>file_handle.go\<close>) as
  functions of the client's operations. The tree of inodes belongs to the go-fuse library: making an
  inode and removing a child from the tree are arguments. The constants are those of Linux.
\<close>

unbundle bit_operations_syntax

datatype errno = ENOENT | EEXIST | ENOTDIR | EACCES | EIO

type_synonym 'a reply = "errno + 'a"

definition S_IFDIR :: uint32 where "S_IFDIR = 0x4000"
definition S_IFREG :: uint32 where "S_IFREG = 0x8000"
definition O_ACCMODE :: int64 where "O_ACCMODE = 0x03"
definition O_APPEND :: uint32 where "O_APPEND = 0x400"
definition FATTR_SIZE :: uint32 where "FATTR_SIZE = 0x08"

definition defaultTimeout :: duration where
  "defaultTimeout = 1 * second"

record Attr =
  at_Mode :: uint32
  at_Size :: uint64
  at_Mtime :: uint64
  at_Nlink :: uint32

record StableAttr =
  st_Mode :: uint32
  st_Ino :: uint64

record DirEntry =
  de_Name :: string
  de_Mode :: uint32
  de_Ino :: uint64

text \<open>What a callback leaves in its \<^verbatim>\<open>out\<close> argument: attributes and how long they may be kept.\<close>

record AttrOut =
  ao_Attr :: Attr
  ao_Timeout :: duration

record EntryOut =
  eo_Attr :: Attr
  eo_EntryTimeout :: duration
  eo_AttrTimeout :: duration

record fuseNode =
  fn_path :: string

record fuseFileHandle =
  ffh_fh :: FileHandle
  ffh_path :: string

text \<open>A \<^verbatim>\<open>fs.FileHandle\<close>: nil, one of this file system, or of another type.\<close>

datatype fs_handle = NilHandle | OwnHandle fuseFileHandle | OtherHandle

record ('i, 'w) go_fuse =
  NewInode :: "fuseNode \<Rightarrow> fuseNode \<Rightarrow> StableAttr \<Rightarrow> 'w \<Rightarrow> 'i \<times> 'w"
  RmChild :: "fuseNode \<Rightarrow> string \<Rightarrow> 'w \<Rightarrow> 'w"

subsection \<open>Helpers\<close>

definition node_joinPath :: "string \<Rightarrow> string \<Rightarrow> string" where
  "node_joinPath parent name = (if parent = ''/'' then ''/'' @ name else parent @ ''/'' @ name)"

definition modeFromInfo :: "FileInfo \<Rightarrow> uint32" where
  "modeFromInfo info = (if fi_IsDir info then S_IFDIR OR 0x1ED else S_IFREG OR 0x1A4)"

text \<open>\<^verbatim>\<open>Unix\<close> gives whole seconds.\<close>

definition infoToAttr :: "FileInfo \<Rightarrow> Attr" where
  "infoToAttr info =
     \<lparr>at_Mode = modeFromInfo info, at_Size = fi_Size info,
      at_Mtime = word_of_int (fi_ModTime info div second),
      at_Nlink = (if fi_IsDir info then 2 else 1)\<rparr>"

definition fnv_step :: "uint64 \<Rightarrow> nat \<Rightarrow> uint64" where
  "fnv_step h c = (h XOR of_nat c) * 1099511628211"

definition inodeFromID :: "string \<Rightarrow> string \<Rightarrow> uint64" where
  "inodeFromID fileID path =
     (if path = ''/'' then 1
      else (let h = foldl fnv_step 1469598103934665603 (runes fileID) in if h = 0 then 1 else h))"

definition errToErrno :: "error \<Rightarrow> errno" where
  "errToErrno msg =
     (if Contains msg ''not found'' \<or> Contains msg ''no such file'' then ENOENT
      else if Contains msg ''already exists'' then EEXIST
      else if Contains msg ''is a directory'' \<or> Contains msg ''not a directory'' then ENOTDIR
      else if Contains msg ''permission'' then EACCES
      else EIO)"

subsection \<open>Looking\<close>

definition attr_out :: "FileInfo \<Rightarrow> AttrOut" where
  "attr_out info = \<lparr>ao_Attr = infoToAttr info, ao_Timeout = defaultTimeout\<rparr>"

definition entry_out :: "Attr \<Rightarrow> EntryOut" where
  "entry_out a = \<lparr>eo_Attr = a, eo_EntryTimeout = defaultTimeout, eo_AttrTimeout = defaultTimeout\<rparr>"

definition Getattr :: "'w rpcs \<Rightarrow> string \<Rightarrow> fuseNode \<Rightarrow> 'w \<Rightarrow> AttrOut reply" where
  "Getattr api c n w =
     (case Client_Stat api c (fn_path n) w of
        Inl err \<Rightarrow> Inl (errToErrno err)
      | Inr info \<Rightarrow> Inr (attr_out info))"

definition Lookup ::
  "('i, 'w) go_fuse \<Rightarrow> 'w rpcs \<Rightarrow> string \<Rightarrow> fuseNode \<Rightarrow> string \<Rightarrow> 'w \<Rightarrow> ('i \<times> EntryOut) reply \<times> 'w" where
  "Lookup lib api c n name w =
     (let childPath = node_joinPath (fn_path n) name in
      case Client_Stat api c childPath w of
        Inl err \<Rightarrow> (Inl (errToErrno err), w)
      | Inr info \<Rightarrow>
         (case NewInode lib n \<lparr>fn_path = childPath\<rparr>
             \<lparr>st_Mode = modeFromInfo info, st_Ino = inodeFromID (fi_FileID info) childPath\<rparr> w of
            (inode, w) \<Rightarrow> (Inr (inode, entry_out (infoToAttr info)), w)))"

definition Readdir :: "'w rpcs \<Rightarrow> string \<Rightarrow> fuseNode \<Rightarrow> 'w \<Rightarrow> DirEntry list reply" where
  "Readdir api c n w =
     (case Client_ListDir api c (fn_path n) w of
        Inl err \<Rightarrow> Inl (errToErrno err)
      | Inr infos \<Rightarrow> Inr (map (\<lambda>info.
          \<lparr>de_Name = fi_Name info, de_Mode = modeFromInfo info,
           de_Ino = inodeFromID (fi_FileID info) (node_joinPath (fn_path n) (fi_Name info))\<rparr>) infos))"

subsection \<open>Opening\<close>

definition fuse_Open ::
  "'w rpcs \<Rightarrow> string \<Rightarrow> fuseNode \<Rightarrow> uint32 \<Rightarrow> 'w \<Rightarrow> (fuseFileHandle \<times> uint32) reply \<times> 'w" where
  "fuse_Open api c n flags w =
     (case Client_Handle.Open api c (fn_path n) (ucast flags) w of
        (Inl err, w) \<Rightarrow> (Inl (errToErrno err), w)
      | (Inr fh, w) \<Rightarrow> (Inr (\<lparr>ffh_fh = fh, ffh_path = fn_path n\<rparr>, flags AND NOT O_APPEND), w))"

definition create_flags :: "uint32 \<Rightarrow> int64" where
  "create_flags flags =
     (let createFlags = ucast flags OR O_CREAT OR O_TRUNC
      in if createFlags AND O_ACCMODE = 0 then createFlags OR 0x02 else createFlags)"

definition fuse_Create ::
  "('i, 'w) go_fuse \<Rightarrow> 'w rpcs \<Rightarrow> string \<Rightarrow> fuseNode \<Rightarrow> string \<Rightarrow> uint32 \<Rightarrow> 'w \<Rightarrow>
   ('i \<times> fuseFileHandle \<times> uint32 \<times> EntryOut) reply \<times> 'w" where
  "fuse_Create lib api c n name flags w =
     (let childPath = node_joinPath (fn_path n) name in
      case Client_Handle.Open api c childPath (create_flags flags) w of
        (Inl err, w) \<Rightarrow> (Inl (errToErrno err), w)
      | (Inr fh, w) \<Rightarrow>
         (case NewInode lib n \<lparr>fn_path = childPath\<rparr>
             \<lparr>st_Mode = S_IFREG OR 0x1A4, st_Ino = inodeFromID (fh_fileID fh) childPath\<rparr> w of
            (inode, w) \<Rightarrow>
              (Inr (inode, \<lparr>ffh_fh = fh, ffh_path = childPath\<rparr>, flags AND NOT O_APPEND,
                    entry_out \<lparr>at_Mode = S_IFREG OR 0x1A4, at_Size = 0, at_Mtime = 0, at_Nlink = 1\<rparr>), w)))"

subsection \<open>Names\<close>

definition fuse_Mkdir ::
  "('i, 'w) go_fuse \<Rightarrow> 'w rpcs \<Rightarrow> string \<Rightarrow> fuseNode \<Rightarrow> string \<Rightarrow> 'w \<Rightarrow> ('i \<times> EntryOut) reply \<times> 'w" where
  "fuse_Mkdir lib api c n name w =
     (let childPath = node_joinPath (fn_path n) name in
      case Client_Mkdir api c childPath w of
        (Some err, w) \<Rightarrow> (Inl (errToErrno err), w)
      | (None, w) \<Rightarrow>
         (case Client_Stat api c childPath w of
            Inl err \<Rightarrow> (Inl (errToErrno err), w)
          | Inr info \<Rightarrow>
             (case NewInode lib n \<lparr>fn_path = childPath\<rparr>
                 \<lparr>st_Mode = S_IFDIR OR 0x1ED, st_Ino = inodeFromID (fi_FileID info) childPath\<rparr> w of
                (inode, w) \<Rightarrow>
                  (Inr (inode, entry_out \<lparr>at_Mode = S_IFDIR OR 0x1ED, at_Size = 0, at_Mtime = 0, at_Nlink = 2\<rparr>),
                   w))))"

definition Unlink ::
  "('i, 'w) go_fuse \<Rightarrow> 'w rpcs \<Rightarrow> string \<Rightarrow> fuseNode \<Rightarrow> string \<Rightarrow> 'w \<Rightarrow> errno option \<times> 'w" where
  "Unlink lib api c n name w =
     (case Client_Delete api c (node_joinPath (fn_path n) name) w of
        (Some err, w) \<Rightarrow> (Some (errToErrno err), w)
      | (None, w) \<Rightarrow> (None, RmChild lib n name w))"

text \<open>The new parent is a node of this file system, or \<^const>\<open>None\<close> for any other inode.\<close>

definition fuse_Rename ::
  "('i, 'w) go_fuse \<Rightarrow> 'w rpcs \<Rightarrow> string \<Rightarrow> fuseNode \<Rightarrow> string \<Rightarrow> fuseNode option \<Rightarrow> string \<Rightarrow> 'w \<Rightarrow>
   errno option \<times> 'w" where
  "fuse_Rename lib api c n name newParent newName w =
     (case newParent of
        None \<Rightarrow> (Some EIO, w)
      | Some dstNode \<Rightarrow>
         (case Client_Rename api c (node_joinPath (fn_path n) name) (node_joinPath (fn_path dstNode) newName) w of
            (Some err, w) \<Rightarrow> (Some (errToErrno err), w)
          | (None, w) \<Rightarrow> (None, RmChild lib n name w)))"

subsection \<open>Attributes\<close>

text \<open>
  Only the size can be set, through an open handle or through a temporary one, which is closed at the
  end whatever happened. The result is the reply, the handle behind the call and the world.
\<close>

definition Setattr ::
  "'w rpcs \<Rightarrow> string \<Rightarrow> fuseNode \<Rightarrow> fs_handle \<Rightarrow> uint32 \<Rightarrow> uint64 \<Rightarrow> 'w \<Rightarrow> AttrOut reply \<times> fs_handle \<times> 'w" where
  "Setattr api c n f valid sz w =
     (if valid AND FATTR_SIZE = 0 then (Getattr api c n w, f, w)
      else
       (case f of
          OwnHandle h \<Rightarrow>
           (case Client_Handle.Truncate api c sz (ffh_fh h) w of
              (Some err, fh, w) \<Rightarrow> (Inl (errToErrno err), OwnHandle (h\<lparr>ffh_fh := fh\<rparr>), w)
            | (None, fh, w) \<Rightarrow> (Getattr api c n w, OwnHandle (h\<lparr>ffh_fh := fh\<rparr>), w))
        | OtherHandle \<Rightarrow> (Inl EIO, f, w)
        | NilHandle \<Rightarrow>
           (case Client_Handle.Open api c (fn_path n) O_RDWR w of
              (Inl err, w) \<Rightarrow> (Inl (errToErrno err), f, w)
            | (Inr fileHandle, w) \<Rightarrow>
               (case Client_Handle.Truncate api c sz fileHandle w of
                  (Some err, fh, w) \<Rightarrow> (Inl (errToErrno err), f, snd (Client_Handle.Close api c (Some fh) w))
                | (None, fh, w) \<Rightarrow> (Getattr api c n w, f, snd (Client_Handle.Close api c (Some fh) w))))))"

definition Flush :: "errno option" where
  "Flush = None"

subsection \<open>File descriptors\<close>

text \<open>An end of file is not an error; the destination is cut to what was read.\<close>

definition fd_Read :: "'w rpcs \<Rightarrow> fuseFileHandle \<Rightarrow> byte list \<Rightarrow> int64 \<Rightarrow> 'w \<Rightarrow> byte list reply" where
  "fd_Read api h dest off w =
     (case ReadAt api (ffh_fh h) dest off w of
        Inl err \<Rightarrow> Inl EIO
      | Inr (n, eof, buf) \<Rightarrow> Inr (take n buf))"

definition fd_Write ::
  "'w rpcs \<Rightarrow> string \<Rightarrow> byte list \<Rightarrow> int64 \<Rightarrow> fuseFileHandle \<Rightarrow> 'w \<Rightarrow> uint32 reply \<times> fuseFileHandle \<times> 'w" where
  "fd_Write api c data off h w =
     (case WriteAt api c data off (ffh_fh h) w of
        (Inl err, fh, w) \<Rightarrow> (Inl EIO, h\<lparr>ffh_fh := fh\<rparr>, w)
      | (Inr n, fh, w) \<Rightarrow> (Inr (of_nat n), h\<lparr>ffh_fh := fh\<rparr>, w))"

definition fd_Fsync :: "'w rpcs \<Rightarrow> fuseFileHandle \<Rightarrow> 'w \<Rightarrow> errno option" where
  "fd_Fsync api h w = (case SyncAll api (ffh_fh h) w of Some err \<Rightarrow> Some EIO | None \<Rightarrow> None)"

definition fd_Release :: "'w rpcs \<Rightarrow> string \<Rightarrow> fuseFileHandle \<Rightarrow> 'w \<Rightarrow> errno option \<times> 'w" where
  "fd_Release api c h w =
     (case Client_Handle.Close api c (Some (ffh_fh h)) w of
        (Some err, w) \<Rightarrow> (Some EIO, w)
      | (None, w) \<Rightarrow> (None, w))"

end
