(* ===== verification/Client_Reads.thy ===== *)
theory Client_Reads
  imports Client_Handle
begin

text \<open>
  Reading through a file handle when the replicas that answer agree on the content: what
  \<^verbatim>\<open>ReadAt\<close> returns, and that splitting a read into segments makes no difference.
\<close>

text \<open>The replica answers range reads from the bytes \<open>bs\<close>, with an end-of-file flag on short reads.\<close>

definition answers :: "'w rpcs \<Rightarrow> 'w \<Rightarrow> byte list \<Rightarrow> Replica \<Rightarrow> bool" where
  "answers api w bs r \<longleftrightarrow> rpc_Dial api (r_Addr r) = None \<and>
     (\<forall>off len. sint off \<ge> 0 \<and> sint len > 0 \<longrightarrow>
       (\<exists>reply. rpc_RangeRead api (r_Addr r) \<lparr>rr_Path = r_RemotePath r, rr_Offset = off, rr_Length = len\<rparr> w =
            Inr reply \<and>
          rrr_Data reply = take (nat (sint len)) (drop (nat (sint off)) bs) \<and>
          (rrr_EOF reply \<longleftrightarrow> length (rrr_Data reply) < nat (sint len))))"

definition refuses :: "'w rpcs \<Rightarrow> 'w \<Rightarrow> Replica \<Rightarrow> bool" where
  "refuses api w r \<longleftrightarrow> (\<forall>off buf. \<exists>err. rangeRead api r off buf w = Inl err)"

text \<open>What a read of \<open>buf\<close> at \<open>off\<close> is to return.\<close>

definition read_spec :: "byte list \<Rightarrow> nat \<Rightarrow> byte list \<Rightarrow> nat \<times> bool \<times> byte list" where
  "read_spec bs off buf =
     (let n = min (length buf) (length bs - off) in (n, n < length buf, take n (drop off bs) @ drop n buf))"

lemma read_spec_append: "read_spec bs off (b1 @ b2) =
    (case read_spec bs off b1 of (n1, e1, o1) \<Rightarrow> case read_spec bs (off + length b1) b2 of (n2, e2, o2) \<Rightarrow>
       (n1 + n2, e1 \<or> e2, o1 @ o2))"
proof (cases "length bs - off \<ge> length b1")
  case True
  have d: "drop (off + length b1) bs = drop (length b1) (drop off bs)" by (simp add: add.commute)
  have n: "min (length b1) (length bs - off) = length b1"
    "min (length (b1 @ b2)) (length bs - off) = length b1 + min (length b2) (length bs - (off + length b1))"
    using True by auto
  show ?thesis
    unfolding read_spec_def n Let_def d prod.case take_add by simp
next
  case False
  then have n: "min (length b1) (length bs - off) = length bs - off" "length bs - (off + length b1) = 0"
    "min (length (b1 @ b2)) (length bs - off) = length bs - off" by auto
  show ?thesis using False unfolding read_spec_def n Let_def prod.case by simp
qed

lemma read_spec_Nil: "read_spec bs off [] = (0, False, [])"
  by (simp add: read_spec_def)

subsection \<open>One range\<close>

lemma rangeRead_answers:
  assumes "answers api w bs r" "buf \<noteq> []" "sint off \<ge> 0" "length buf < 2 ^ 63"
  shows "rangeRead api r off buf w = Inr (read_spec bs (nat (sint off)) buf)"
proof -
  have len: "sint (of_nat (length buf) :: int64) = int (length buf)" by (rule sint_of_nat64 [OF assms(4)])
  with assms obtain reply where r: "rpc_RangeRead api (r_Addr r)
      \<lparr>rr_Path = r_RemotePath r, rr_Offset = off, rr_Length = of_nat (length buf)\<rparr> w = Inr reply"
    "rrr_Data reply = take (length buf) (drop (nat (sint off)) bs)"
    "rrr_EOF reply \<longleftrightarrow> length (rrr_Data reply) < length buf"
    unfolding answers_def by (metis length_greater_0_conv nat_int of_nat_0_less_iff)
  define n where "n = min (length buf) (length bs - nat (sint off))"
  have data: "length (rrr_Data reply) = n" "rrr_Data reply = take n (drop (nat (sint off)) bs)"
    unfolding r(2) n_def by (simp_all add: min_def)
  have "n \<le> length buf" by (simp add: n_def)
  then have "rangeRead api r off buf w =
      Inr (n, n < length buf, take n (drop (nat (sint off)) bs) @ drop n buf)"
    using assms(1) r(1,3) data by (simp add: rangeRead_def answers_def dialDataNode_def Let_def min_absorb2)
  then show ?thesis by (simp add: read_spec_def n_def Let_def)
qed

lemma first_answer_spec:
  assumes "\<forall>r \<in> set rs. answers api w bs r \<or> refuses api w r" "\<exists>r \<in> set rs. answers api w bs r"
    and "buf \<noteq> []" "sint off \<ge> 0" "length buf < 2 ^ 63"
  shows "first_answer api rs err off buf w = Inr (read_spec bs (nat (sint off)) buf)"
  using assms(1,2)
proof (induction rs arbitrary: err)
  case (Cons r rs)
  show ?case
  proof (cases "answers api w bs r")
    case True
    with rangeRead_answers [OF True assms(3-5)] show ?thesis by simp
  next
    case False
    with Cons.prems have "refuses api w r" by simp
    then obtain e where "rangeRead api r off buf w = Inl e" by (auto simp: refuses_def)
    with Cons False show ?thesis by simp
  qed
qed simp

text \<open>What the replicas of a handle have to be like for reads to be well defined.\<close>

definition agreed :: "'w rpcs \<Rightarrow> 'w \<Rightarrow> byte list \<Rightarrow> FileHandle \<Rightarrow> bool" where
  "agreed api w bs fh \<longleftrightarrow> (\<forall>r \<in> set (fh_replicas fh). answers api w bs r \<or> refuses api w r) \<and>
     (\<exists>r \<in> set (fh_replicas fh). answers api w bs r)"

lemma serial_spec:
  assumes "agreed api w bs fh" "buf \<noteq> []" "sint off \<ge> 0" "length buf < 2 ^ 63"
  shows "readAtSerial api fh buf off w = Inr (read_spec bs (nat (sint off)) buf)"
proof -
  have "first_answer api (fh_replicas fh) None off buf w = Inr (read_spec bs (nat (sint off)) buf)"
    by (rule first_answer_spec [OF _ _ assms(2-4)]) (use assms(1) in \<open>simp_all add: agreed_def\<close>)
  then show ?thesis by (simp add: readAtSerial_def)
qed

lemma rotation_set:
  "set (map (\<lambda>k. rs ! ((i + k) mod length rs)) [0..<length rs]) = set rs"
proof (cases "rs = []")
  case False
  then have n: "length rs > 0" by simp
  show ?thesis
  proof
    show "set (map (\<lambda>k. rs ! ((i + k) mod length rs)) [0..<length rs]) \<subseteq> set rs"
      using n by (auto intro!: nth_mem)
    show "set rs \<subseteq> set (map (\<lambda>k. rs ! ((i + k) mod length rs)) [0..<length rs])"
    proof
      fix x assume "x \<in> set rs"
      then obtain j where j: "j < length rs" "rs ! j = x" by (auto simp: in_set_conv_nth)
      define k where "k = (j + (length rs - i mod length rs)) mod length rs"
      have "(i + k) mod length rs = (i mod length rs + (j + (length rs - i mod length rs))) mod length rs"
        by (simp add: k_def mod_simps)
      also have "i mod length rs + (j + (length rs - i mod length rs)) = j + length rs"
        using mod_less_divisor [OF n, of i] by linarith
      finally have "(i + k) mod length rs = j" using j(1) by simp
      moreover have "k < length rs" using n by (simp add: k_def)
      ultimately show "x \<in> set (map (\<lambda>k. rs ! ((i + k) mod length rs)) [0..<length rs])"
        using j(2) by force
    qed
  qed
qed simp

lemma segment_spec:
  assumes "agreed api w bs fh" "buf \<noteq> []" "sint off \<ge> 0" "length buf < 2 ^ 63"
  shows "readSegmentWithFailover api fh off buf i w = Inr (read_spec bs (nat (sint off)) buf)"
proof -
  let ?rs = "map (\<lambda>k. fh_replicas fh ! ((i + k) mod length (fh_replicas fh))) [0..<length (fh_replicas fh)]"
  have "first_answer api ?rs None off buf w = Inr (read_spec bs (nat (sint off)) buf)"
    by (rule first_answer_spec [OF _ _ assms(2-4)]; unfold rotation_set)
      (use assms(1) in \<open>simp_all add: agreed_def\<close>)
  then show ?thesis by (simp add: readSegmentWithFailover_def Let_def)
qed

subsection \<open>Segments\<close>

lemma sint_add_nat:
  assumes "0 \<le> sint (off :: int64)" "sint off + int k < 2 ^ 63"
  shows "sint (off + of_nat k) = sint off + int k"
proof -
  have "off + of_nat k = word_of_int (sint off + int k)" by simp
  moreover have "- (2 ^ 63) \<le> sint off + int k" using assms(1) by simp
  ultimately show ?thesis using sint_of_int64 assms(2) by presburger
qed

text \<open>Reading the segments from the \<open>i\<close>-th on reads the rest of the buffer.\<close>

lemma join_spec:
  assumes ag: "agreed api w bs fh" and n: "n = length (fh_replicas fh)" "seg = length buf div n" "seg \<noteq> 0"
    and off: "sint off \<ge> 0" "sint off + int (length buf) < 2 ^ 63" and "i \<le> n"
  shows "join_segments i (map (\<lambda>idx. readSegmentWithFailover api fh (off + of_nat idx * of_nat seg)
        (take (segment_len (length buf) n seg idx) (drop (idx * seg) buf)) idx w) [i..<n]) =
    Inr (if i = n then (0, False, []) else read_spec bs (nat (sint off) + i * seg) (drop (i * seg) buf))"
  using assms(7)
proof (induction "n - i" arbitrary: i)
  case 0
  then show ?case by simp
next
  case (Suc m)
  then have i: "i < n" and IHprem: "m = n - Suc i" "Suc i \<le> n" by auto
  have fits: "n * seg \<le> length buf" by (simp add: n(2) mult.commute)
  then have i_seg: "Suc i * seg \<le> length buf" using i mult_le_mono1 [of "Suc i" n seg] by simp
  have at: "sint (off + of_nat i * of_nat seg) = sint off + int (i * seg)"
  proof -
    have "i * seg \<le> length buf" using i_seg by simp
    then have "int (i * seg) \<le> int (length buf)" by (simp only: of_nat_le_iff)
    then have "sint off + int (i * seg) < 2 ^ 63" using off(2) by linarith
    from sint_add_nat [OF off(1) this] show ?thesis by simp
  qed
  let ?b = "take (segment_len (length buf) n seg i) (drop (i * seg) buf)"
  have len: "length ?b = (if Suc i = n then length buf - i * seg else seg)"
    using i i_seg by (auto simp: segment_len_def)
  have ne: "?b \<noteq> []" using len n(3) i_seg by (auto split: if_splits simp flip: length_0_conv)
  have "length ?b < 2 ^ 63"
  proof -
    have "int (length ?b) < 2 ^ 63" using len off i_seg by (auto split: if_splits)
    then show ?thesis by (metis of_nat_less_iff of_nat_numeral of_nat_power)
  qed
  moreover have "0 \<le> sint (off + of_nat i * of_nat seg)" "nat (sint (off + of_nat i * of_nat seg)) =
      nat (sint off) + i * seg" unfolding at using off(1) by (simp_all add: nat_add_distrib del: of_nat_mult)
  ultimately have seg_i: "readSegmentWithFailover api fh (off + of_nat i * of_nat seg) ?b i w =
      Inr (read_spec bs (nat (sint off) + i * seg) ?b)"
    using segment_spec [OF ag ne, of "off + of_nat i * of_nat seg" i] by simp
  note IH = Suc.hyps(1) [OF IHprem]
  show ?case
  proof (cases "Suc i = n")
    case True
    have "?b = drop (i * seg) buf" using True by (simp add: segment_len_def flip: True)
    moreover obtain n1 e1 o1 where "read_spec bs (nat (sint off) + i * seg) (drop (i * seg) buf) = (n1, e1, o1)"
      by (cases "read_spec bs (nat (sint off) + i * seg) (drop (i * seg) buf)")
    ultimately show ?thesis using seg_i i True by (simp add: upt_conv_Cons)
  next
    case False
    have b: "?b = take seg (drop (i * seg) buf)" using False i by (simp add: segment_len_def)
    have "drop (i * seg) buf = ?b @ drop (Suc i * seg) buf"
      unfolding b by (metis append_take_drop_id drop_drop mult_Suc)
    moreover have "length ?b = seg" using len False by simp
    ultimately have "read_spec bs (nat (sint off) + i * seg) (drop (i * seg) buf) =
      (case read_spec bs (nat (sint off) + i * seg) ?b of (n1, e1, o1) \<Rightarrow>
       case read_spec bs (nat (sint off) + Suc i * seg) (drop (Suc i * seg) buf) of (n2, e2, o2) \<Rightarrow>
       (n1 + n2, e1 \<or> e2, o1 @ o2))"
      using read_spec_append [of bs "nat (sint off) + i * seg" ?b "drop (Suc i * seg) buf"]
      by (simp add: algebra_simps)
    with seg_i i False IH show ?thesis
      by (simp add: upt_conv_Cons split: prod.splits)
  qed
qed

lemma parallel_spec:
  assumes "agreed api w bs fh" "buf \<noteq> []" "sint off \<ge> 0" "sint off + int (length buf) < 2 ^ 63"
  shows "readAtParallel api fh buf off w = Inr (read_spec bs (nat (sint off)) buf)"
proof (cases "length buf div length (fh_replicas fh) = 0")
  case True
  have "int (length buf) < 2 ^ 63" using assms(3,4) by simp
  then have "length buf < 2 ^ 63" by (metis of_nat_less_iff of_nat_numeral of_nat_power)
  from serial_spec [OF assms(1-3) this] True show ?thesis by (simp add: readAtParallel_def Let_def)
next
  case False
  then have ne: "fh_replicas fh \<noteq> []" by (cases "fh_replicas fh") auto
  from join_spec [OF assms(1) refl refl False assms(3,4), of 0] ne False show ?thesis
    by (simp add: readAtParallel_def Let_def read_spec_def)
qed

lemma ReadAt_agreed:
  assumes "agreed api w bs fh" "buf \<noteq> []" "sint off \<ge> 0" "sint off + int (length buf) < 2 ^ 63"
    and "n = min (length buf) (length bs - nat (sint off))"
  shows "ReadAt api fh buf off w =
      Inr (n, n < length buf, take n (drop (nat (sint off)) bs) @ drop n buf) \<and>
    readAtParallel api fh buf off w = readAtSerial api fh buf off w"
proof -
  have "int (length buf) < 2 ^ 63" using assms(3,4) by simp
  then have "length buf < 2 ^ 63" by (metis of_nat_less_iff of_nat_numeral of_nat_power)
  note s = serial_spec [OF assms(1-3) this] and p = parallel_spec [OF assms(1-4)]
  have "fh_replicas fh \<noteq> []" using assms(1) by (auto simp: agreed_def)
  with assms(2,3,5) s p show ?thesis by (simp add: ReadAt_def read_spec_def Let_def)
qed

text \<open>
  C14 (reading). When the replicas that answer hold the same bytes and at least one answers, reading
  returns the bytes of the range that the file has, leaves the rest of the buffer alone and reports
  the end of the file exactly when it came short. Cutting the read into one segment for each replica,
  each with its own order of replicas to fall back to, gives the same result as asking one replica
  after the other.
\<close>

theorem read_at:
  assumes "agreed api w bs fh" "buf \<noteq> []" "sint off \<ge> 0" "sint off + int (length buf) < 2 ^ 63"
    and "n = min (length buf) (length bs - nat (sint off))"
  shows "ReadAt api fh buf off w =
      Inr (n, n < length buf, take n (drop (nat (sint off)) bs) @ drop n buf) \<and>
    readAtParallel api fh buf off w = readAtSerial api fh buf off w"
  by (rule ReadAt_agreed [OF assms])

end
