(* ===== verification/Cluster_World.thy ===== *)
theory Cluster_World
  imports Client_Reads Service_Props Data_Service
begin

text \<open>
  The client library against the servers of this development: a metadata server and the data nodes of
  a cluster, behind the calls of \<open>Client\<close>. All addresses of metadata servers lead to the one
  server; redirection is the subject of \<open>Redirect\<close>. A handler that panics drops the connection.
\<close>

record cluster =
  cl_mds :: mds
  cl_nodes :: "string \<Rightarrow> data_node"

definition on_mds :: "(mds \<Rightarrow> 'r \<times> mds) \<Rightarrow> cluster \<Rightarrow> 'r \<times> cluster" where
  "on_mds f w = (case f (cl_mds w) of (r, s) \<Rightarrow> (r, w\<lparr>cl_mds := s\<rparr>))"

definition on_node :: "string \<Rightarrow> (data_node \<Rightarrow> 'r \<times> data_node) \<Rightarrow> cluster \<Rightarrow> 'r \<times> cluster" where
  "on_node a f w = (case f (cl_nodes w a) of (r, n) \<Rightarrow> (r, w\<lparr>cl_nodes := (cl_nodes w)(a := n)\<rparr>))"

definition cluster_rpcs ::
  "'d codec \<Rightarrow> 'd raft_node \<Rightarrow> byte list result \<Rightarrow> (string \<Rightarrow> os_env) \<Rightarrow> time \<Rightarrow>
   (string \<Rightarrow> error option) \<Rightarrow> cluster rpcs" where
  "cluster_rpcs codec raft rnd env now dial =
     \<lparr>rpc_Dial = dial,
      rpc_Mkdir = (\<lambda>_ path. on_mds (Mkdir codec raft rnd path)),
      rpc_CreateFile = (\<lambda>_ args. on_mds (CreateFile codec raft rnd args)),
      rpc_CompleteFile = (\<lambda>_ path. on_mds (CompleteFile codec raft path)),
      rpc_Delete = (\<lambda>_ path. on_mds (Delete codec raft path)),
      rpc_Rename = (\<lambda>_ args. on_mds (Rename codec raft args)),
      rpc_UpdateSize = (\<lambda>_ args. on_mds (UpdateSize codec raft args)),
      rpc_TriggerGC = (\<lambda>_ w. (case checkLeader raft of Some err \<Rightarrow> Inl err | None \<Rightarrow> Inr True, w)),
      rpc_GetFileLocation = (\<lambda>_ path w. GetFileLocation path (cl_mds w)),
      rpc_ListDir = (\<lambda>_ path w. ListDir path (cl_mds w)),
      rpc_Stat = (\<lambda>_ path w. Stat path (cl_mds w)),
      rpc_ListDataNodes = (\<lambda>_ w. ListDataNodes (cl_mds w)),
      rpc_StoreData = (\<lambda>a args. on_node a (StoreData (env a) now args)),
      rpc_GetData = (\<lambda>a path w. GetData (env a) path (cl_nodes w a)),
      rpc_DeleteData = (\<lambda>a path. on_node a (DeleteData (env a) path)),
      rpc_RangeRead = (\<lambda>a args w.
        case RangeRead (env a) args (cl_nodes w a) \<lparr>rrr_Data = [], rrr_EOF = False\<rparr> of
          None \<Rightarrow> Inl ''unexpected EOF'' | Some r \<Rightarrow> r),
      rpc_PartialWrite = (\<lambda>a args. on_node a (PartialWrite (env a) now args)),
      rpc_Truncate = (\<lambda>a args. on_node a (TruncateData (env a) now args)),
      rpc_Sync = (\<lambda>a args w. Sync (env a) args (cl_nodes w a))\<rparr>"

lemma rpcs_simps [simp]:
  "rpc_Dial (cluster_rpcs codec raft rnd env now dial) = dial"
  "rpc_CreateFile (cluster_rpcs codec raft rnd env now dial) = (\<lambda>_ args. on_mds (CreateFile codec raft rnd args))"
  "rpc_CompleteFile (cluster_rpcs codec raft rnd env now dial) = (\<lambda>_ path. on_mds (CompleteFile codec raft path))"
  "rpc_UpdateSize (cluster_rpcs codec raft rnd env now dial) = (\<lambda>_ args. on_mds (UpdateSize codec raft args))"
  "rpc_GetFileLocation (cluster_rpcs codec raft rnd env now dial) = (\<lambda>_ path w. GetFileLocation path (cl_mds w))"
  "rpc_StoreData (cluster_rpcs codec raft rnd env now dial) = (\<lambda>a args. on_node a (StoreData (env a) now args))"
  "rpc_GetData (cluster_rpcs codec raft rnd env now dial) = (\<lambda>a path w. GetData (env a) path (cl_nodes w a))"
  "rpc_PartialWrite (cluster_rpcs codec raft rnd env now dial) = (\<lambda>a args. on_node a (PartialWrite (env a) now args))"
  "rpc_RangeRead (cluster_rpcs codec raft rnd env now dial) = (\<lambda>a args w.
     case RangeRead (env a) args (cl_nodes w a) \<lparr>rrr_Data = [], rrr_EOF = False\<rparr> of
       None \<Rightarrow> Inl ''unexpected EOF'' | Some r \<Rightarrow> r)"
  "rpc_Mkdir (cluster_rpcs codec raft rnd env now dial) = (\<lambda>_ path. on_mds (Mkdir codec raft rnd path))"
  "rpc_Delete (cluster_rpcs codec raft rnd env now dial) = (\<lambda>_ path. on_mds (Delete codec raft path))"
  "rpc_Rename (cluster_rpcs codec raft rnd env now dial) = (\<lambda>_ args. on_mds (Rename codec raft args))"
  "rpc_ListDir (cluster_rpcs codec raft rnd env now dial) = (\<lambda>_ path w. ListDir path (cl_mds w))"
  "rpc_Stat (cluster_rpcs codec raft rnd env now dial) = (\<lambda>_ path w. Stat path (cl_mds w))"
  "rpc_DeleteData (cluster_rpcs codec raft rnd env now dial) = (\<lambda>a path. on_node a (DeleteData (env a) path))"
  "rpc_Truncate (cluster_rpcs codec raft rnd env now dial) = (\<lambda>a args. on_node a (TruncateData (env a) now args))"
  "rpc_TriggerGC (cluster_rpcs codec raft rnd env now dial) =
     (\<lambda>_ w. (case checkLeader raft of Some err \<Rightarrow> Inl err | None \<Rightarrow> Inr True, w))"
  by (simp_all add: cluster_rpcs_def)

subsection \<open>Calls\<close>

text \<open>A call through the leader keeps what the call keeps.\<close>

lemma redirect_keeps:
  assumes "\<And>a w r w'. call a w = (r, w') \<Longrightarrow> P w \<Longrightarrow> P w'" "P w"
    and "redirect_loop n dial call method addr w = (r, w')"
  shows "P w'"
  using assms(2,3)
proof (induction n arbitrary: addr w)
  case (Suc n)
  obtain r1 w1 where c: "call addr w = (r1, w1)" by (cases "call addr w")
  have "P w1" by (rule assms(1) [OF c Suc.prems(1)])
  with Suc c show ?case by (auto simp: Let_def split: option.splits sum.splits if_splits)
qed simp

lemma via_leader_keeps:
  assumes "\<And>a w r w'. call a w = (r, w') \<Longrightarrow> P w \<Longrightarrow> P w'" "P w"
    and "via_leader api c method call w = (r, w')"
  shows "P w'"
proof -
  have run: "redirect_loop 3 (rpc_Dial api) call method c w = (r, w')"
    using assms(3) by (simp add: via_leader_def callMDSWithRedirect_def)
  show ?thesis by (rule redirect_keeps [where P = P, OF _ assms(2) run]) (rule assms(1))
qed

lemma on_mds_nodes: "on_mds f w = (r, w') \<Longrightarrow> cl_nodes w' = cl_nodes w"
  by (auto simp: on_mds_def split: prod.splits)

lemma on_node_mds: "on_node a f w = (r, w') \<Longrightarrow> cl_mds w' = cl_mds w"
  by (auto simp: on_node_def split: prod.splits)

lemma updateSize_nodes:
  assumes "updateSize (cluster_rpcs codec raft rnd env now dial) c path sz w = (e, w')"
  shows "cl_nodes w' = cl_nodes w"
proof -
  let ?api = "cluster_rpcs codec raft rnd env now dial"
  let ?call = "\<lambda>a. rpc_UpdateSize ?api a \<lparr>us_Path = path, us_Size = sz\<rparr>"
  obtain r w1 where v: "via_leader ?api c ''MetadataService.UpdateSize'' ?call w = (r, w1)"
    by (cases "via_leader ?api c ''MetadataService.UpdateSize'' ?call w")
  have "cl_nodes w1 = cl_nodes w"
    by (rule via_leader_keeps [where P = "\<lambda>x. cl_nodes x = cl_nodes w", OF _ refl v])
      (auto dest: on_mds_nodes)
  with assms v show ?thesis by (cases r) (auto simp: updateSize_def)
qed

text \<open>A server that leads answers its caller directly.\<close>

lemma via_leader_direct:
  assumes "dial c = None" "call c w = (r, w')" "\<And>err. r = Inl err \<Longrightarrow> extractLeaderAddr err \<in> {[], c}"
    and "rpc_Dial api = dial"
  shows "via_leader api c method call w = (r, w')"
  using assms by (cases r) (auto simp: via_leader_def callMDSWithRedirect_def numeral_3_eq_3 Let_def)

text \<open>
  A call whose failures change nothing, the same at every address: it succeeded where it began, or
  nothing happened.
\<close>

lemma redirect_same:
  assumes "redirect_loop n dial call method addr w = (r, w')"
    and "\<And>a err w1. call a w = (Inl err, w1) \<Longrightarrow> w1 = w" "\<And>a b. call a w = call b w"
  shows "case r of Inl err \<Rightarrow> w' = w | Inr reply \<Rightarrow> call addr w = (Inr reply, w') \<and> dial addr = None"
  using assms(1)
proof (induction n arbitrary: addr)
  case (Suc n)
  obtain x w1 where c: "call addr w = (x, w1)" by (cases "call addr w")
  show ?case
  proof (cases x)
    case (Inr reply)
    with c Suc.prems show ?thesis by (auto split: option.splits)
  next
    case (Inl err)
    with assms(2) c have "w1 = w" by blast
    with Suc.prems c Inl consider "r = Inl err" "w' = w" | e where "r = Inl e" "w' = w"
      | "redirect_loop n dial call method (extractLeaderAddr err) w = (r, w')" "dial addr = None"
      by (auto simp: Let_def split: option.splits if_splits)
    then show ?thesis
    proof cases
      case 3
      from Suc.IH [OF 3(1)] assms(3) [of "extractLeaderAddr err" addr] 3(2) show ?thesis by (simp split: sum.splits)
    qed simp_all
  qed
qed auto

definition keeps_on_error :: "('s \<Rightarrow> 'r result \<times> 's) \<Rightarrow> bool" where
  "keeps_on_error f \<longleftrightarrow> (\<forall>s err s'. f s = (Inl err, s') \<longrightarrow> s' = s)"

lemma via_mds:
  assumes "via_leader (cluster_rpcs codec raft rnd env now dial) c method (\<lambda>_. on_mds f) w = (r, w')"
    and "keeps_on_error f"
  shows "case r of Inl err \<Rightarrow> w' = w
    | Inr x \<Rightarrow> dial c = None \<and> (\<exists>s'. f (cl_mds w) = (Inr x, s') \<and> w' = w\<lparr>cl_mds := s'\<rparr>)"
proof -
  have kept: "u = w" if "on_mds f w = (Inl err, u)" for err u
    using that assms(2) by (cases "f (cl_mds w)") (auto simp: on_mds_def keeps_on_error_def)
  have "case r of Inl err \<Rightarrow> w' = w | Inr x \<Rightarrow> on_mds f w = (Inr x, w') \<and> dial c = None"
    by (rule redirect_same [OF assms(1) [unfolded via_leader_def callMDSWithRedirect_def rpcs_simps]])
      (auto dest: kept)
  then show ?thesis by (cases "f (cl_mds w)"; cases r) (auto simp: on_mds_def)
qed

lemma via_mds_done:
  assumes "dial c = None" "f (cl_mds w) = (Inr x, s')"
  shows "via_leader (cluster_rpcs codec raft rnd env now dial) c method (\<lambda>_. on_mds f) w = (Inr x, w\<lparr>cl_mds := s'\<rparr>)"
  by (rule via_leader_direct [where dial = dial, OF assms(1)]) (simp_all add: on_mds_def assms(2))

text \<open>A write that fails with nothing else in flight leaves the metadata as it was.\<close>

lemma writes_fail:
  assumes "commits codec raft [] t" "\<And>p. carries codec p"
  shows "keeps_on_error (CreateFile codec raft rnd cf)" "keeps_on_error (Rename codec raft ra)"
    "keeps_on_error (UpdateSize codec raft us)" "keeps_on_error (Delete codec raft path)"
    "keeps_on_error (CompleteFile codec raft path)" "keeps_on_error (Mkdir codec raft rnd path)"
  using submit_carried [OF assms]
  by (auto simp: keeps_on_error_def Mkdir_def CreateFile_def Rename_def UpdateSize_def Delete_def CompleteFile_def Let_def
      split: option.splits sum.splits if_splits elim!: returning.elims)

subsection \<open>Replicas that answer\<close>

lemma node_answers:
  assumes "dial (r_Addr r) = None" "env (r_Addr r) = calm" "dn_inv (cl_nodes w (r_Addr r))"
    and "holds (cl_nodes w (r_Addr r)) (r_RemotePath r) = Some bs"
  shows "answers (cluster_rpcs codec raft rnd env now dial) w bs r"
proof -
  have "is_ok (resolvePath (dataDir (cl_nodes w (r_Addr r))) (r_RemotePath r))"
    "stored (cl_nodes w (r_Addr r)) (vcomps (r_RemotePath r)) = Some bs"
    using assms(3,4) by (auto simp: holds_stored split: if_splits)
  with RangeRead_stored [OF assms(3), of "\<lparr>rr_Path = r_RemotePath r, rr_Offset = off, rr_Length = len\<rparr>" bs
      "\<lparr>rrr_Data = [], rrr_EOF = False\<rparr>" for off len] assms(1,2)
  show ?thesis by (simp add: answers_def)
qed

lemma node_refuses: "dial (r_Addr r) \<noteq> None \<Longrightarrow> refuses (cluster_rpcs codec raft rnd env now dial) w r"
  by (auto simp: refuses_def rangeRead_def dialDataNode_def)

end
