(* ===== verification/Client_Props.thy ===== *)
theory Client_Props
  imports Cluster_World
begin

text \<open>
  What users of the client library get from the cluster: reading and writing open files, uploading and
  downloading.
\<close>

subsection \<open>One operation on every replica\<close>

text \<open>
  An operation that only touches its replica's node is run on every replica: with the replicas at
  distinct nodes, what holds of one run holds of each of them.
\<close>

definition on_its_node :: "(Replica \<Rightarrow> cluster \<Rightarrow> error option \<times> cluster) \<Rightarrow>
    (Replica \<Rightarrow> error option \<Rightarrow> data_node \<Rightarrow> data_node \<Rightarrow> bool) \<Rightarrow> bool" where
  "on_its_node op P \<longleftrightarrow> (\<forall>r w e w'. op r w = (e, w') \<longrightarrow>
     P r e (cl_nodes w (r_Addr r)) (cl_nodes w' (r_Addr r)) \<and>
     (\<forall>a. a \<noteq> r_Addr r \<longrightarrow> cl_nodes w' a = cl_nodes w a) \<and> cl_mds w' = cl_mds w)"

lemma each_replica_effect:
  assumes "on_its_node op P" "distinct (map r_Addr rs)" "each_replica op rs w = (es, w')"
  shows "list_all2 (\<lambda>r e. P r e (cl_nodes w (r_Addr r)) (cl_nodes w' (r_Addr r))) rs es \<and>
    (\<forall>a. a \<notin> r_Addr ` set rs \<longrightarrow> cl_nodes w' a = cl_nodes w a) \<and> cl_mds w' = cl_mds w"
  using assms(2,3)
proof (induction rs arbitrary: w es)
  case (Cons r rs)
  obtain e w1 where op: "op r w = (e, w1)" by (cases "op r w")
  obtain es1 w2 where rec: "each_replica op rs w1 = (es1, w2)" by (cases "each_replica op rs w1")
  from op rec Cons.prems(2) have es: "es = e # es1" "w' = w2" by auto
  have one: "P r e (cl_nodes w (r_Addr r)) (cl_nodes w1 (r_Addr r))"
    "\<forall>a. a \<noteq> r_Addr r \<longrightarrow> cl_nodes w1 a = cl_nodes w a" "cl_mds w1 = cl_mds w"
    using assms(1) op by (simp_all add: on_its_node_def)
  have fresh: "r_Addr r \<notin> r_Addr ` set rs" "distinct (map r_Addr rs)" using Cons.prems(1) by auto
  note IH = Cons.IH [OF fresh(2), of w1 es1] rec es(2)
  have rest: "list_all2 (\<lambda>r e. P r e (cl_nodes w1 (r_Addr r)) (cl_nodes w' (r_Addr r))) rs es1"
    using IH by simp
  have same: "cl_nodes w1 (r_Addr x) = cl_nodes w (r_Addr x)" if "x \<in> set rs" for x
  proof -
    have "r_Addr x \<noteq> r_Addr r" using that fresh(1) by (metis image_eqI)
    with one(2) show ?thesis by simp
  qed
  have "list_all2 (\<lambda>r e. P r e (cl_nodes w (r_Addr r)) (cl_nodes w' (r_Addr r))) rs es1"
    using rest by (rule list.rel_mono_strong) (use same in auto)
  moreover have "P r e (cl_nodes w (r_Addr r)) (cl_nodes w' (r_Addr r))"
    using one(1) IH fresh(1) by simp
  ultimately show ?case using IH one es(1) by auto
qed simp

text \<open>A call that is dialled and run at the replica's node, with what it does there.\<close>

lemma on_replica_node:
  assumes "\<And>r n res n'. dial (r_Addr r) = None \<Longrightarrow> call r (env (r_Addr r)) n = (res, n') \<Longrightarrow> P r (case res of Inl err \<Rightarrow> Some (msg @ err) | Inr _ \<Rightarrow> None) n n'"
    and "\<And>r err n. dial (r_Addr r) \<noteq> None \<Longrightarrow> P r (Some err) n n"
  shows "on_its_node (\<lambda>r. on_replica (cluster_rpcs codec raft rnd env now dial) r msg
      (\<lambda>a. on_node a (call r (env a)))) P"
  unfolding on_its_node_def
proof (intro allI impI)
  fix r :: Replica and w e w'
  let ?api = "cluster_rpcs codec raft rnd env now dial"
  assume run: "on_replica ?api r msg (\<lambda>a. on_node a (call r (env a))) w = (e, w')"
  show "P r e (cl_nodes w (r_Addr r)) (cl_nodes w' (r_Addr r)) \<and>
     (\<forall>a. a \<noteq> r_Addr r \<longrightarrow> cl_nodes w' a = cl_nodes w a) \<and> cl_mds w' = cl_mds w"
  proof (cases "dialDataNode ?api (r_Addr r)")
    case (Some err)
    with run have "e = Some err" "w' = w" by (simp_all add: on_replica_def)
    moreover from Some have "dial (r_Addr r) \<noteq> None" by (auto simp: dialDataNode_def)
    ultimately show ?thesis using assms(2) by simp
  next
    case None
    obtain res n' where c: "call r (env (r_Addr r)) (cl_nodes w (r_Addr r)) = (res, n')"
      by (cases "call r (env (r_Addr r)) (cl_nodes w (r_Addr r))")
    from assms(1) [OF _ this] None run c show ?thesis
      by (cases res) (auto simp: on_replica_def on_node_def dialDataNode_def)
  qed
qed

lemma list_all2_member: "list_all2 P xs ys \<Longrightarrow> x \<in> set xs \<Longrightarrow> \<exists>y \<in> set ys. P x y"
  by (force simp: list_all2_conv_all_nth in_set_conv_nth)

lemma list_all2_member2: "list_all2 P xs ys \<Longrightarrow> y \<in> set ys \<Longrightarrow> \<exists>x \<in> set xs. P x y"
  by (force simp: list_all2_conv_all_nth in_set_conv_nth)

lemma successes_all: "successes es = length es \<longleftrightarrow> (\<forall>e \<in> set es. e = None)"
proof (induction es)
  case (Cons e es)
  have "length (filter (\<lambda>e. e = None) es) \<noteq> Suc (length es)"
    using length_filter_le [of "\<lambda>e. e = None" es] by linarith
  with Cons show ?case by (cases e) (auto simp: successes_def)
qed (simp add: successes_def)

subsection \<open>Writing at an offset\<close>

definition written ::
  "int64 \<Rightarrow> byte list \<Rightarrow> Replica \<Rightarrow> error option \<Rightarrow> data_node \<Rightarrow> data_node \<Rightarrow> bool" where
  "written off data r e n n' \<longleftrightarrow> (dn_inv n \<longrightarrow> frame {vcomps (r_RemotePath r)} n n' \<and>
     (e = None \<longrightarrow> sint off \<ge> 0 \<and> holds n' (r_RemotePath r) = Some (if data = [] then
        (case holds n (r_RemotePath r) of Some bs \<Rightarrow> bs | None \<Rightarrow> [])
      else splice (nat (sint off)) data (case holds n (r_RemotePath r) of Some bs \<Rightarrow> bs | None \<Rightarrow> []))))"

lemma PartialWrite_written:
  assumes "PartialWrite env now \<lparr>pw_Path = r_RemotePath r, pw_Offset = off, pw_Data = data\<rparr> n = (res, n')"
  shows "written off data r (case res of Inl err \<Rightarrow> Some (msg @ err) | Inr _ \<Rightarrow> None) n n'"
proof (cases "resolvePath (dataDir n) (r_RemotePath r)")
  case (Inl err)
  with assms show ?thesis
    by (auto simp: written_def PartialWrite_def with_path_def frame_refl)
next
  case (Inr rp)
  have res: "res = Inr True \<or> (\<exists>err. res = Inl err)"
    using assms Inr by (auto simp: PartialWrite_def with_path_def failed_def split: sum.splits prod.splits option.splits if_splits)
  show ?thesis
    unfolding written_def
  proof (intro impI)
    assume inv: "dn_inv n"
    note e = PartialWrite_effect [OF inv _ refl assms, simplified, OF Inr]
    have inv': "dn_inv n'" "dataDir n' = dataDir n" using e(1) by (simp_all add: frame_def)
    have old: "old_bytes n (vcomps (r_RemotePath r)) =
        (case holds n (r_RemotePath r) of Some bs \<Rightarrow> bs | None \<Rightarrow> [])"
      using Inr by (simp add: old_bytes_def holds_stored [OF inv])
    show "frame {vcomps (r_RemotePath r)} n n' \<and>
     ((case res of Inl err \<Rightarrow> Some (msg @ err) | Inr _ \<Rightarrow> None) = None \<longrightarrow> sint off \<ge> 0 \<and> holds n' (r_RemotePath r) = Some (if data = [] then
        (case holds n (r_RemotePath r) of Some bs \<Rightarrow> bs | None \<Rightarrow> [])
      else splice (nat (sint off)) data (case holds n (r_RemotePath r) of Some bs \<Rightarrow> bs | None \<Rightarrow> [])))"
      unfolding old [symmetric] using e res Inr inv' by (auto simp: holds_stored)
  qed
qed

lemma partialWrite_written:
  "on_its_node (\<lambda>r. partialWrite (cluster_rpcs codec raft rnd env now dial) r off data) (written off data)"
  unfolding partialWrite_def rpcs_simps
  by (rule on_replica_node) (auto simp: PartialWrite_written, simp add: written_def frame_refl)

text \<open>The content of a replica, with a missing file as an empty one.\<close>

definition content :: "cluster \<Rightarrow> Replica \<Rightarrow> byte list" where
  "content w r = (case holds (cl_nodes w (r_Addr r)) (r_RemotePath r) of Some bs \<Rightarrow> bs | None \<Rightarrow> [])"

lemma WriteAt_effect:
  assumes run: "WriteAt (cluster_rpcs codec raft rnd env now dial) c data off fh w = (res, fh', w')"
    and rs: "rs = fh_replicas fh" "distinct (map r_Addr rs)" "\<forall>r \<in> set rs. dn_inv (cl_nodes w (r_Addr r))"
    and "data \<noteq> []"
  shows "(\<forall>r \<in> set rs. frame {vcomps (r_RemotePath r)} (cl_nodes w (r_Addr r)) (cl_nodes w' (r_Addr r))) \<and>
    (\<forall>a. a \<notin> r_Addr ` set rs \<longrightarrow> cl_nodes w' a = cl_nodes w a)"
    and "res = Inl err \<Longrightarrow> fh' = fh \<and> cl_mds w' = cl_mds w"
    and "res = Inr n \<Longrightarrow> n = length data \<and> rs \<noteq> [] \<and> sint off \<ge> 0 \<and>
      (\<forall>r \<in> set rs. holds (cl_nodes w' (r_Addr r)) (r_RemotePath r) =
         Some (splice (nat (sint off)) data (content w r))) \<and>
      fh' = (if sint (off + of_nat (length data)) > sint (fh_size fh)
             then fh\<lparr>fh_size := off + of_nat (length data)\<rparr> else fh)"
proof -
  let ?api = "cluster_rpcs codec raft rnd env now dial"
  have "(\<forall>r \<in> set rs. frame {vcomps (r_RemotePath r)} (cl_nodes w (r_Addr r)) (cl_nodes w' (r_Addr r))) \<and>
    (\<forall>a. a \<notin> r_Addr ` set rs \<longrightarrow> cl_nodes w' a = cl_nodes w a) \<and>
    (case res of Inl err \<Rightarrow> fh' = fh \<and> cl_mds w' = cl_mds w
     | Inr n \<Rightarrow> n = length data \<and> rs \<noteq> [] \<and> sint off \<ge> 0 \<and>
      (\<forall>r \<in> set rs. holds (cl_nodes w' (r_Addr r)) (r_RemotePath r) =
         Some (splice (nat (sint off)) data (content w r))) \<and>
      fh' = (if sint (off + of_nat (length data)) > sint (fh_size fh)
             then fh\<lparr>fh_size := off + of_nat (length data)\<rparr> else fh))"
  proof (cases "sint off < 0 \<or> rs = []")
    case True
    then have "\<exists>err. (res, fh', w') = (Inl err, fh, w)"
      unfolding run [symmetric] using rs(1) by (cases "sint off < 0") (simp_all add: WriteAt_def)
    with rs(3) frame_refl show ?thesis by auto
  next
    case False
    obtain es w1 where each: "each_replica (\<lambda>r. partialWrite ?api r off data) rs w = (es, w1)"
      by (cases "each_replica (\<lambda>r. partialWrite ?api r off data) rs w")
    note eff = each_replica_effect [OF partialWrite_written rs(2) each]
    have len: "length es = length rs" using eff by (auto dest: list_all2_lengthD)
    have nodes: "cl_nodes w' = cl_nodes w1"
      using run each False rs(1) updateSize_nodes [OF prod.collapse [symmetric]]
      by (auto simp: WriteAt_def Let_def split: if_splits)
    have at: "\<exists>e \<in> set es. written off data r e (cl_nodes w (r_Addr r)) (cl_nodes w1 (r_Addr r))"
      if "r \<in> set rs" for r using list_all2_member [OF eff [THEN conjunct1] that] .
    have fr: "frame {vcomps (r_RemotePath r)} (cl_nodes w (r_Addr r)) (cl_nodes w1 (r_Addr r))"
      if "r \<in> set rs" for r using at [OF that] rs(3) that by (auto simp: written_def)
    show ?thesis
    proof (cases "successes es = length rs")
      case failed: False
      with run each False rs(1) have "res = Inl (replicas_failed ''writeat'' fh es)" "fh' = fh" "w' = w1"
        by (auto simp: WriteAt_def)
      with eff fr show ?thesis by simp
    next
      case True
      then have none: "\<forall>e \<in> set es. e = None" using successes_all [of es] len by simp
      have "sint off \<ge> 0 \<and> holds (cl_nodes w1 (r_Addr r)) (r_RemotePath r) =
         Some (splice (nat (sint off)) data (content w r))" if "r \<in> set rs" for r
        using at [OF that] that rs(3) assms(5) none by (auto simp: written_def content_def)
      moreover have "res = Inr (length data)" "fh' = (if sint (off + of_nat (length data)) > sint (fh_size fh)
             then fh\<lparr>fh_size := off + of_nat (length data)\<rparr> else fh)"
        using run each False rs(1) True by (auto simp: WriteAt_def Let_def split: if_splits)
      ultimately show ?thesis using eff fr nodes False by auto
    qed
  qed
  then show "(\<forall>r \<in> set rs. frame {vcomps (r_RemotePath r)} (cl_nodes w (r_Addr r)) (cl_nodes w' (r_Addr r))) \<and>
    (\<forall>a. a \<notin> r_Addr ` set rs \<longrightarrow> cl_nodes w' a = cl_nodes w a)"
    and "res = Inl err \<Longrightarrow> fh' = fh \<and> cl_mds w' = cl_mds w"
    and "res = Inr n \<Longrightarrow> n = length data \<and> rs \<noteq> [] \<and> sint off \<ge> 0 \<and>
      (\<forall>r \<in> set rs. holds (cl_nodes w' (r_Addr r)) (r_RemotePath r) =
         Some (splice (nat (sint off)) data (content w r))) \<and>
      fh' = (if sint (off + of_nat (length data)) > sint (fh_size fh)
             then fh\<lparr>fh_size := off + of_nat (length data)\<rparr> else fh)" by auto
qed


text \<open>Replicas that hold the same bytes behind calm system calls: a handle that can be read.\<close>

lemma cluster_agreed:
  assumes "\<forall>r \<in> set (fh_replicas fh). dn_inv (cl_nodes w (r_Addr r)) \<and>
      holds (cl_nodes w (r_Addr r)) (r_RemotePath r) = Some bs"
    and "\<exists>r \<in> set (fh_replicas fh). dial (r_Addr r) = None"
  shows "agreed (cluster_rpcs codec raft rnd (\<lambda>_. calm) now dial) w bs fh"
proof -
  have "answers (cluster_rpcs codec raft rnd (\<lambda>_. calm) now dial) w bs r \<longleftrightarrow> dial (r_Addr r) = None"
    if "r \<in> set (fh_replicas fh)" for r
    using that assms(1) node_answers [of dial r "\<lambda>_. calm" w bs] by (auto simp: answers_def)
  moreover have "refuses (cluster_rpcs codec raft rnd (\<lambda>_. calm) now dial) w r"
    if "dial (r_Addr r) \<noteq> None" for r using that by (rule node_refuses)
  ultimately show ?thesis using assms(2) unfolding agreed_def by blast
qed

lemma WriteAt_reads:
  assumes "WriteAt (cluster_rpcs codec raft rnd env now dial) c data off fh w = (res, fh', w')"
    and "distinct (map r_Addr (fh_replicas fh))" "\<forall>r \<in> set (fh_replicas fh). dn_inv (cl_nodes w (r_Addr r))"
    and "\<forall>r \<in> set (fh_replicas fh). content w r = old"
    and "data \<noteq> []" "sint off + int (length data) < 2 ^ 63"
  shows "case res of
      Inl err \<Rightarrow> fh' = fh \<and> cl_mds w' = cl_mds w
    | Inr n \<Rightarrow> n = length data \<and>
       (\<forall>r \<in> set (fh_replicas fh). holds (cl_nodes w' (r_Addr r)) (r_RemotePath r) =
          Some (splice (nat (sint off)) data old)) \<and>
       (\<exists>sz. fh' = fh\<lparr>fh_size := sz\<rparr> \<and> sint sz = max (sint (fh_size fh)) (sint off + int (length data))) \<and>
       (\<forall>buf dial' now'. length buf = length data \<and> (\<exists>r \<in> set (fh_replicas fh). dial' (r_Addr r) = None) \<longrightarrow>
          ReadAt (cluster_rpcs codec raft rnd (\<lambda>_. calm) now' dial') fh' buf off w' =
            Inr (length data, False, data))"
    and "\<forall>a q. (\<forall>r \<in> set (fh_replicas fh). r_Addr r = a \<longrightarrow> vcomps (r_RemotePath r) \<noteq> vcomps q) \<longrightarrow>
       dn_inv (cl_nodes w a) \<longrightarrow> holds (cl_nodes w' a) q = holds (cl_nodes w a) q"
    and "\<forall>r \<in> set (fh_replicas fh). dn_inv (cl_nodes w' (r_Addr r))"
proof -
  note e = WriteAt_effect [OF assms(1) refl assms(2,3,5)]
  show inv: "\<forall>r \<in> set (fh_replicas fh). dn_inv (cl_nodes w' (r_Addr r))"
    using e(1) by (simp add: frame_def)
  show "\<forall>a q. (\<forall>r \<in> set (fh_replicas fh). r_Addr r = a \<longrightarrow> vcomps (r_RemotePath r) \<noteq> vcomps q) \<longrightarrow>
       dn_inv (cl_nodes w a) \<longrightarrow> holds (cl_nodes w' a) q = holds (cl_nodes w a) q"
  proof (intro allI impI)
    fix a q assume q: "\<forall>r \<in> set (fh_replicas fh). r_Addr r = a \<longrightarrow> vcomps (r_RemotePath r) \<noteq> vcomps q"
      "dn_inv (cl_nodes w a)"
    show "holds (cl_nodes w' a) q = holds (cl_nodes w a) q"
    proof (cases "a \<in> r_Addr ` set (fh_replicas fh)")
      case True
      then obtain r where "r \<in> set (fh_replicas fh)" "r_Addr r = a" by auto
      with e(1) q frame_holds [OF q(2), of "{vcomps (r_RemotePath r)}" "cl_nodes w' a" q] show ?thesis by auto
    next
      case False
      with e(1) show ?thesis by simp
    qed
  qed
  show "case res of
      Inl err \<Rightarrow> fh' = fh \<and> cl_mds w' = cl_mds w
    | Inr n \<Rightarrow> n = length data \<and>
       (\<forall>r \<in> set (fh_replicas fh). holds (cl_nodes w' (r_Addr r)) (r_RemotePath r) =
          Some (splice (nat (sint off)) data old)) \<and>
       (\<exists>sz. fh' = fh\<lparr>fh_size := sz\<rparr> \<and> sint sz = max (sint (fh_size fh)) (sint off + int (length data))) \<and>
       (\<forall>buf dial' now'. length buf = length data \<and> (\<exists>r \<in> set (fh_replicas fh). dial' (r_Addr r) = None) \<longrightarrow>
          ReadAt (cluster_rpcs codec raft rnd (\<lambda>_. calm) now' dial') fh' buf off w' =
            Inr (length data, False, data))"
  proof (cases res)
    case (Inl err)
    with e(2) [OF Inl] show ?thesis by simp
  next
    case (Inr n)
    note s = e(3) [OF Inr]
    let ?bs = "splice (nat (sint off)) data old"
    have st: "\<forall>r \<in> set (fh_replicas fh). holds (cl_nodes w' (r_Addr r)) (r_RemotePath r) = Some ?bs"
      using s assms(4) by simp
    have reps: "fh_replicas fh' = fh_replicas fh" using s by auto
    have read: "ReadAt (cluster_rpcs codec raft rnd (\<lambda>_. calm) now' dial') fh' buf off w' =
        Inr (length data, False, data)"
      if "length buf = length data" "\<exists>r \<in> set (fh_replicas fh). dial' (r_Addr r) = None" for buf dial' now'
    proof -
      have ag: "agreed (cluster_rpcs codec raft rnd (\<lambda>_. calm) now' dial') w' ?bs fh'"
        by (rule cluster_agreed) (use st inv that(2) reps in auto)
      have n: "length data = min (length buf) (length ?bs - nat (sint off))"
        using that(1) length_splice [OF assms(5), of "nat (sint off)" old] by simp
      have "buf \<noteq> []" "sint off \<ge> 0" "sint off + int (length buf) < 2 ^ 63" using that(1) assms(5,6) s by auto
      from ReadAt_agreed [OF ag this n] that(1) show ?thesis by (simp add: take_drop_splice)
    qed
    have "sint (off + of_nat (length data)) = sint off + int (length data)"
      by (rule sint_add_nat) (use s assms(6) in auto)
    then have "\<exists>sz. fh' = fh\<lparr>fh_size := sz\<rparr> \<and> sint sz = max (sint (fh_size fh)) (sint off + int (length data))"
      using s by (intro exI [of _ "if sint (off + of_nat (length data)) > sint (fh_size fh)
        then off + of_nat (length data) else fh_size fh"]) auto
    with Inr s st read show ?thesis by simp
  qed
qed

text \<open>
  C13 (writing an open file). A write through a handle succeeds only when every replica took it: each
  then holds its old bytes with the data at the offset and zeros in a gap, the handle's size has
  grown to the end of the data, and reading the range back gives the data, from whichever replicas
  can be reached. When a write fails the handle and the metadata are as before. No other file of any
  node changes, and the nodes keep their invariant.
\<close>

theorem write_at:
  assumes "WriteAt (cluster_rpcs codec raft rnd env now dial) c data off fh w = (res, fh', w')"
    and "distinct (map r_Addr (fh_replicas fh))" "\<forall>r \<in> set (fh_replicas fh). dn_inv (cl_nodes w (r_Addr r))"
    and "\<forall>r \<in> set (fh_replicas fh). content w r = old"
    and "data \<noteq> []" "sint off + int (length data) < 2 ^ 63"
  shows "(case res of
      Inl err \<Rightarrow> fh' = fh \<and> cl_mds w' = cl_mds w
    | Inr n \<Rightarrow> n = length data \<and>
       (\<forall>r \<in> set (fh_replicas fh). holds (cl_nodes w' (r_Addr r)) (r_RemotePath r) =
          Some (splice (nat (sint off)) data old)) \<and>
       (\<exists>sz. fh' = fh\<lparr>fh_size := sz\<rparr> \<and> sint sz = max (sint (fh_size fh)) (sint off + int (length data))) \<and>
       (\<forall>buf dial' now'. length buf = length data \<and> (\<exists>r \<in> set (fh_replicas fh). dial' (r_Addr r) = None) \<longrightarrow>
          ReadAt (cluster_rpcs codec raft rnd (\<lambda>_. calm) now' dial') fh' buf off w' =
            Inr (length data, False, data))) \<and>
    (\<forall>a q. (\<forall>r \<in> set (fh_replicas fh). r_Addr r = a \<longrightarrow> vcomps (r_RemotePath r) \<noteq> vcomps q) \<longrightarrow>
       dn_inv (cl_nodes w a) \<longrightarrow> holds (cl_nodes w' a) q = holds (cl_nodes w a) q) \<and>
    (\<forall>r \<in> set (fh_replicas fh). dn_inv (cl_nodes w' (r_Addr r)))"
  by (intro conjI WriteAt_reads [OF assms])

text \<open>A cluster of a metadata server and two data nodes, and a file \<^verbatim>\<open>/d/f\<close> open on it.\<close>

definition demo_cluster :: cluster where
  "demo_cluster = \<lparr>cl_mds = demo_server, cl_nodes = (\<lambda>a. demo_dn)\<rparr>"

definition demo_rpcs :: "cluster rpcs" where
  "demo_rpcs = cluster_rpcs direct_codec (solo_raft direct_codec 7) (Inr (replicate 16 255)) (\<lambda>_. calm) 7 (\<lambda>_. None)"

definition demo_handle :: FileHandle where
  "demo_handle = \<lparr>fh_path = ''/d/f'', fh_fileID = ''F'', fh_flags = O_RDWR,
     fh_replicas = [\<lparr>r_Addr = ''n1'', r_RemotePath = ''/data/F''\<rparr>, \<lparr>r_Addr = ''n2'', r_RemotePath = ''/data/F''\<rparr>],
     fh_size = 0, fh_status = ''complete''\<rparr>"

text \<open>Reading with one of the two replicas out of reach.\<close>

theorem read_at_witness:
  "ReadAt (cluster_rpcs direct_codec (solo_raft direct_codec 7) (Inr []) (\<lambda>_. calm) 7
      (\<lambda>a. if a = ''n1'' then Some ''refused'' else None)) demo_handle [0, 0, 9] 1
      (demo_cluster\<lparr>cl_nodes := (\<lambda>_. demo_src)\<rparr>) = Inr (2, True, [2, 3, 9])"
proof -
  let ?dial = "\<lambda>a. if a = ''n1'' then Some ''refused'' else None"
  have ag: "agreed (cluster_rpcs direct_codec (solo_raft direct_codec 7) (Inr []) (\<lambda>_. calm) 7 ?dial)
      (demo_cluster\<lparr>cl_nodes := (\<lambda>_. demo_src)\<rparr>) [1, 2, 3] demo_handle"
    by (rule cluster_agreed) (simp_all add: demo_handle_def demo_src_facts)
  have "nat (sint (1 :: int64)) = 1" by simp
  from read_at [OF ag _ _ _ refl, of "[0, 0, 9]" 1] this show ?thesis by (simp add: min_def)
qed

theorem write_at_witness:
  "\<exists>w' fh'. WriteAt demo_rpcs ''mds'' [5, 6] 1 demo_handle demo_cluster = (Inr 2, fh', w') \<and> fh_size fh' = 3 \<and>
     holds (cl_nodes w' ''n2'') ''/data/F'' = Some [0, 5, 6] \<and>
     ReadAt demo_rpcs fh' [0, 0] 1 w' = Inr (2, False, [5, 6])"
proof -
  let ?run = "WriteAt demo_rpcs ''mds'' [5, 6] 1 demo_handle demo_cluster"
  obtain res fh' w' where run: "?run = (res, fh', w')" by (cases ?run)
  have "is_ok (fst ?run)" by code_simp
  with run obtain n where res: "res = Inr n" by (auto simp: is_ok_iff)
  have none: "\<forall>r \<in> set (fh_replicas demo_handle). content demo_cluster r = []" by code_simp
  have inv: "\<forall>r \<in> set (fh_replicas demo_handle). dn_inv (cl_nodes demo_cluster (r_Addr r))"
    by (simp add: demo_cluster_def demo_dn_inv)
  have d: "distinct (map r_Addr (fh_replicas demo_handle))" by code_simp
  have n: "nat (sint (1 :: int64)) = 1" "splice 1 [5, 6 :: byte] [] = [0, 5, 6]" by (simp, code_simp)
  note w = write_at [OF run [unfolded demo_rpcs_def] d inv none, THEN conjunct1, unfolded res, simplified]
  have r: "\<lparr>r_Addr = ''n2'', r_RemotePath = ''/data/F''\<rparr> \<in> set (fh_replicas demo_handle)"
    by (simp add: demo_handle_def)
  then have h: "holds (cl_nodes w' ''n2'') ''/data/F'' = Some [0, 5, 6]" using w n by fastforce
  obtain sz where sz: "fh' = demo_handle\<lparr>fh_size := sz\<rparr>" "sint sz = 3" using w by (auto simp: demo_handle_def)
  then have "sz = 3" by (intro signed_word_eqI) simp
  have "ReadAt demo_rpcs fh' [0, 0] 1 w' = Inr (2, False, [5, 6])"
    using w [THEN conjunct2, THEN conjunct2, THEN conjunct2, rule_format, of "[0, 0]" "\<lambda>_. None" 7] r
    unfolding demo_rpcs_def by (auto simp: numeral_2_eq_2)
  with run res h sz \<open>sz = 3\<close> w show ?thesis by auto
qed

end
