(* ===== verification/Client_Transfer.thy ===== *)
theory Client_Transfer
  imports Client_Props Gc_Props
begin

text \<open>
  Uploading a file and downloading it again: \<^verbatim>\<open>PutFile\<close> and \<^verbatim>\<open>GetFile\<close> on
  the cluster.
\<close>

subsection \<open>Calls that succeed\<close>

lemma complete_located:
  assumes "mds_inv s" "GetFileLocation path s = Inr loc" "IsLeader raft" "commits codec raft [] now"
    and "\<And>p. carries codec p"
  shows "\<exists>s'. CompleteFile codec raft path s = (Inr True, s') \<and>
    GetFileLocation path s' = Inr (loc\<lparr>fl_Status := StatusComplete\<rparr>)"
proof -
  let ?p = "zero_payload\<lparr>p_Op := OpCompleteFile, p_Path := path\<rparr>"
  from assms(2) obtain e where e: "lookup s path = Some e" "\<not> isDir e"
    "loc = \<lparr>fl_FileID = e_fileID (attr e), fl_Replicas = e_replicas (attr e), fl_Status = e_status (attr e)\<rparr>"
    by (auto simp: GetFileLocation_def split: option.splits if_splits)
  obtain s' where s': "apply_payload now OpCompleteFile ?p s = Inr s'"
    using e by (simp add: apply_payload_def applyCompleteFile_def op_names)
  have at: "ns (root s) (splitPath path) = Some (attr e)" using e(1) by (simp add: ns_def lookup_def)
  from apply_payload_ns [OF inv_wf [OF assms(1)] s'] at e(2)
  have "ns (root s') = (ns (root s))(splitPath path \<mapsto> (attr e)\<lparr>e_status := StatusComplete, e_modTime := now\<rparr>)"
    by (auto simp: spec_apply_def op_names spec_update_def)
  then have "ns (root s') (splitPath path) = Some ((attr e)\<lparr>e_status := StatusComplete, e_modTime := now\<rparr>)" by simp
  then obtain e' where "lookup s' path = Some e'"
    "attr e' = (attr e)\<lparr>e_status := StatusComplete, e_modTime := now\<rparr>" by (auto simp: ns_def lookup_def)
  then have "GetFileLocation path s' = Inr (loc\<lparr>fl_Status := StatusComplete\<rparr>)"
    using e(2,3) by (simp add: GetFileLocation_def)
  moreover have "CompleteFile codec raft path s = (Inr True, s')"
    using submit_carried [OF assms(4,5), of ?p s] s' assms(3)
    by (simp add: CompleteFile_def checkLeader_def)
  ultimately show ?thesis by blast
qed

subsection \<open>Storing on every replica\<close>

definition store_one :: "'w rpcs \<Rightarrow> byte list \<Rightarrow> Replica \<Rightarrow> 'w \<Rightarrow> error option \<times> 'w" where
  "store_one api data r w = on_replica api r ''store data failed: ''
     (\<lambda>a. rpc_StoreData api a \<lparr>sa_Path = r_RemotePath r, sa_Content = data\<rparr>) w"

lemma store_each: "store_replicas api data rs w = each_replica (store_one api data) rs w"
proof (induction rs arbitrary: w)
  case (Cons r rs)
  then show ?case
    by (auto simp: store_one_def on_replica_def split: option.splits prod.splits sum.splits)
qed simp

definition stored_whole :: "byte list \<Rightarrow> Replica \<Rightarrow> error option \<Rightarrow> data_node \<Rightarrow> data_node \<Rightarrow> bool" where
  "stored_whole data r e n n' \<longleftrightarrow> (dn_inv n \<and> canonical (r_RemotePath r) \<longrightarrow> dn_inv n' \<and>
     holds n' (r_RemotePath r) = (if e = None then Some data else holds n (r_RemotePath r)))"

lemma StoreData_whole:
  assumes "StoreData env now \<lparr>sa_Path = r_RemotePath r, sa_Content = data\<rparr> n = (res, n')"
  shows "stored_whole data r (case res of Inl err \<Rightarrow> Some (msg @ err) | Inr _ \<Rightarrow> None) n n'"
proof (cases "resolvePath (dataDir n) (r_RemotePath r)")
  case (Inl err)
  with assms show ?thesis by (auto simp: stored_whole_def StoreData_def with_path_def)
next
  case (Inr rp)
  have res: "res = Inr True \<or> (\<exists>err. res = Inl err)"
    using assms Inr by (auto simp: StoreData_def with_path_def failed_def Let_def
        split: sum.splits prod.splits option.splits)
  show ?thesis
    unfolding stored_whole_def
  proof (intro impI)
    assume a: "dn_inv n \<and> canonical (r_RemotePath r)"
    then have ne: "vcomps (r_RemotePath r) \<noteq> []" by (simp add: canonical_def)
    note e = StoreData_effect [OF a [THEN conjunct1], of "\<lparr>sa_Path = r_RemotePath r, sa_Content = data\<rparr>",
        simplified, OF Inr refl ne assms]
    then have "dn_inv n'" "dataDir n' = dataDir n" by (simp_all add: frame_def)
    with e res a Inr show "dn_inv n' \<and> holds n' (r_RemotePath r) =
        (if (case res of Inl err \<Rightarrow> Some (msg @ err) | Inr _ \<Rightarrow> None) = None then Some data
         else holds n (r_RemotePath r))" by (auto simp: holds_stored)
  qed
qed

lemma store_whole:
  "on_its_node (store_one (cluster_rpcs codec raft rnd env now dial) data) (stored_whole data)"
  unfolding store_one_def [abs_def] rpcs_simps
  by (rule on_replica_node) (auto simp: StoreData_whole, simp add: stored_whole_def)

subsection \<open>Fetching\<close>

lemma fetch_first:
  assumes "\<forall>r \<in> set rs. rpc_GetData api (r_Addr r) (r_RemotePath r) w = Inr bs \<or>
      (\<exists>err. rpc_GetData api (r_Addr r) (r_RemotePath r) w = Inl err)"
    and "\<exists>r \<in> set rs. rpc_Dial api (r_Addr r) = None \<and> rpc_GetData api (r_Addr r) (r_RemotePath r) w = Inr bs"
    and "bs \<noteq> []"
  shows "\<exists>lastErr'. fetch api rs lastErr w = (Some bs, lastErr')"
  using assms(1,2)
proof (induction rs arbitrary: lastErr)
  case (Cons r rs)
  show ?case
  proof (cases "rpc_Dial api (r_Addr r) = None \<and> rpc_GetData api (r_Addr r) (r_RemotePath r) w = Inr bs")
    case True
    with assms(3) show ?thesis by (simp add: dialDataNode_def gob_bytes_def)
  next
    case False
    with Cons.prems(2) have tl: "\<exists>r \<in> set rs. rpc_Dial api (r_Addr r) = None \<and>
        rpc_GetData api (r_Addr r) (r_RemotePath r) w = Inr bs" by auto
    have ih: "\<exists>lastErr'. fetch api rs e w = (Some bs, lastErr')" for e
      by (rule Cons.IH) (use Cons.prems(1) tl in auto)
    from Cons.prems(1) False have "rpc_Dial api (r_Addr r) \<noteq> None \<or>
        (\<exists>err. rpc_GetData api (r_Addr r) (r_RemotePath r) w = Inl err)" by auto
    with ih show ?thesis by (cases "rpc_Dial api (r_Addr r)") (auto simp: dialDataNode_def)
  qed
qed simp

lemma holds_GetData: "holds n p = Some bs \<Longrightarrow> GetData calm p n = Inr bs"
  "holds n p = None \<Longrightarrow> \<exists>err. GetData calm p n = Inl err"
  by (auto simp: holds_def split: sum.splits)

text \<open>A download of a complete file with the same bytes on every replica that has it.\<close>

lemma GetFile_writes:
  assumes "dial c = None" "GetFileLocation path (cl_mds w) = Inr loc" "fl_Status loc \<noteq> ''pending''"
    and "\<forall>r \<in> set (fl_Replicas loc). holds (cl_nodes w (r_Addr r)) (r_RemotePath r) \<in> {None, Some bs}"
    and "\<exists>r \<in> set (fl_Replicas loc). dial (r_Addr r) = None \<and>
      holds (cl_nodes w (r_Addr r)) (r_RemotePath r) = Some bs"
    and "bs \<noteq> []"
  shows "GetFile (cluster_rpcs codec raft rnd (\<lambda>_. calm) now dial) env1 now1 c path localPath w disk =
    (case WriteFile env1 now1 localPath bs disk of
       (Some err, d) \<Rightarrow> (Some (''write local file failed: '' @ err_text err), d) | (None, d) \<Rightarrow> (None, d))"
proof -
  let ?api = "cluster_rpcs codec raft rnd (\<lambda>_. calm) now dial"
  have "\<exists>lastErr'. fetch ?api (fl_Replicas loc) None w = (Some bs, lastErr')"
  proof (rule fetch_first)
    show "\<forall>r \<in> set (fl_Replicas loc). rpc_GetData ?api (r_Addr r) (r_RemotePath r) w = Inr bs \<or>
      (\<exists>err. rpc_GetData ?api (r_Addr r) (r_RemotePath r) w = Inl err)"
      using assms(4) holds_GetData by (auto simp: rpcs_simps)
    show "\<exists>r \<in> set (fl_Replicas loc). rpc_Dial ?api (r_Addr r) = None \<and>
        rpc_GetData ?api (r_Addr r) (r_RemotePath r) w = Inr bs"
      using assms(5) holds_GetData(1) by auto
  qed (rule assms(6))
  with assms(1-3) show ?thesis by (auto simp: GetFile_def query_def dialMDS_def Let_def)
qed

subsection \<open>There and back\<close>

lemma PutFile_succeeds:
  assumes run: "PutFile (cluster_rpcs codec raft (Inr rnd) env now dial) env0 c disk lp rp mode w = (None, w')"
    and data: "ReadFile env0 lp disk = Inr data"
    and raft: "IsLeader raft" "commits codec raft [] now" "\<And>p. carries codec p"
    and inv: "mds_inv (cl_mds w)" "\<And>a. dn_inv (cl_nodes w a)" and rnd: "length rnd = 16"
    and new: "\<And>a. holds (cl_nodes w a) (''/data/'' @ hex_encode rnd) = None"
  shows "\<exists>loc. GetFileLocation rp (cl_mds w') = Inr loc \<and> fl_Status loc = StatusComplete \<and>
    (\<forall>r \<in> set (fl_Replicas loc). r_RemotePath r = ''/data/'' @ hex_encode rnd \<and>
       holds (cl_nodes w' (r_Addr r)) (r_RemotePath r) \<in> {None, Some data}) \<and>
    (\<exists>r \<in> set (fl_Replicas loc). holds (cl_nodes w' (r_Addr r)) (r_RemotePath r) = Some data)"
proof -
  let ?api = "cluster_rpcs codec raft (Inr rnd) env now dial"
  let ?args = "\<lparr>cf_Path = rp, cf_Size = of_nat (length data), cf_CreateMode = mode\<rparr>"
  let ?create = "via_leader ?api c ''MetadataService.CreateFile'' (\<lambda>a. rpc_CreateFile ?api a ?args) w"
  obtain reply w1 where cr: "?create = (Inr reply, w1)"
    using run data by (cases ?create; cases "fst ?create") (auto simp: PutFile_def)
  from via_mds [OF cr [unfolded rpcs_simps] writes_fail(1) [OF raft(2,3)]]
  obtain s1 where s1: "CreateFile codec raft (Inr rnd) ?args (cl_mds w) = (Inr reply, s1)"
    "w1 = w\<lparr>cl_mds := s1\<rparr>" and dial: "dial c = None" by auto
  from create_located [OF inv(1) raft(2,3) rnd s1(1) refl refl]
  obtain loc where loc: "GetFileLocation rp s1 = Inr loc" "fl_Replicas loc = cfr_Replicas reply"
    and reps: "\<forall>r \<in> set (cfr_Replicas reply). r_RemotePath r = ''/data/'' @ hex_encode rnd"
      "distinct (map r_Addr (cfr_Replicas reply))" and inv1: "mds_inv s1" by auto
  obtain es w2 where st: "store_replicas ?api data (cfr_Replicas reply) w1 = (es, w2)"
    by (cases "store_replicas ?api data (cfr_Replicas reply) w1")
  note eff = each_replica_effect [OF store_whole reps(2) st [unfolded store_each]]
  have "rnd \<noteq> []" using rnd by auto
  then have "canonical (''/data/'' @ hex_encode rnd)"
    using data_path(1) [OF identity_clean] by (simp add: data_dir_def)
  then have at: "\<exists>e \<in> set es. holds (cl_nodes w2 (r_Addr r)) (r_RemotePath r) = (if e = None then Some data else None)"
    if "r \<in> set (cfr_Replicas reply)" for r
    using list_all2_member [OF eff [THEN conjunct1] that] that reps(1) inv(2) new s1(2)
    by (auto simp: stored_whole_def)
  have ok: "successes es \<noteq> 0" and w': "w' = snd (via_leader ?api c ''MetadataService.CompleteFile''
      (\<lambda>a. rpc_CompleteFile ?api a rp) w2)"
    using run data cr st by (auto simp: PutFile_def split: if_splits)
  from ok have "None \<in> set es" by (auto simp: successes_def filter_empty_conv)
  then have some: "\<exists>r \<in> set (cfr_Replicas reply). holds (cl_nodes w2 (r_Addr r)) (r_RemotePath r) = Some data"
    using list_all2_member2 [OF eff [THEN conjunct1], of None] reps(1) inv(2) s1(2) \<open>canonical _\<close>
    by (auto simp: stored_whole_def)
  obtain s2 where s2: "CompleteFile codec raft rp s1 = (Inr True, s2)"
    "GetFileLocation rp s2 = Inr (loc\<lparr>fl_Status := StatusComplete\<rparr>)"
    using complete_located [OF inv1 loc(1) raft] by blast
  have "cl_mds w2 = s1" using eff s1(2) by simp
  then have "via_leader ?api c ''MetadataService.CompleteFile'' (\<lambda>a. rpc_CompleteFile ?api a rp) w2 =
      (Inr True, w2\<lparr>cl_mds := s2\<rparr>)"
    unfolding rpcs_simps by (intro via_mds_done [where dial = dial, OF dial]) (simp add: s2(1))
  with w' have w2: "w' = w2\<lparr>cl_mds := s2\<rparr>" by simp
  have "holds (cl_nodes w2 (r_Addr r)) (r_RemotePath r) \<in> {None, Some data}"
    if "r \<in> set (cfr_Replicas reply)" for r using at [OF that] by (auto split: if_splits)
  with s2(2) some reps(1) show ?thesis unfolding w2 by (auto simp: loc(2))
qed

text \<open>
  C12 (upload, then download). Whatever the environments of the data nodes do during an upload, when
  it succeeds on a leader with nothing else in flight the file is complete, and a later download that
  reaches the metadata server and at least one replica that took the data writes exactly the uploaded
  bytes to its local file: replicas that missed the data answer with an error, never with other bytes.
  The random identity is one that no data node has a file of yet, and the file is not empty.
\<close>

theorem put_then_get:
  assumes "PutFile (cluster_rpcs codec raft (Inr rnd) env now dial) env0 c disk lp rp mode w = (None, w')"
    and "ReadFile env0 lp disk = Inr data" "data \<noteq> []"
    and "IsLeader raft" "commits codec raft [] now" "\<And>p. carries codec p"
    and "mds_inv (cl_mds w)" "\<And>a. dn_inv (cl_nodes w a)" "length rnd = 16"
    and "\<And>a. holds (cl_nodes w a) (''/data/'' @ hex_encode rnd) = None"
  shows "\<exists>loc. GetFileLocation rp (cl_mds w') = Inr loc \<and> fl_Status loc = StatusComplete \<and>
    (\<exists>r \<in> set (fl_Replicas loc). holds (cl_nodes w' (r_Addr r)) (r_RemotePath r) = Some data) \<and>
    (\<forall>dial' c'. dial' c' = None \<and> (\<exists>r \<in> set (fl_Replicas loc). dial' (r_Addr r) = None \<and>
         holds (cl_nodes w' (r_Addr r)) (r_RemotePath r) = Some data) \<longrightarrow>
       GetFile (cluster_rpcs codec raft rnd' (\<lambda>_. calm) now' dial') env1 now1 c' rp lp' w' disk' =
       (case WriteFile env1 now1 lp' data disk' of
          (Some err, d) \<Rightarrow> (Some (''write local file failed: '' @ err_text err), d)
        | (None, d) \<Rightarrow> (None, d)))"
proof -
  from PutFile_succeeds [OF assms(1,2,4-10)] obtain loc where
    loc: "GetFileLocation rp (cl_mds w') = Inr loc" "fl_Status loc = StatusComplete"
    "\<forall>r \<in> set (fl_Replicas loc). holds (cl_nodes w' (r_Addr r)) (r_RemotePath r) \<in> {None, Some data}"
    "\<exists>r \<in> set (fl_Replicas loc). holds (cl_nodes w' (r_Addr r)) (r_RemotePath r) = Some data" by blast
  have st: "fl_Status loc \<noteq> ''pending''" using loc(2) by (simp add: StatusComplete_def)
  show ?thesis
    using loc(1,2,4) GetFile_writes [OF _ loc(1) st loc(3) _ assms(3)] by blast
qed

definition local_disk :: disk where
  "local_disk = put_file ''/tmp/in'' [4, 2] 0 [([''tmp''], Dir)]"

theorem put_then_get_witness:
  "\<exists>w' d. PutFile demo_rpcs calm ''mds'' local_disk ''/tmp/in'' ''/d/new'' CreateIfNotExist demo_cluster = (None, w') \<and>
     GetFile demo_rpcs calm 9 ''mds'' ''/d/new'' ''/tmp/out'' w' local_disk = (None, d) \<and>
     ReadFile calm ''/tmp/out'' d = Inr [4, 2]"
proof -
  let ?put = "PutFile demo_rpcs calm ''mds'' local_disk ''/tmp/in'' ''/d/new'' CreateIfNotExist demo_cluster"
  obtain e w' where run: "?put = (e, w')" by (cases ?put)
  have ok: "fst ?put = None" by code_simp
  have rd: "ReadFile calm ''/tmp/in'' local_disk = Inr [4, 2]" by code_simp
  have inv: "mds_inv (cl_mds demo_cluster)" "\<And>a. dn_inv (cl_nodes demo_cluster a)"
    by (simp_all add: demo_cluster_def demo_server_inv demo_dn_inv)
  have "holds demo_dn (''/data/'' @ hex_encode (replicate 16 255)) = None" by code_simp
  then have new: "holds (cl_nodes demo_cluster a) (''/data/'' @ hex_encode (replicate 16 255)) = None" for a
    by (simp add: demo_cluster_def)
  have raft: "IsLeader (solo_raft direct_codec 7)" by (simp add: solo_raft_def)
  have put: "?put = (None, w')" using run ok by simp
  have "([4, 2] :: byte list) \<noteq> []" "length (replicate 16 (255 :: byte)) = 16" by simp_all
  note get = put_then_get [OF put [unfolded demo_rpcs_def] rd this(1) raft solo_commits direct_carries inv this(2) new, of
      "Inr (replicate 16 255)" 7 calm 9 "''/tmp/out''" local_disk]
  have "GetFile demo_rpcs calm 9 ''mds'' ''/d/new'' ''/tmp/out'' w' local_disk =
       (case WriteFile calm 9 ''/tmp/out'' [4, 2] local_disk of
          (Some err, d) \<Rightarrow> (Some (''write local file failed: '' @ err_text err), d) | (None, d) \<Rightarrow> (None, d))"
    unfolding demo_rpcs_def using get by (elim exE conjE) (drule spec [of _ "\<lambda>_. None"], fast)
  moreover have "fst (WriteFile calm 9 ''/tmp/out'' [4, 2] local_disk) = None"
    "ReadFile calm ''/tmp/out'' (snd (WriteFile calm 9 ''/tmp/out'' [4, 2] local_disk)) = Inr [4, 2]" by code_simp+
  ultimately show ?thesis using put by (cases "WriteFile calm 9 ''/tmp/out'' [4, 2] local_disk") auto
qed

end
