(* ===== verification/Fuse_Props.thy ===== *)
theory Fuse_Props
  imports Fuse_Node Client_Transfer
begin

text \<open>
  What a mounted file system shows: listings agree with lookups, and a rename keeps the inode number
  of what it moves. The go-fuse library is arbitrary up to what the statements say of it.
\<close>

subsection \<open>Paths and errors\<close>

lemma node_joinPath: "node_joinPath = joinPath"
  by (intro ext) (simp add: node_joinPath_def joinPath_def del: slash_lit)

lemma stat_ns: "Stat path s = (case ns (root s) (splitPath path) of
     None \<Rightarrow> Inl (''path not found: '' @ path)
   | Some a \<Rightarrow> Inr (file_info (e_name a) path a))"
  by (simp add: Stat_def ns_def lookup_def split: option.splits)

lemma not_found_ENOENT: "errToErrno (u @ ''not found'' @ v) = ENOENT"
proof -
  have "Contains (u @ ''not found'' @ v) ''not found''" unfolding Contains_iff by blast
  then show ?thesis by (simp add: errToErrno_def)
qed

definition no_path :: "string \<Rightarrow> error" where
  "no_path path = ''stat failed: path not found: '' @ path"

lemma stat_missing [simp]: "errToErrno (no_path path) = ENOENT"
  using not_found_ENOENT [of "''stat failed: path ''" "'': '' @ path"] by (simp add: no_path_def)

lemma Client_Stat_cluster:
  assumes "dial c = None"
  shows "Client_Stat (cluster_rpcs codec raft rnd env now dial) c path w =
    (case ns (root (cl_mds w)) (splitPath path) of
       None \<Rightarrow> Inl (no_path path)
     | Some a \<Rightarrow> Inr (file_info (e_name a) path a))"
  using assms by (simp add: Client_Stat_def query_def dialMDS_def stat_ns no_path_def split: option.splits)

lemma Getattr_cluster:
  assumes "dial c = None"
  shows "Getattr (cluster_rpcs codec raft rnd env now dial) c n w =
    (case ns (root (cl_mds w)) (splitPath (fn_path n)) of
       None \<Rightarrow> Inl ENOENT
     | Some a \<Rightarrow> Inr (attr_out (file_info (e_name a) (fn_path n) a)))"
  by (simp add: Getattr_def Client_Stat_cluster [where dial = dial, OF assms] split: option.splits)

text \<open>The inode that a lookup of a path asks the library for.\<close>

definition inode_of :: "entry_attr \<Rightarrow> string \<Rightarrow> StableAttr" where
  "inode_of a path = \<lparr>st_Mode = (if e_isDir a then S_IFDIR OR 0x1ED else S_IFREG OR 0x1A4),
                      st_Ino = inodeFromID (e_fileID a) path\<rparr>"

lemma Lookup_cluster:
  assumes "dial c = None"
  shows "Lookup lib (cluster_rpcs codec raft rnd env now dial) c n name w =
    (let path = node_joinPath (fn_path n) name in
     case ns (root (cl_mds w)) (splitPath path) of
       None \<Rightarrow> (Inl ENOENT, w)
     | Some a \<Rightarrow> (case NewInode lib n \<lparr>fn_path = path\<rparr> (inode_of a path) w of
         (i, w') \<Rightarrow> (Inr (i, entry_out (infoToAttr (file_info (e_name a) path a))), w')))"
  unfolding Lookup_def Let_def Client_Stat_cluster [where dial = dial, OF assms]
  by (auto simp: inode_of_def modeFromInfo_def file_info_def split: option.splits)

subsection \<open>Listings and lookups\<close>

text \<open>What a listing has under a name is made of the attributes of the child of that name.\<close>

lemma Readdir_finds:
  assumes "mds_inv (cl_mds w)" "dial c = None" "is_dir_at (ns (root (cl_mds w))) (splitPath (fn_path n))"
    and "api = cluster_rpcs codec raft rnd env now dial"
  shows "\<exists>entries. Readdir api c n w = Inr entries \<and>
    (\<forall>name. List.find (\<lambda>e. de_Name e = name) entries = map_option (\<lambda>a.
       let st = inode_of a (node_joinPath (fn_path n) name)
       in \<lparr>de_Name = name, de_Mode = st_Mode st, de_Ino = st_Ino st\<rparr>) (ns (root (cl_mds w)) (splitPath (fn_path n) @ [name])))"
proof -
  let ?m = "ns (root (cl_mds w))" and ?q = "splitPath (fn_path n)"
  obtain infos where infos: "ListDir (fn_path n) (cl_mds w) = Inr infos"
    "set infos = {file_info m (FilepathJoin (fn_path n) m) a | m a. ?m (?q @ [m]) = Some a}"
    using listed_children [OF assms(1) refl assms(3)] by blast
  define entry where "entry = (\<lambda>info. \<lparr>de_Name = fi_Name info, de_Mode = modeFromInfo info,
      de_Ino = inodeFromID (fi_FileID info) (node_joinPath (fn_path n) (fi_Name info))\<rparr>)"
  define made where "made = (\<lambda>name a. let st = inode_of a (node_joinPath (fn_path n) name)
      in \<lparr>de_Name = name, de_Mode = st_Mode st, de_Ino = st_Ino st\<rparr>)"
  have run: "Readdir api c n w = Inr (map entry infos)"
    using infos(1) assms(2) by (simp add: assms(4) Readdir_def Client_ListDir_def query_def dialMDS_def entry_def)
  have made: "entry (file_info name (FilepathJoin (fn_path n) name) a) = made name a" for name a
    by (simp add: entry_def made_def inode_of_def file_info_def modeFromInfo_def Let_def)
  have listed: "e \<in> set (map entry infos) \<longleftrightarrow> (\<exists>name a. ?m (?q @ [name]) = Some a \<and> e = made name a)" for e
    unfolding set_map infos(2) by (fastforce simp: made [symmetric])
  have name: "de_Name (made name a) = name" for name a by (simp add: made_def Let_def)
  have "List.find (\<lambda>e. de_Name e = name) (map entry infos) = map_option (made name) (?m (?q @ [name]))" for name
  proof (cases "List.find (\<lambda>e. de_Name e = name) (map entry infos)")
    case None
    then have "e \<notin> set (map entry infos)" if "de_Name e = name" for e using that unfolding find_None_iff by blast
    then have "?m (?q @ [name]) = None" using listed [of "made name _"] name [of name]
      by (cases "?m (?q @ [name])") blast+
    with None show ?thesis by simp
  next
    case (Some e)
    then have "e \<in> set (map entry infos)" "de_Name e = name" by (auto simp: find_Some_iff)
    then obtain a where "?m (?q @ [name]) = Some a" "e = made name a" using listed name by metis
    with Some show ?thesis by simp
  qed
  with run show ?thesis by (auto simp: made_def)
qed

lemma joined_not_root: "valid_name name \<Longrightarrow> node_joinPath p name \<noteq> ''/''"
  by (cases p) (auto simp: node_joinPath_def valid_name_def slash_def simp del: slash_lit)

lemma mode_bits: "S_IFDIR OR 0x1ED = 0x41ED" "S_IFREG OR 0x1A4 = 0x81A4"
  by (simp_all add: S_IFDIR_def S_IFREG_def)

text \<open>
  C37 (listing a mounted directory). Reading a directory lists exactly the names below it, all of
  them names without slash. Under each, the listing has the mode of a directory or of a file and the
  FNV hash of the child's identity as inode number. Looking the name up asks the library for an inode
  of that mode and number, and answers with the child's size, its modification time in whole seconds
  and its links; \<^verbatim>\<open>Getattr\<close> of the child gives the same attributes. A name that is not
  there is answered with \<^verbatim>\<open>ENOENT\<close>, and no inode is made.
\<close>

theorem readdir_lookup:
  assumes "mds_inv (cl_mds w)" "dial c = None" "is_dir_at (ns (root (cl_mds w))) (splitPath (fn_path n))"
    and "api = cluster_rpcs codec raft rnd env now dial"
  shows "\<exists>entries. Readdir api c n w = Inr entries \<and>
    de_Name ` set entries = {m. ns (root (cl_mds w)) (splitPath (fn_path n) @ [m]) \<noteq> None} \<and>
    (\<forall>e \<in> set entries. valid_name (de_Name e)) \<and>
    (\<forall>name child. valid_name name \<and>
       child = \<lparr>fn_path = (if fn_path n = ''/'' then ''/'' @ name else fn_path n @ ''/'' @ name)\<rparr> \<longrightarrow>
       (case ns (root (cl_mds w)) (splitPath (fn_path n) @ [name]) of
          None \<Rightarrow> Lookup lib api c n name w = (Inl ENOENT, w) \<and> Getattr api c child w = Inl ENOENT
        | Some a \<Rightarrow>
           (let h = foldl (\<lambda>h r. (h XOR of_nat r) * 1099511628211) 1469598103934665603 (runes (e_fileID a));
                ino = (if h = 0 then 1 else h);
                mode = (if e_isDir a then 0x41ED else 0x81A4);
                out = \<lparr>at_Mode = mode, at_Size = e_size a,
                  at_Mtime = word_of_int (e_modTime a div second), at_Nlink = (if e_isDir a then 2 else 1)\<rparr>
            in List.find (\<lambda>e. de_Name e = name) entries = Some \<lparr>de_Name = name, de_Mode = mode, de_Ino = ino\<rparr> \<and>
               Lookup lib api c n name w = (case NewInode lib n child \<lparr>st_Mode = mode, st_Ino = ino\<rparr> w of
                 (i, w') \<Rightarrow> (Inr (i, \<lparr>eo_Attr = out, eo_EntryTimeout = second, eo_AttrTimeout = second\<rparr>), w')) \<and>
               Getattr api c child w = Inr \<lparr>ao_Attr = out, ao_Timeout = second\<rparr>)))"
proof -
  let ?m = "ns (root (cl_mds w))" and ?q = "splitPath (fn_path n)"
  obtain entries where run: "Readdir api c n w = Inr entries"
    and found: "\<And>name. List.find (\<lambda>e. de_Name e = name) entries = map_option (\<lambda>a.
       let st = inode_of a (node_joinPath (fn_path n) name)
       in \<lparr>de_Name = name, de_Mode = st_Mode st, de_Ino = st_Ino st\<rparr>) (?m (?q @ [name]))"
    using Readdir_finds [where dial = dial, OF assms] by blast
  have listed: "name \<in> de_Name ` set entries \<longleftrightarrow> ?m (?q @ [name]) \<noteq> None" for name
    using find_None_iff [of "\<lambda>e. de_Name e = name" entries] by (auto simp: found)
  have "wf_entry (root (cl_mds w))" using assms(1) by (simp add: mds_inv_def wf_root_def)
  then have "valid_name name" if "?m (?q @ [name]) \<noteq> None" for name
    using that wf_entry_lookup_valid [of "root (cl_mds w)" "?q @ [name]"] by (auto simp: ns_def)
  with listed have "\<forall>e \<in> set entries. valid_name (de_Name e)" by blast
  moreover have "de_Name ` set entries = {m. ?m (?q @ [m]) \<noteq> None}" using listed by blast
  moreover have "case ?m (?q @ [name]) of
      None \<Rightarrow> Lookup lib api c n name w = (Inl ENOENT, w) \<and> Getattr api c child w = Inl ENOENT
    | Some a \<Rightarrow>
       (let h = foldl (\<lambda>h r. (h XOR of_nat r) * 1099511628211) 1469598103934665603 (runes (e_fileID a));
            ino = (if h = 0 then 1 else h);
            mode = (if e_isDir a then 0x41ED else 0x81A4);
            out = \<lparr>at_Mode = mode, at_Size = e_size a,
              at_Mtime = word_of_int (e_modTime a div second), at_Nlink = (if e_isDir a then 2 else 1)\<rparr>
        in List.find (\<lambda>e. de_Name e = name) entries = Some \<lparr>de_Name = name, de_Mode = mode, de_Ino = ino\<rparr> \<and>
           Lookup lib api c n name w = (case NewInode lib n child \<lparr>st_Mode = mode, st_Ino = ino\<rparr> w of
             (i, w') \<Rightarrow> (Inr (i, \<lparr>eo_Attr = out, eo_EntryTimeout = second, eo_AttrTimeout = second\<rparr>), w')) \<and>
           Getattr api c child w = Inr \<lparr>ao_Attr = out, ao_Timeout = second\<rparr>)"
    if "valid_name name" "child = \<lparr>fn_path = (if fn_path n = ''/'' then ''/'' @ name else fn_path n @ ''/'' @ name)\<rparr>"
    for name child
  proof -
    let ?path = "node_joinPath (fn_path n) name"
    have child: "child = \<lparr>fn_path = ?path\<rparr>" using that(2) by (simp add: node_joinPath_def)
    have sp: "splitPath ?path = ?q @ [name]" using that(1) by (simp add: node_joinPath splitPath_joinPath)
    have fnv: "fnv_step = (\<lambda>h r. (h XOR of_nat r) * 1099511628211)" by (simp add: fun_eq_iff fnv_step_def)
    note l = Lookup_cluster [where dial = dial, OF assms(2), of lib codec raft rnd env now n name w,
      folded assms(4), unfolded Let_def sp]
    note g = Getattr_cluster [where dial = dial, OF assms(2), of codec raft rnd env now child w,
      folded assms(4), unfolded child fuseNode.simps sp]
    show ?thesis
    proof (cases "?m (?q @ [name])")
      case None
      with l g show ?thesis by (simp add: child)
    next
      case (Some a)
      have ino: "inodeFromID fid ?path = (let h = foldl fnv_step 1469598103934665603 (runes fid)
          in if h = 0 then 1 else h)" for fid
        using joined_not_root [OF that(1)] by (simp add: inodeFromID_def)
      show ?thesis
        unfolding l g Some found child option.case option.map Let_def inode_of_def ino
        by (simp add: attr_out_def entry_out_def infoToAttr_def file_info_def modeFromInfo_def mode_bits
            defaultTimeout_def fnv [symmetric])
    qed
  qed
  ultimately show ?thesis using run by blast
qed

definition demo_lib :: "(StableAttr, 'w) go_fuse" where
  "demo_lib = \<lparr>NewInode = \<lambda>_ _ st w. (st, w), RmChild = \<lambda>_ _ w. w\<rparr>"

theorem readdir_lookup_witness:
  "\<exists>entries. Readdir demo_rpcs ''mds'' \<lparr>fn_path = ''/d''\<rparr> demo_cluster = Inr entries \<and> ''f'' \<in> de_Name ` set entries \<and>
     (\<exists>i. fst (Lookup demo_lib demo_rpcs ''mds'' \<lparr>fn_path = ''/d''\<rparr> ''f'' demo_cluster) = Inr i) \<and>
     fst (Lookup demo_lib demo_rpcs ''mds'' \<lparr>fn_path = ''/d''\<rparr> ''g'' demo_cluster) = Inl ENOENT"
proof -
  let ?n = "\<lparr>fn_path = ''/d''\<rparr>" and ?m = "ns (root (cl_mds demo_cluster))"
  have d: "is_dir_at ?m (splitPath (fn_path ?n))" and dial: "(\<lambda>_. None) ''mds'' = None"
    by (code_simp, simp)
  have inv: "mds_inv (cl_mds demo_cluster)" by (simp add: demo_cluster_def demo_server_inv)
  have sp: "splitPath ''/d'' = [''d'']" by code_simp
  have "?m [''d'', ''f''] \<noteq> None" "?m [''d'', ''g''] = None" by code_simp+
  then obtain a where m: "?m [''d'', ''f''] = Some a" "?m [''d'', ''g''] = None" by blast
  have names: "valid_name ''f''" "valid_name ''g''" by (simp_all add: valid_name_def slash_def)
  show ?thesis
    using readdir_lookup [OF inv dial d demo_rpcs_def, where lib = demo_lib and c = "''mds''"]
    apply (elim exE conjE)
    subgoal premises prems for entries
    proof (intro exI [of _ entries] conjI)
      note look = prems(4) [rule_format, OF conjI, OF _ refl, unfolded fuseNode.simps sp append_Cons append_Nil]
      show "\<exists>i. fst (Lookup demo_lib demo_rpcs ''mds'' ?n ''f'' demo_cluster) = Inr i"
        using look [OF names(1)] m(1) by (simp add: Let_def demo_lib_def)
      show "fst (Lookup demo_lib demo_rpcs ''mds'' ?n ''g'' demo_cluster) = Inl ENOENT"
        using look [OF names(2)] m(2) by simp
      show "''f'' \<in> de_Name ` set entries" using prems(2) m(1) by (simp add: sp)
    qed (rule prems(1))
    done
qed

subsection \<open>Renaming\<close>

lemma Client_Rename_done:
  assumes run: "Client_Rename (cluster_rpcs codec raft rnd env now dial) c src dst w = (None, w')"
    and raft: "commits codec raft [] t" "\<And>p. carries codec p"
    and "src \<noteq> dst" "mds_inv (cl_mds w)"
  shows "dial c = None" "spec_rename t (splitPath src) (splitPath dst) (ns (root (cl_mds w))) = Some (ns (root (cl_mds w')))"
    "cl_nodes w' = cl_nodes w"
proof -
  let ?api = "cluster_rpcs codec raft rnd env now dial"
  let ?args = "\<lparr>ra_SrcPath = src, ra_DstPath = dst\<rparr>"
  let ?p = "zero_payload\<lparr>p_Op := OpRename, p_Path := src, p_DstPath := dst\<rparr>"
  let ?call = "via_leader ?api c ''MetadataService.Rename'' (\<lambda>a. rpc_Rename ?api a ?args) w"
  obtain reply where v: "?call = (Inr reply, w')"
    using run by (cases ?call; cases "fst ?call") (auto simp: Client_Rename_def)
  from via_mds [OF v [unfolded rpcs_simps] writes_fail(2) [OF raft]]
  obtain s' where dial: "dial c = None" and s': "Rename codec raft ?args (cl_mds w) = (Inr reply, s')" "cl_mds w' = s'"
    and "cl_nodes w' = cl_nodes w" by auto
  then show "dial c = None" "cl_nodes w' = cl_nodes w" by auto
  have "apply_payload t OpRename ?p (cl_mds w) = Inr s'"
    using s'(1) assms(4) submit_carried [OF raft, of ?p "cl_mds w"]
    by (auto simp: Rename_def Let_def split: option.splits sum.splits if_splits elim!: returning.elims)
  from apply_payload_ns [OF inv_wf [OF assms(5)] this] s'(2)
  show "spec_rename t (splitPath src) (splitPath dst) (ns (root (cl_mds w))) = Some (ns (root (cl_mds w')))"
    by (simp add: spec_apply_def op_names)
qed

text \<open>
  C38 (renaming in a mounted directory). When a rename succeeds with nothing else in flight, a lookup
  of the new name asks for the same mode and inode number as a lookup of the old name did before it,
  while the old name is gone and no data node was touched. The node object that the earlier lookup
  made still carries the old path: its attributes are \<^verbatim>\<open>ENOENT\<close> from now on, although the
  file it stands for exists.
\<close>

theorem rename_keeps_inode:
  assumes "fuse_Rename lib api c n name (Some d) newName w = (None, w')"
    and "api = cluster_rpcs codec raft rnd env now dial" "mds_inv (cl_mds w)"
    and "commits codec raft [] t" "\<And>p. carries codec p" "\<And>x m v. RmChild lib x m v = v"
    and "valid_name name" "valid_name newName"
    and "old = node_joinPath (fn_path n) name" "new = node_joinPath (fn_path d) newName"
    and "splitPath (fn_path n) @ [name] \<noteq> splitPath (fn_path d) @ [newName]"
  shows "(\<exists>st out out'.
      Lookup lib api c n name w = (case NewInode lib n \<lparr>fn_path = old\<rparr> st w of (i, w1) \<Rightarrow> (Inr (i, out), w1)) \<and>
      Lookup lib api c d newName w' = (case NewInode lib d \<lparr>fn_path = new\<rparr> st w' of (i, w1) \<Rightarrow> (Inr (i, out'), w1))) \<and>
    Lookup lib api c n name w' = (Inl ENOENT, w') \<and> Getattr api c \<lparr>fn_path = old\<rparr> w' = Inl ENOENT \<and>
    cl_nodes w' = cl_nodes w"
proof -
  let ?src = "splitPath (fn_path n) @ [name]" and ?dst = "splitPath (fn_path d) @ [newName]"
  have paths: "splitPath old = ?src" "splitPath new = ?dst"
    using assms(7-10) by (simp_all add: node_joinPath splitPath_joinPath)
  then have ne: "old \<noteq> new" using assms(11) by auto
  have ren: "Client_Rename api c old new w = (None, w')"
    using assms(1,6,9,10) by (auto simp: fuse_Rename_def split: option.splits prod.splits)
  note r = Client_Rename_done [OF ren [unfolded assms(2)] assms(4,5) ne assms(3), unfolded paths]
  obtain a where a: "ns (root (cl_mds w)) ?src = Some a" using r(2) by (auto simp: spec_rename_def split: if_splits)
  have ns': "ns (root (cl_mds w')) = spec_moved t ?src ?dst (ns (root (cl_mds w)))"
    and above: "\<not> prefix ?src (butlast ?dst)" using r(2) by (auto simp: spec_rename_def split: if_splits)
  have moved: "ns (root (cl_mds w')) ?dst = Some (a\<lparr>e_name := newName, e_modTime := t\<rparr>)"
    using a by (simp add: ns' spec_moved_def)
  have "\<not> prefix ?dst ?src"
  proof
    assume p: "prefix ?dst ?src"
    then obtain rest where rest: "?src = ?dst @ rest" by (auto simp: prefix_def)
    with assms(11) have "rest \<noteq> []" by auto
    moreover have "wf_entry (root (cl_mds w))" using assms(3) by (simp add: mds_inv_def wf_root_def)
    ultimately show False
      using a r(2) ns_below_missing [of "root (cl_mds w)" ?dst rest] ns_below_file [of "root (cl_mds w)" ?dst _ rest]
      unfolding rest by (auto simp: spec_rename_def is_dir_at_def split: if_splits option.splits)
  qed
  then have gone: "ns (root (cl_mds w')) ?src = None"
    using assms(11) by (auto simp: ns' spec_moved_def)
  have st: "inode_of (a\<lparr>e_name := newName, e_modTime := t\<rparr>) new = inode_of a old"
    using joined_not_root assms(7-10) by (simp add: inode_of_def inodeFromID_def)
  note at = Lookup_cluster [where dial = dial, OF r(1)] Getattr_cluster [where dial = dial, OF r(1)]
  have "\<exists>out. Lookup lib api c n name w =
      (case NewInode lib n \<lparr>fn_path = old\<rparr> (inode_of a old) w of (i, w1) \<Rightarrow> (Inr (i, out), w1))"
    unfolding assms(2) at Let_def assms(9) [symmetric] paths a by auto
  moreover have "\<exists>out. Lookup lib api c d newName w' =
      (case NewInode lib d \<lparr>fn_path = new\<rparr> (inode_of a old) w' of (i, w1) \<Rightarrow> (Inr (i, out), w1))"
    unfolding assms(2) at Let_def assms(10) [symmetric] paths moved option.case st by auto
  moreover have "Lookup lib api c n name w' = (Inl ENOENT, w')" "Getattr api c \<lparr>fn_path = old\<rparr> w' = Inl ENOENT"
    unfolding assms(2) at Let_def assms(9) [symmetric] by (simp_all add: paths gone)
  ultimately show ?thesis using r(3) by blast
qed

theorem rename_keeps_inode_witness:
  "\<exists>w' st out. fuse_Rename demo_lib demo_rpcs ''mds'' \<lparr>fn_path = ''/d''\<rparr> ''f'' (Some \<lparr>fn_path = ''/''\<rparr>) ''g'' demo_cluster = (None, w') \<and>
     fst (Lookup demo_lib demo_rpcs ''mds'' \<lparr>fn_path = ''/''\<rparr> ''g'' w') = Inr (st, out) \<and>
     (\<exists>out. fst (Lookup demo_lib demo_rpcs ''mds'' \<lparr>fn_path = ''/d''\<rparr> ''f'' demo_cluster) = Inr (st, out)) \<and>
     Getattr demo_rpcs ''mds'' \<lparr>fn_path = ''/d/f''\<rparr> w' = Inl ENOENT"
proof -
  let ?n = "\<lparr>fn_path = ''/d''\<rparr>" and ?d = "\<lparr>fn_path = ''/''\<rparr>"
  let ?run = "fuse_Rename demo_lib demo_rpcs ''mds'' ?n ''f'' (Some ?d) ''g'' demo_cluster"
  obtain w' where run: "?run = (None, w')"
  proof -
    have "fst ?run = None" by code_simp
    then show ?thesis using that by (cases ?run) auto
  qed
  have inv: "mds_inv (cl_mds demo_cluster)" by (simp add: demo_cluster_def demo_server_inv)
  have rm: "RmChild demo_lib x m v = v" for x m and v :: cluster by (simp add: demo_lib_def)
  have names: "valid_name ''f''" "valid_name ''g''" by (simp_all add: valid_name_def slash_def)
  have paths: "''/d/f'' = node_joinPath (fn_path ?n) ''f''" "''/g'' = node_joinPath (fn_path ?d) ''g''"
    "splitPath (fn_path ?n) @ [''f''] \<noteq> splitPath (fn_path ?d) @ [''g'']" by code_simp+
  from rename_keeps_inode [OF run demo_rpcs_def inv solo_commits direct_carries rm names paths] run
  show ?thesis by (auto simp: demo_lib_def)
qed

end
