(* ===== verification/Go_Flags.thy ===== *)
theory Go_Flags
  imports Go_Strings
begin

text \<open>
  Go's \<^verbatim>\<open>flag\<close> package, as far as the programs use it: a set of defined flags (boolean,
  string or unsigned) is parsed off the front of an argument list. The settings come back in the order
  of the command line, so that a later one overrides an earlier one, with the arguments that remain.
  A \<^verbatim>\<open>FlagSet\<close> made with \<^verbatim>\<open>ExitOnError\<close> ends the program on a failure.
\<close>

datatype flag_kind = BoolFlag | StringFlag | Uint64Flag

datatype flag_error =
    HelpWanted
  | BadSyntax string
  | NotDefined string
  | NeedsArgument string
  | BadValue string string

definition ParseBool :: "string \<Rightarrow> bool option" where
  "ParseBool s =
     (if s \<in> {''1'', ''t'', ''T'', ''true'', ''TRUE'', ''True''} then Some True
      else if s \<in> {''0'', ''f'', ''F'', ''false'', ''FALSE'', ''False''} then Some False
      else None)"

text \<open>
  \<^verbatim>\<open>strconv.ParseUint(s, 0, 64)\<close>: the prefix gives the base, underscores may separate
  digits. \<open>saw\<close> is the kind of the character before: the start, a digit (or the prefix), or an
  underscore.
\<close>

datatype saw = SawStart | SawDigit | SawUnderscore

fun underscores_ok :: "saw \<Rightarrow> string \<Rightarrow> bool" where
  "underscores_ok saw [] \<longleftrightarrow> saw \<noteq> SawUnderscore"
| "underscores_ok saw (c # s) \<longleftrightarrow>
     (if c = CHR ''_'' then saw = SawDigit \<and> underscores_ok SawUnderscore s
      else underscores_ok SawDigit s)"

definition digit_value :: "char \<Rightarrow> int option" where
  "digit_value c =
     (let n = of_char c in
      if 48 \<le> n \<and> n \<le> 57 then Some (n - 48)
      else if 97 \<le> n \<and> n \<le> 122 then Some (n - 87)
      else if 65 \<le> n \<and> n \<le> 90 then Some (n - 55)
      else None)"

fun digits_value :: "int \<Rightarrow> int \<Rightarrow> string \<Rightarrow> int option" where
  "digits_value base n [] = Some n"
| "digits_value base n (c # s) =
     (if c = CHR ''_'' then digits_value base n s
      else (case digit_value c of
              None \<Rightarrow> None
            | Some d \<Rightarrow> if d \<ge> base then None else digits_value base (n * base + d) s))"

text \<open>The base, whether a prefix names it, and the digits behind the prefix.\<close>

definition number_base :: "string \<Rightarrow> int \<times> bool \<times> string" where
  "number_base s =
     (if s = [] \<or> hd s \<noteq> CHR ''0'' then (10, False, s)
      else if length s \<ge> 3 \<and> s ! 1 \<in> {CHR ''b'', CHR ''B''} then (2, True, drop 2 s)
      else if length s \<ge> 3 \<and> s ! 1 \<in> {CHR ''o'', CHR ''O''} then (8, True, drop 2 s)
      else if length s \<ge> 3 \<and> s ! 1 \<in> {CHR ''x'', CHR ''X''} then (16, True, drop 2 s)
      else (8, False, drop 1 s))"

definition ParseUint :: "string \<Rightarrow> uint64 option" where
  "ParseUint s =
     (if s = [] then None
      else
       (case number_base s of (base, named, digits) \<Rightarrow>
         (case digits_value base 0 digits of
            None \<Rightarrow> None
          | Some n \<Rightarrow>
              if n \<ge> 2 ^ 64 then None
              else if underscores_ok (if named then SawDigit else SawStart) (if named then digits else s)
              then Some (word_of_int n) else None)))"

definition valid_value :: "flag_kind \<Rightarrow> string \<Rightarrow> bool" where
  "valid_value kind v =
     (case kind of BoolFlag \<Rightarrow> ParseBool v \<noteq> None | StringFlag \<Rightarrow> True | Uint64Flag \<Rightarrow> ParseUint v \<noteq> None)"

text \<open>The name and the value of \<^verbatim>\<open>name=value\<close>; the equals sign is never the first character.\<close>

definition cut_value :: "string \<Rightarrow> string \<times> string option" where
  "cut_value s =
     (let name = takeWhile (\<lambda>c. c \<noteq> CHR ''='') s in
      (name, if CHR ''='' \<in> set s then Some (drop (Suc (length name)) s) else None))"

definition flag_name :: "string \<Rightarrow> string" where
  "flag_name s = (if s ! 1 = CHR ''-'' then drop 2 s else drop 1 s)"

type_synonym settings = "(string \<times> string) list"

definition setting :: "string \<Rightarrow> string \<Rightarrow> flag_error + settings \<times> string list \<Rightarrow> flag_error + settings \<times> string list" where
  "setting name v rest = map_sum id (map_prod ((#) (name, v)) id) rest"

fun parse_flags :: "(string \<times> flag_kind) list \<Rightarrow> string list \<Rightarrow> flag_error + settings \<times> string list" where
  "parse_flags formal [] = Inr ([], [])"
| "parse_flags formal (s # args) =
     (if length s < 2 \<or> hd s \<noteq> CHR ''-'' then Inr ([], s # args)
      else if s = ''--'' then Inr ([], args)
      else if flag_name s = [] \<or> hd (flag_name s) \<in> {CHR ''-'', CHR ''=''} then Inl (BadSyntax s)
      else
       (case cut_value (flag_name s) of (name, v) \<Rightarrow>
         (case map_of formal name of
            None \<Rightarrow> Inl (if name = ''help'' \<or> name = ''h'' then HelpWanted else NotDefined name)
          | Some kind \<Rightarrow>
             (case v of
                Some x \<Rightarrow>
                  if valid_value kind x then setting name x (parse_flags formal args) else Inl (BadValue x name)
              | None \<Rightarrow>
                  if kind = BoolFlag then setting name ''true'' (parse_flags formal args)
                  else (case args of
                          [] \<Rightarrow> Inl (NeedsArgument name)
                        | x # args' \<Rightarrow>
                            if valid_value kind x then setting name x (parse_flags formal args')
                            else Inl (BadValue x name))))))"

text \<open>The value of a string flag and of a boolean flag behind the settings.\<close>

definition string_flag :: "settings \<Rightarrow> string \<Rightarrow> string \<Rightarrow> string" where
  "string_flag st name initial = (case map_of (rev st) name of Some v \<Rightarrow> v | None \<Rightarrow> initial)"

definition bool_flag :: "settings \<Rightarrow> string \<Rightarrow> bool" where
  "bool_flag st name = (case map_of (rev st) name of Some v \<Rightarrow> ParseBool v = Some True | None \<Rightarrow> False)"

definition uint64_flag :: "settings \<Rightarrow> string \<Rightarrow> uint64 \<Rightarrow> uint64" where
  "uint64_flag st name initial =
     (case map_of (rev st) name of Some v \<Rightarrow> (case ParseUint v of Some n \<Rightarrow> n | None \<Rightarrow> initial) | None \<Rightarrow> initial)"

definition exit_on_error :: "flag_error \<Rightarrow> nat" where
  "exit_on_error e = (if e = HelpWanted then 0 else 2)"

lemma parse_plain: "length s < 2 \<or> hd s \<noteq> CHR ''-'' \<Longrightarrow> parse_flags formal (s # args) = Inr ([], s # args)"
  by simp

end
