(* ===== verification/Command_Line.thy ===== *)
theory Command_Line
  imports Fuse_Node Go_Flags
begin

text \<open>
  The command line client (\<^verbatim>\<open>cmd/fstorex/main.go\<close>): the flags, the dispatch on the
  command, what each command prints and the exit status of the process. Lines of output stand for the
  calls of \<^verbatim>\<open>fmt\<close> and of the logger; a table is kept as its rows, which
  \<^verbatim>\<open>text/tabwriter\<close> aligns. What the client library logs on its way and the
  messages of the flag package are left out. The text of a time (\<^verbatim>\<open>RFC3339\<close>, in the
  local time zone) and the go-fuse server are arguments.
\<close>

subsection \<open>Mounting\<close>

text \<open>
  \<^verbatim>\<open>internal/fuse/filesystem.go\<close>. What the library makes of a mount is a server: the
  callbacks it serves until the signal take the world along, and unmounting may fail.
\<close>

record mount_options =
  mo_AttrTimeout :: duration
  mo_EntryTimeout :: duration
  mo_Name :: string
  mo_Options :: "string list"

record 'w fuse_server =
  fs_serve :: "'w \<Rightarrow> 'w"
  fs_Unmount :: "error option"

definition Mount ::
  "(string \<Rightarrow> string \<Rightarrow> fuseNode \<Rightarrow> mount_options \<Rightarrow> 'w fuse_server result) \<Rightarrow> string \<Rightarrow> string \<Rightarrow>
   'w fuse_server result" where
  "Mount fs_Mount c mountPoint =
     (let node = \<lparr>fn_path = ''/''\<rparr>;
          options = \<lparr>mo_AttrTimeout = defaultTimeout, mo_EntryTimeout = defaultTimeout,
                     mo_Name = ''fstorex'', mo_Options = [''default_permissions'']\<rparr>
      in fs_Mount c mountPoint node options)"

subsection \<open>The process\<close>

datatype shown =
    Line string
  | Table "string list list"
  | LogInfo string
  | LogError string error
  | Stderr string

record 'w process =
  pr_out :: "shown list"
  pr_world :: 'w
  pr_disk :: disk

record 'w host =
  h_api :: "'w rpcs"
  h_env :: os_env
  h_now :: time
  h_RFC3339 :: "time \<Rightarrow> string"
  h_Mount :: "string \<Rightarrow> string \<Rightarrow> fuseNode \<Rightarrow> mount_options \<Rightarrow> 'w fuse_server result"

definition say :: "shown list \<Rightarrow> 'w process \<Rightarrow> 'w process" where
  "say os p = p\<lparr>pr_out := pr_out p @ os\<rparr>"

text \<open>Ending with status 1 after an error of an operation, and after a usage line.\<close>

definition failing :: "string \<Rightarrow> error \<Rightarrow> 'w process \<Rightarrow> nat \<times> 'w process" where
  "failing msg err p = (1, say [LogError msg err] p)"

definition usage :: "string \<Rightarrow> 'w process \<Rightarrow> nat \<times> 'w process" where
  "usage text p = (1, say [Line text] p)"

definition finish :: "shown list \<Rightarrow> 'w process \<Rightarrow> nat \<times> 'w process" where
  "finish os p = (0, say os p)"

definition tick_mark :: string where
  "tick_mark = [CHR 0xE2, CHR 0x9C, CHR 0x93]"

definition arrow :: string where
  "arrow = [CHR 0xE2, CHR 0x86, CHR 0x92]"

definition show_int64 :: "int64 \<Rightarrow> string" where
  "show_int64 x = (if sint x < 0 then ''-'' @ show_nat (nat (- sint x)) else show_nat (nat (sint x)))"

subsection \<open>Commands\<close>

definition cmd_mkdir :: "'w host \<Rightarrow> string \<Rightarrow> string list \<Rightarrow> 'w process \<Rightarrow> nat \<times> 'w process" where
  "cmd_mkdir h c args p =
     (if length args < 2 then usage ''Usage: client mkdir <path>'' p
      else (case Client_Mkdir (h_api h) c (args ! 1) (pr_world p) of
              (Some err, w) \<Rightarrow> failing ''mkdir failed'' err (p\<lparr>pr_world := w\<rparr>)
            | (None, w) \<Rightarrow> finish [Line (tick_mark @ '' Directory created: '' @ args ! 1)] (p\<lparr>pr_world := w\<rparr>)))"

definition cmd_put :: "'w host \<Rightarrow> string \<Rightarrow> string list \<Rightarrow> 'w process \<Rightarrow> nat \<times> 'w process" where
  "cmd_put h c args p =
     (case parse_flags [(''overwrite'', BoolFlag)] (drop 1 args) of
        Inl e \<Rightarrow> (exit_on_error e, p)
      | Inr (st, putArgs) \<Rightarrow>
         (if length putArgs < 2 then usage ''Usage: client put [-overwrite] <local> <remote>'' p
          else (let mode = (if bool_flag st ''overwrite'' then OverwriteIfExists else CreateIfNotExist) in
            case PutFile (h_api h) (h_env h) c (pr_disk p) (putArgs ! 0) (putArgs ! 1) mode (pr_world p) of
              (Some err, w) \<Rightarrow> failing ''put failed'' err (p\<lparr>pr_world := w\<rparr>)
            | (None, w) \<Rightarrow> finish [Line (tick_mark @ '' File uploaded: '' @ putArgs ! 0 @ '' '' @ arrow @ '' '' @ putArgs ! 1)]
                             (p\<lparr>pr_world := w\<rparr>))))"

definition cmd_get :: "'w host \<Rightarrow> string \<Rightarrow> string list \<Rightarrow> 'w process \<Rightarrow> nat \<times> 'w process" where
  "cmd_get h c args p =
     (if length args < 3 then usage ''Usage: client get <remote> <local>'' p
      else (case GetFile (h_api h) (h_env h) (h_now h) c (args ! 1) (args ! 2) (pr_world p) (pr_disk p) of
              (Some err, d) \<Rightarrow> failing ''get failed'' err (p\<lparr>pr_disk := d\<rparr>)
            | (None, d) \<Rightarrow> finish [Line (tick_mark @ '' File downloaded: '' @ args ! 1 @ '' '' @ arrow @ '' '' @ args ! 2)]
                             (p\<lparr>pr_disk := d\<rparr>)))"

definition ls_row :: "(time \<Rightarrow> string) \<Rightarrow> FileInfo \<Rightarrow> string list" where
  "ls_row fmt info =
     [fi_Name info, show_int64 (fi_Size info), fmt (fi_ModTime info), if fi_IsDir info then ''DIR'' else ''FILE'']"

definition cmd_ls :: "'w host \<Rightarrow> string \<Rightarrow> string list \<Rightarrow> 'w process \<Rightarrow> nat \<times> 'w process" where
  "cmd_ls h c args p =
     (let path = (if length args \<ge> 2 then args ! 1 else ''/'') in
      case Client_ListDir (h_api h) c path (pr_world p) of
        Inl err \<Rightarrow> failing ''ls failed'' err p
      | Inr infos \<Rightarrow>
          if infos = [] then finish [Line ''(empty)''] p
          else finish [Table ([''NAME'', ''SIZE'', ''MODIFIED'', ''TYPE''] # map (ls_row (h_RFC3339 h)) infos)] p)"

definition cmd_stat :: "'w host \<Rightarrow> string \<Rightarrow> string list \<Rightarrow> 'w process \<Rightarrow> nat \<times> 'w process" where
  "cmd_stat h c args p =
     (if length args < 2 then usage ''Usage: client stat <path>'' p
      else (case Client_Stat (h_api h) c (args ! 1) (pr_world p) of
              Inl err \<Rightarrow> failing ''stat failed'' err p
            | Inr info \<Rightarrow> finish
               [Line (''Name:      '' @ fi_Name info),
                Line (''Path:      '' @ fi_Path info),
                Line (''Type:      '' @ (if fi_IsDir info then ''Directory'' else ''File'')),
                Line (''Size:      '' @ show_int64 (fi_Size info) @ '' bytes''),
                Line (''Created:   '' @ h_RFC3339 h (fi_CreatedAt info)),
                Line (''Modified:  '' @ h_RFC3339 h (fi_ModTime info))] p))"

definition cmd_rm :: "'w host \<Rightarrow> string \<Rightarrow> string list \<Rightarrow> 'w process \<Rightarrow> nat \<times> 'w process" where
  "cmd_rm h c args p =
     (if length args < 2 then usage ''Usage: client rm <path>'' p
      else (case Client_Delete (h_api h) c (args ! 1) (pr_world p) of
              (Some err, w) \<Rightarrow> failing ''rm failed'' err (p\<lparr>pr_world := w\<rparr>)
            | (None, w) \<Rightarrow> finish [Line (tick_mark @ '' Path deleted: '' @ args ! 1)] (p\<lparr>pr_world := w\<rparr>)))"

fun replica_rows :: "nat \<Rightarrow> Replica list \<Rightarrow> string list list" where
  "replica_rows i [] = []"
| "replica_rows i (r # rs) = [show_nat (i + 1), r_Addr r, r_RemotePath r] # replica_rows (i + 1) rs"

definition cmd_replicas :: "'w host \<Rightarrow> string \<Rightarrow> string list \<Rightarrow> 'w process \<Rightarrow> nat \<times> 'w process" where
  "cmd_replicas h c args p =
     (if length args < 2 then usage ''Usage: client replicas <path>'' p
      else (case GetReplicas (h_api h) c (args ! 1) (pr_world p) of
              Inl err \<Rightarrow> failing ''replicas failed'' err p
            | Inr replicas \<Rightarrow> finish
               [Line (''Replicas for '' @ args ! 1 @ '' ('' @ show_nat (length replicas) @ '' total):''),
                Table ([''#'', ''DATA NODE'', ''REMOTE PATH''] # replica_rows 0 replicas)] p))"

definition cmd_nodes :: "'w host \<Rightarrow> string \<Rightarrow> 'w process \<Rightarrow> nat \<times> 'w process" where
  "cmd_nodes h c p =
     (case Client_ListDataNodes (h_api h) c (pr_world p) of
        Inl err \<Rightarrow> failing ''list nodes failed'' err p
      | Inr nodes \<Rightarrow> finish
         (Line (''Data nodes ('' @ show_nat (length nodes) @ ''):'') # map (\<lambda>n. Line (''  - '' @ n)) nodes) p)"

definition cmd_gc :: "'w host \<Rightarrow> string \<Rightarrow> 'w process \<Rightarrow> nat \<times> 'w process" where
  "cmd_gc h c p =
     (case Client_TriggerGC (h_api h) c (pr_world p) of
        (Some err, w) \<Rightarrow> failing ''trigger GC failed'' err (p\<lparr>pr_world := w\<rparr>)
      | (None, w) \<Rightarrow> finish [Line (tick_mark @ '' GC triggered in background (check MDS logs for results)'')]
                       (p\<lparr>pr_world := w\<rparr>))"

text \<open>The mount is served until a signal arrives, and then taken down.\<close>

definition is_mount_point :: "os_env \<Rightarrow> string \<Rightarrow> disk \<Rightarrow> bool" where
  "is_mount_point env path d = (fails env SStat path = None \<and> find_node d path = Inr Dir)"

definition cmd_mount :: "'w host \<Rightarrow> string \<Rightarrow> string list \<Rightarrow> 'w process \<Rightarrow> nat \<times> 'w process" where
  "cmd_mount h c args p =
     (if length args < 2 then usage ''Usage: fstorex -mds=<addr> mount <mountpoint>'' p
      else (let mountPoint = args ! 1 in
       if \<not> is_mount_point (h_env h) mountPoint (pr_disk p)
       then (1, say [Stderr (''Error: mount point '' @ mountPoint @ '' does not exist or is not a directory'')] p)
       else (case Mount (h_Mount h) c mountPoint of
               Inl err \<Rightarrow> failing ''mount failed'' err p
             | Inr server \<Rightarrow>
                (let p = say [LogInfo ''fuse mounted'', LogInfo ''FStoreX mounted'', LogInfo ''Press Ctrl+C to unmount''] p;
                     p = p\<lparr>pr_world := fs_serve server (pr_world p)\<rparr>;
                     p = say [LogInfo ''received shutdown signal, unmounting...'', LogInfo ''unmounting''] p
                 in case fs_Unmount server of
                      Some err \<Rightarrow> failing ''unmount failed'' err p
                    | None \<Rightarrow> finish [LogInfo ''unmounted successfully''] p))))"

subsection \<open>The program\<close>

definition printUsage :: "shown list" where
  "printUsage = map Line
    [''FStoreX Client'', [], ''Usage: fstorex -mds=<addr> <command> [args]'', [], ''Commands:'',
     ''  mkdir <path>                    Create directory'',
     ''  put [-overwrite] <local> <remote> Upload file (-overwrite to overwrite existing)'',
     ''  get <remote> <local>            Download file'',
     ''  ls [path]                       List directory (default: /)'',
     ''  stat <path>                     Show file/directory info'',
     ''  rm <path>                       Delete file/directory'',
     ''  replicas <path>                 Show file'' @ [CHR 0x27] @ ''s replica locations'',
     ''  nodes                           List registered data nodes'',
     ''  gc                              Trigger orphan data garbage collection'',
     ''  mount <mountpoint>              Mount FStoreX as local filesystem (FUSE)'']"

definition dispatch :: "'w host \<Rightarrow> string \<Rightarrow> string list \<Rightarrow> 'w process \<Rightarrow> nat \<times> 'w process" where
  "dispatch h c args p =
     (let cmd = args ! 0 in
      if cmd = ''mkdir'' then cmd_mkdir h c args p
      else if cmd = ''put'' then cmd_put h c args p
      else if cmd = ''get'' then cmd_get h c args p
      else if cmd = ''ls'' then cmd_ls h c args p
      else if cmd = ''stat'' then cmd_stat h c args p
      else if cmd = ''rm'' then cmd_rm h c args p
      else if cmd = ''replicas'' then cmd_replicas h c args p
      else if cmd = ''nodes'' then cmd_nodes h c p
      else if cmd = ''gc'' then cmd_gc h c p
      else if cmd = ''mount'' then cmd_mount h c args p
      else (1, say (Line (''Unknown command: '' @ cmd) # Line [] # printUsage) p))"

definition main_flags :: "(string \<times> flag_kind) list" where
  "main_flags = [(''mds'', StringFlag)]"

definition fstorex_main :: "'w host \<Rightarrow> string list \<Rightarrow> 'w process \<Rightarrow> nat \<times> 'w process" where
  "fstorex_main h argv p =
     (case parse_flags main_flags argv of
        Inl e \<Rightarrow> (exit_on_error e, p)
      | Inr (st, args) \<Rightarrow>
          if args = [] then (1, say printUsage p)
          else dispatch h (string_flag st ''mds'' ''localhost:9001'') args p)"

end
