(* ===== verification/Client_Files.thy ===== *)
theory Client_Files
  imports Client_Transfer
begin

text \<open>Opening and deleting files through the client library, on the cluster.\<close>

subsection \<open>Deleting\<close>

lemma clean_each: "clean_replicas api rs w = snd (each_replica (\<lambda>r. on_replica api r []
    (\<lambda>a. rpc_DeleteData api a (r_RemotePath r))) rs w)"
proof (induction rs arbitrary: w)
  case (Cons r rs)
  obtain x w1 where "rpc_DeleteData api (r_Addr r) (r_RemotePath r) w = (x, w1)"
    by (cases "rpc_DeleteData api (r_Addr r) (r_RemotePath r) w")
  with Cons show ?case by (cases x) (auto simp: on_replica_def split: option.splits prod.splits)
qed simp

text \<open>What a clean-up does at a node: a reachable, calm node has dropped the file.\<close>

definition dropped :: "(string \<Rightarrow> error option) \<Rightarrow> (string \<Rightarrow> os_env) \<Rightarrow> Replica \<Rightarrow> error option \<Rightarrow>
    data_node \<Rightarrow> data_node \<Rightarrow> bool" where
  "dropped dial env r e n n' \<longleftrightarrow> (dn_inv n \<longrightarrow> frame {vcomps (r_RemotePath r)} n n' \<and>
     (dial (r_Addr r) = None \<and> env (r_Addr r) = calm \<longrightarrow> holds n' (r_RemotePath r) = None))"

lemma DeleteData_dropped:
  assumes "DeleteData (env (r_Addr r)) (r_RemotePath r) n = (res, n')"
  shows "dropped dial env r e n n'"
  unfolding dropped_def
proof (intro impI conjI)
  assume inv: "dn_inv n"
  note fr = DeleteData_frame [OF inv assms]
  show "frame {vcomps (r_RemotePath r)} n n'" by (rule fr(1))
  show "holds n' (r_RemotePath r) = None" if "dial (r_Addr r) = None \<and> env (r_Addr r) = calm"
  proof (cases "holds n (r_RemotePath r)")
    case None
    with fr(2,3) show ?thesis by (cases "res = Inr True") simp_all
  next
    case (Some bs)
    with DeleteData_calm_done [OF inv, of "r_RemotePath r"] assms that have "res = Inr True" by simp
    with fr(2) show ?thesis by simp
  qed
qed

lemma clean_effect:
  assumes "distinct (map r_Addr rs)" "\<forall>r \<in> set rs. dn_inv (cl_nodes w (r_Addr r))"
    and "w' = clean_replicas (cluster_rpcs codec raft rnd env now dial) rs w"
  shows "(\<forall>x. x \<notin> r_Addr ` set rs \<longrightarrow> cl_nodes w' x = cl_nodes w x) \<and> cl_mds w' = cl_mds w \<and>
    (\<forall>r \<in> set rs. frame {vcomps (r_RemotePath r)} (cl_nodes w (r_Addr r)) (cl_nodes w' (r_Addr r)) \<and>
       (dial (r_Addr r) = None \<and> env (r_Addr r) = calm \<longrightarrow> holds (cl_nodes w' (r_Addr r)) (r_RemotePath r) = None))"
proof -
  let ?op = "\<lambda>r. on_replica (cluster_rpcs codec raft rnd env now dial) r [] (\<lambda>x. on_node x (DeleteData (env x) (r_RemotePath r)))"
  obtain es where each: "each_replica ?op rs w = (es, w')"
    using assms(3) by (cases "each_replica ?op rs w") (simp add: clean_each)
  have "on_its_node ?op (dropped dial env)"
    by (rule on_replica_node, rule DeleteData_dropped) (auto simp: dropped_def frame_refl)
  note eff = each_replica_effect [OF this assms(1) each]
  from eff assms(2) list_all2_member [OF eff [THEN conjunct1]] show ?thesis by (fastforce simp: dropped_def)
qed

lemma Delete_done:
  assumes "Delete codec raft path s = (Inr reply, s')" "commits codec raft [] t" "\<And>p. carries codec p" "mds_inv s"
  shows "\<exists>a. ns (root s) (splitPath path) = Some a \<and> dr_Replicas reply = e_replicas a \<and> dr_IsDir reply = e_isDir a \<and>
    spec_delete t (splitPath path) (ns (root s)) = Some (ns (root s'))"
proof -
  obtain e where e: "lookup s path = Some e"
    using assms(1) by (auto simp: Delete_def Let_def split: option.splits)
  let ?p = "zero_payload\<lparr>p_Op := OpDelete, p_Path := path, p_IsDir := isDir e, p_Replicas := e_replicas (attr e)\<rparr>"
  have "apply_payload t OpDelete ?p s = Inr s'" "reply = \<lparr>dr_Replicas = e_replicas (attr e), dr_IsDir = isDir e\<rparr>"
    using assms(1) e submit_carried [OF assms(2,3), of ?p s]
    by (auto simp: Delete_def Let_def split: option.splits sum.splits elim!: returning.elims)
  with apply_payload_ns [OF inv_wf [OF assms(4)] this(1)] e show ?thesis
    by (simp add: spec_apply_def op_names ns_def lookup_def)
qed

text \<open>
  C16 (deleting through the client). A deletion that fails has no effect. One that succeeds, with
  nothing else in flight, removes the path with everything below it from the namespace; for a file,
  every replica whose node can be reached and works has dropped its data, no other file of any node
  has changed, and a failing node does not fail the deletion. The data below a directory is left to
  the collector.
\<close>

theorem client_delete:
  assumes "Client_Delete (cluster_rpcs codec raft rnd env now dial) c path w = (res, w')"
    and "commits codec raft [] t" "\<And>p. carries codec p" "mds_inv (cl_mds w)"
    and "m = ns (root (cl_mds w))" "m' = ns (root (cl_mds w'))" "q = splitPath path"
    and "\<And>a. m q = Some a \<Longrightarrow> \<not> e_isDir a \<Longrightarrow>
      distinct (map r_Addr (e_replicas a)) \<and> (\<forall>r \<in> set (e_replicas a). dn_inv (cl_nodes w (r_Addr r)))"
  shows "case res of
      Some err \<Rightarrow> w' = w
    | None \<Rightarrow> \<exists>a. m q = Some a \<and> q \<noteq> [] \<and>
       (\<forall>r. m' r = (if prefix q r then None else if r = butlast q then touched t (m r) else m r)) \<and>
       (if e_isDir a then cl_nodes w' = cl_nodes w
        else (\<forall>x. x \<notin> r_Addr ` set (e_replicas a) \<longrightarrow> cl_nodes w' x = cl_nodes w x) \<and>
          (\<forall>r \<in> set (e_replicas a). frame {vcomps (r_RemotePath r)} (cl_nodes w (r_Addr r)) (cl_nodes w' (r_Addr r)) \<and>
            (dial (r_Addr r) = None \<and> env (r_Addr r) = calm \<longrightarrow> holds (cl_nodes w' (r_Addr r)) (r_RemotePath r) = None)))"
proof -
  let ?api = "cluster_rpcs codec raft rnd env now dial"
  let ?call = "via_leader ?api c ''MetadataService.Delete'' (\<lambda>a. rpc_Delete ?api a path) w"
  obtain r w1 where v: "?call = (r, w1)" by (cases ?call)
  note d = via_mds [OF v [unfolded rpcs_simps] writes_fail(4) [OF assms(2,3)]]
  show ?thesis
  proof (cases r)
    case (Inl err)
    with assms(1) v d show ?thesis by (auto simp: Client_Delete_def)
  next
    case (Inr reply)
    with d obtain s' where s': "Delete codec raft path (cl_mds w) = (Inr reply, s')" "w1 = w\<lparr>cl_mds := s'\<rparr>" by auto
    from Delete_done [OF s'(1) assms(2-4)] obtain a where a: "m q = Some a" "dr_Replicas reply = e_replicas a"
      "dr_IsDir reply = e_isDir a" "spec_delete t q m = Some (ns (root s'))" by (auto simp: assms(5,7))
    have gone: "q \<noteq> []" "ns (root s') = (\<lambda>x. if prefix q x then None else if x = butlast q then touched t (m x) else m x)"
      using a(4) by (auto simp: spec_delete_def split: if_splits)
    show ?thesis
    proof (cases "e_isDir a \<or> e_replicas a = []")
      case True
      with assms(1) v Inr a have "res = None" "w' = w1" by (auto simp: Client_Delete_def)
      with True a(1) gone s'(2) show ?thesis by (auto simp: assms(6))
    next
      case False
      with assms(1) v Inr a have w': "res = None" "w' = clean_replicas ?api (e_replicas a) w1"
        by (auto simp: Client_Delete_def)
      have "distinct (map r_Addr (e_replicas a))" "\<forall>r \<in> set (e_replicas a). dn_inv (cl_nodes w1 (r_Addr r))"
        using assms(8) [OF a(1)] False s'(2) by simp_all
      from clean_effect [OF this w'(2)] a(1) gone w'(1) s'(2) False show ?thesis by (auto simp: assms(6))
    qed
  qed
qed

text \<open>A cluster whose only file \<^verbatim>\<open>/d/f\<close> is recovering and lies on a node that works.\<close>

definition recovering_cluster :: cluster where
  "recovering_cluster = \<lparr>cl_mds = replay (log_step direct_codec) [(5, OpUpdateStatus,
      zero_payload\<lparr>p_Path := ''/d/f'', p_NewStatus := StatusRecovering\<rparr>)] demo_server, cl_nodes = (\<lambda>_. demo_src)\<rparr>"

lemma recovering_cluster_facts:
  "mds_inv (cl_mds recovering_cluster)" "dn_inv (cl_nodes recovering_cluster x)"
  "holds (cl_nodes recovering_cluster x) ''/data/F'' = Some [1, 2, 3]"
  by (simp_all add: recovering_cluster_def demo_src_facts replayed_inv [OF demo_server_inv] del: replay.simps)

lemma recovering_file:
  "\<exists>a. ns (root (cl_mds recovering_cluster)) (splitPath ''/d/f'') = Some a \<and> \<not> e_isDir a \<and>
     e_status a = StatusRecovering \<and> e_replicas a = [rep ''n1'' ''F'']"
proof -
  have "(case ns (root (cl_mds recovering_cluster)) (splitPath ''/d/f'') of None \<Rightarrow> False
      | Some a \<Rightarrow> \<not> e_isDir a \<and> e_status a = StatusRecovering \<and> e_replicas a = [rep ''n1'' ''F''])" by code_simp
  then show ?thesis by (auto split: option.splits)
qed

lemma rep_path: "r_RemotePath (rep x ''F'') = ''/data/F''" "r_Addr (rep x fid) = x"
  by (simp_all add: rep_def data_dir_def del: slash_lit)

theorem client_delete_witness:
  "\<exists>w'. Client_Delete demo_rpcs ''mds'' ''/d/f'' recovering_cluster = (None, w') \<and>
     ns (root (cl_mds w')) [''d'', ''f''] = None \<and> holds (cl_nodes w' ''n1'') ''/data/F'' = None"
proof -
  let ?run = "Client_Delete demo_rpcs ''mds'' ''/d/f'' recovering_cluster"
  obtain w' where run: "?run = (None, w')"
  proof -
    have "fst ?run = None" by code_simp
    then show ?thesis using that by (cases ?run) auto
  qed
  obtain a where a: "ns (root (cl_mds recovering_cluster)) (splitPath ''/d/f'') = Some a" "\<not> e_isDir a"
    "e_replicas a = [rep ''n1'' ''F'']" using recovering_file by blast
  have sp: "splitPath ''/d/f'' = [''d'', ''f'']" by code_simp
  have "distinct (map r_Addr (e_replicas b)) \<and> (\<forall>r \<in> set (e_replicas b). dn_inv (cl_nodes recovering_cluster (r_Addr r)))"
    if "ns (root (cl_mds recovering_cluster)) (splitPath ''/d/f'') = Some b" for b
    using a that recovering_cluster_facts(2) by simp
  from client_delete [OF run [unfolded demo_rpcs_def] solo_commits direct_carries recovering_cluster_facts(1) refl refl refl this]
    run a sp show ?thesis by (auto simp: rep_path)
qed

subsection \<open>Truncating every replica\<close>

definition emptied :: "(string \<Rightarrow> error option) \<Rightarrow> (string \<Rightarrow> os_env) \<Rightarrow> Replica \<Rightarrow> error option \<Rightarrow>
    data_node \<Rightarrow> data_node \<Rightarrow> bool" where
  "emptied dial env r e n n' \<longleftrightarrow> (dn_inv n \<longrightarrow> frame {vcomps (r_RemotePath r)} n n' \<and>
     (e = None \<longrightarrow> holds n' (r_RemotePath r) = Some []) \<and>
     (dial (r_Addr r) = None \<and> env (r_Addr r) = calm \<and> holds n (r_RemotePath r) \<noteq> None \<longrightarrow> e = None))"

lemma TruncateData_calm_done:
  assumes "dn_inv n" "holds n p \<noteq> None"
  shows "fst (TruncateData calm now \<lparr>ta_Path = p, ta_Size = 0\<rparr> n) = Inr True"
proof -
  have wf: "wf_disk (dn_disk n)" using assms(1) by (simp add: dn_inv_def)
  from assms obtain rp where rp: "resolvePath (dataDir n) p = Inr rp" and st: "stored n (vcomps p) \<noteq> None"
    by (auto simp: holds_stored is_ok_iff split: if_splits)
  have "comps rp = comps (dataDir n) @ vcomps p" using resolved_real [OF rp] by metis
  with st obtain bs t where "node_at (dn_disk n) (comps rp) = Some (File bs t)"
    by (auto simp: stored_def split: option.splits fnode.splits)
  then have "find_node (dn_disk n) rp = Inr (File bs t)" by (simp add: find_node_Inr [OF wf])
  with rp show ?thesis by (simp add: TruncateData_def with_path_def OsTruncate_def calm_def Let_def)
qed

lemma TruncateData_emptied:
  assumes "dial (r_Addr r) = None"
    and "TruncateData (env (r_Addr r)) now \<lparr>ta_Path = r_RemotePath r, ta_Size = 0\<rparr> n = (res, n')"
  shows "emptied dial env r (case res of Inl err \<Rightarrow> Some (msg @ err) | Inr _ \<Rightarrow> None) n n'"
proof (cases "resolvePath (dataDir n) (r_RemotePath r)")
  case (Inl err)
  with assms(2) show ?thesis
    by (auto simp: emptied_def TruncateData_def with_path_def frame_refl holds_stored)
next
  case (Inr rp)
  have res: "res = Inr True \<or> (\<exists>err. res = Inl err)"
    using assms(2) Inr by (auto simp: TruncateData_def with_path_def failed_def Let_def
        split: sum.splits prod.splits option.splits if_splits)
  show ?thesis
    unfolding emptied_def
  proof (intro impI conjI)
    assume inv: "dn_inv n"
    note e = TruncateData_effect [OF inv _ refl assms(2), simplified, OF Inr]
    show "frame {vcomps (r_RemotePath r)} n n'" by (rule e(1))
    then have "dn_inv n'" "dataDir n' = dataDir n" by (simp_all add: frame_def)
    then show "holds n' (r_RemotePath r) = Some []"
      if "(case res of Inl err \<Rightarrow> Some (msg @ err) | Inr _ \<Rightarrow> None) = None"
      using that e(2) res Inr by (auto simp: holds_stored resize_def)
    show "(case res of Inl err \<Rightarrow> Some (msg @ err) | Inr _ \<Rightarrow> None) = None"
      if "dial (r_Addr r) = None \<and> env (r_Addr r) = calm \<and> holds n (r_RemotePath r) \<noteq> None"
      using TruncateData_calm_done [OF inv, of "r_RemotePath r" now] that assms(2) by simp
  qed
qed

lemma firstErr_None: "firstErr es = None \<longleftrightarrow> (\<forall>e \<in> set es. e = None)"
  by (induction es) (auto simp: firstErr_def)

lemma GetFileLocation_at:
  assumes "ns (root s) (splitPath path) = Some a" "\<not> e_isDir a"
  shows "GetFileLocation path s = Inr \<lparr>fl_FileID = e_fileID a, fl_Replicas = e_replicas a, fl_Status = e_status a\<rparr>"
  using assms by (auto simp: GetFileLocation_def ns_def lookup_def)

lemma truncate_all_effect:
  assumes "truncateAllReplicas (cluster_rpcs codec raft rnd env now dial) c path 0 w = (e, w')" "dial c = None"
    and "ns (root (cl_mds w)) (splitPath path) = Some a" "\<not> e_isDir a" "rs = e_replicas a"
    and "distinct (map r_Addr rs)" "\<forall>r \<in> set rs. dn_inv (cl_nodes w (r_Addr r))"
  shows "cl_mds w' = cl_mds w \<and> (e = None \<longrightarrow> (\<forall>r \<in> set rs. holds (cl_nodes w' (r_Addr r)) (r_RemotePath r) = Some [])) \<and>
    ((\<forall>r \<in> set rs. dial (r_Addr r) = None \<and> env (r_Addr r) = calm \<and> holds (cl_nodes w (r_Addr r)) (r_RemotePath r) \<noteq> None)
      \<longrightarrow> e = None)"
proof -
  let ?op = "\<lambda>r. truncateReplica (cluster_rpcs codec raft rnd env now dial) r 0"
  have loc: "getFileLocation (cluster_rpcs codec raft rnd env now dial) c path w =
      Inr \<lparr>fl_FileID = e_fileID a, fl_Replicas = rs, fl_Status = e_status a\<rparr>"
    using assms(2,5) GetFileLocation_at [OF assms(3,4)] by (simp add: getFileLocation_def query_def dialMDS_def)
  obtain es where each: "each_replica ?op rs w = (es, w')" and e: "e = firstErr es"
    using assms(1) loc by (cases "each_replica ?op rs w") (auto simp: truncateAllReplicas_def)
  have "on_its_node ?op (emptied dial env)"
    unfolding truncateReplica_def rpcs_simps
    by (rule on_replica_node) (auto intro: TruncateData_emptied, auto simp: emptied_def frame_refl)
  note eff = each_replica_effect [OF this assms(6) each]
  note at = list_all2_member [OF eff [THEN conjunct1]] and at2 = list_all2_member2 [OF eff [THEN conjunct1]]
  have "holds (cl_nodes w' (r_Addr r)) (r_RemotePath r) = Some []" if "e = None" "r \<in> set rs" for r
    using at [OF that(2)] assms(7) that e by (auto simp: emptied_def firstErr_None)
  moreover have "e = None" if "\<forall>r \<in> set rs. dial (r_Addr r) = None \<and> env (r_Addr r) = calm \<and>
      holds (cl_nodes w (r_Addr r)) (r_RemotePath r) \<noteq> None"
    unfolding e firstErr_None using at2 assms(7) that by (fastforce simp: emptied_def)
  ultimately show ?thesis using eff by blast
qed

subsection \<open>Opening\<close>

lemma updateSize_effect:
  assumes run: "updateSize (cluster_rpcs codec raft rnd env now dial) c path sz w = (e, w')"
    and raft: "commits codec raft [] t" "\<And>p. carries codec p" and inv: "mds_inv (cl_mds w)"
    and a: "ns (root (cl_mds w)) (splitPath path) = Some a"
  shows "case e of Some err \<Rightarrow> w' = w
    | None \<Rightarrow> e_status a \<noteq> StatusRecovering \<and> cl_nodes w' = cl_nodes w \<and>
        ns (root (cl_mds w')) = (ns (root (cl_mds w)))(splitPath path \<mapsto> a\<lparr>e_size := sz, e_modTime := t\<rparr>)"
proof -
  let ?api = "cluster_rpcs codec raft rnd env now dial"
  let ?args = "\<lparr>us_Path = path, us_Size = sz\<rparr>"
  let ?p = "zero_payload\<lparr>p_Op := OpUpdateSize, p_Path := path, p_NewSize := sz\<rparr>"
  obtain r w1 where v: "via_leader ?api c ''MetadataService.UpdateSize'' (\<lambda>a. rpc_UpdateSize ?api a ?args) w = (r, w1)"
    by (cases "via_leader ?api c ''MetadataService.UpdateSize'' (\<lambda>a. rpc_UpdateSize ?api a ?args) w")
  note d = via_mds [OF v [unfolded rpcs_simps] writes_fail(3) [OF raft]]
  show ?thesis
  proof (cases r)
    case (Inl err)
    with run v d show ?thesis by (auto simp: updateSize_def)
  next
    case (Inr x)
    with run v d obtain s' where s': "UpdateSize codec raft ?args (cl_mds w) = (Inr x, s')" "w' = w\<lparr>cl_mds := s'\<rparr>"
      "e = None" by (auto simp: updateSize_def)
    have "apply_payload t OpUpdateSize ?p (cl_mds w) = Inr s'"
      using s'(1) submit_carried [OF raft, of ?p "cl_mds w"]
      by (auto simp: UpdateSize_def Let_def split: option.splits sum.splits if_splits elim!: returning.elims)
    from apply_payload_ns [OF inv_wf [OF inv] this] a s'(2,3) show ?thesis
      by (auto simp: spec_apply_def op_names spec_update_def split: if_splits)
  qed
qed

definition for_writing :: "int64 \<Rightarrow> bool" where
  "for_writing flags \<longleftrightarrow> flags AND (O_WRONLY OR O_RDWR) \<noteq> 0"

lemma open_located_cluster:
  assumes "dial c = None" "ns (root (cl_mds w)) (splitPath path) = Some a" "\<not> e_isDir a"
    and "st = (if status = [] then e_status a else status)" "reps = (if replicas = [] then e_replicas a else replicas)"
  shows "open_located (cluster_rpcs codec raft rnd env now dial) c path flags replicas status sz w =
    (if st = StatusRecovering \<and> for_writing flags
     then Inl (''open: file is recovering, write not allowed: '' @ path)
     else Inr \<lparr>fh_path = path, fh_fileID = e_fileID a, fh_flags = flags, fh_replicas = reps,
               fh_size = sz, fh_status = st\<rparr>)"
  using assms(1,4,5) GetFileLocation_at [OF assms(2,3)]
  by (simp add: open_located_def getFileLocation_def query_def dialMDS_def for_writing_def StatusRecovering_def Let_def)

text \<open>Creating: what \<^verbatim>\<open>Open\<close> does with a path that is missing.\<close>

lemma open_missing:
  assumes run: "Open (cluster_rpcs codec raft (Inr rnd) env now dial) c path flags w = (res, w')" and dial: "dial c = None"
    and raft: "commits codec raft [] t" "\<And>p. carries codec p" and inv: "mds_inv (cl_mds w)" and rnd: "length rnd = 16"
    and none: "ns (root (cl_mds w)) (splitPath path) = None"
  shows "if flags AND O_CREAT = 0 then res = Inl (''open: no such file or directory: '' @ path) \<and> w' = w
    else (case res of Inl err \<Rightarrow> w' = w
      | Inr fh \<Rightarrow> cl_nodes w' = cl_nodes w \<and>
         (\<exists>a. ns (root (cl_mds w')) (splitPath path) = Some a \<and> \<not> e_isDir a \<and> e_fileID a = hex_encode rnd \<and>
           e_status a = StatusPending \<and> e_replicas a \<noteq> [] \<and>
           fh = \<lparr>fh_path = path, fh_fileID = e_fileID a, fh_flags = flags, fh_replicas = e_replicas a,
                 fh_size = 0, fh_status = StatusPending\<rparr>))"
proof -
  let ?api = "cluster_rpcs codec raft (Inr rnd) env now dial"
  let ?args = "\<lparr>cf_Path = path, cf_Size = 0, cf_CreateMode = CreateIfNotExist\<rparr>"
  let ?call = "via_leader ?api c ''MetadataService.CreateFile'' (\<lambda>a. rpc_CreateFile ?api a ?args) w"
  have stat: "Client_Stat ?api c path w = Inl (''stat failed: path not found: '' @ path)"
    using dial none by (auto simp: Client_Stat_def query_def dialMDS_def Stat_def ns_def lookup_def)
  have "''stat failed: path not found: '' @ path = ''stat failed: path '' @ ''not found'' @ '': '' @ path" by simp
  then have "Contains (''stat failed: path not found: '' @ path) ''not found''" unfolding Contains_iff by blast
  note missing = stat this
  show ?thesis
  proof (cases "flags AND O_CREAT = 0")
    case True
    with run missing show ?thesis by (simp add: Open_def del: append.simps)
  next
    case False
    obtain r w1 where v: "?call = (r, w1)" by (cases ?call)
    note d = via_mds [OF v [unfolded rpcs_simps] writes_fail(1) [OF raft]]
    have at: "(res, w') = (case (r, w1) of (Inl err, w) \<Rightarrow> (Inl (''open: create failed: '' @ err), w)
      | (Inr createReply, w) \<Rightarrow> (open_located ?api c path flags (cfr_Replicas createReply) ''pending'' 0 w, w))"
      unfolding run [symmetric] v [symmetric] using False missing by (simp add: Open_def del: append.simps)
    show ?thesis
    proof (cases r)
      case (Inl err)
      with at d False show ?thesis by simp
    next
      case (Inr reply)
      with d obtain s' where s': "CreateFile codec raft (Inr rnd) ?args (cl_mds w) = (Inr reply, s')" "w1 = w\<lparr>cl_mds := s'\<rparr>"
        by auto
      from create_located [OF inv raft rnd s'(1) refl refl] none
      obtain loc where loc: "GetFileLocation path s' = Inr loc" "fl_Replicas loc = cfr_Replicas reply"
        "fl_Status loc = StatusPending" "fl_FileID loc = hex_encode rnd"
        and "int (length (cfr_Replicas reply)) = max 1 (min (replicaCount (cl_mds w)) (int (length (dataNodes (cl_mds w)))))"
        by auto
      then have ne: "cfr_Replicas reply \<noteq> []" by auto
      from loc obtain a where a: "ns (root s') (splitPath path) = Some a" "\<not> e_isDir a" "e_fileID a = hex_encode rnd"
        "e_replicas a = cfr_Replicas reply" "e_status a = StatusPending"
        by (auto simp: GetFileLocation_def ns_def lookup_def split: option.splits if_splits)
      have "open_located ?api c path flags (cfr_Replicas reply) ''pending'' 0 w1 =
          Inr \<lparr>fh_path = path, fh_fileID = e_fileID a, fh_flags = flags, fh_replicas = e_replicas a,
               fh_size = 0, fh_status = StatusPending\<rparr>"
        by (subst open_located_cluster [where dial = dial, OF dial, of w1 path a, OF _ a(2) refl refl])
          (use a s'(2) ne in \<open>simp_all add: StatusRecovering_def StatusPending_def\<close>)
      with at Inr False a s'(2) ne show ?thesis by auto
    qed
  qed
qed

text \<open>Opening what is there.\<close>

lemma open_existing:
  assumes run: "Open (cluster_rpcs codec raft rnd env now dial) c path flags w = (res, w')" and dial: "dial c = None"
    and a: "ns (root (cl_mds w)) (splitPath path) = Some a"
  shows "flags AND O_EXCL \<noteq> 0 \<or> e_isDir a \<Longrightarrow> (\<exists>err. res = Inl err) \<and> w' = w"
    and "flags AND O_EXCL = 0 \<Longrightarrow> \<not> e_isDir a \<Longrightarrow> flags AND O_TRUNC = 0 \<Longrightarrow> w' = w \<and>
      res = (if e_status a = StatusRecovering \<and> for_writing flags
        then Inl (''open: file is recovering, write not allowed: '' @ path)
        else Inr \<lparr>fh_path = path, fh_fileID = e_fileID a, fh_flags = flags, fh_replicas = e_replicas a,
                  fh_size = e_size a, fh_status = e_status a\<rparr>)"
    and "flags AND O_EXCL = 0 \<Longrightarrow> \<not> e_isDir a \<Longrightarrow> flags AND O_TRUNC \<noteq> 0 \<Longrightarrow> (res, w') =
      (case truncateAllReplicas (cluster_rpcs codec raft rnd env now dial) c path 0 w of
         (Some err, w) \<Rightarrow> (Inl (''open: truncate replicas failed: '' @ err), w)
       | (None, w) \<Rightarrow> (case updateSize (cluster_rpcs codec raft rnd env now dial) c path 0 w of
            (Some err, w) \<Rightarrow> (Inl (''open: update size failed: '' @ err), w)
          | (None, w) \<Rightarrow> (open_located (cluster_rpcs codec raft rnd env now dial) c path flags [] [] 0 w, w)))"
proof -
  let ?api = "cluster_rpcs codec raft rnd env now dial"
  have stat: "Client_Stat ?api c path w = Inr (file_info (e_name a) path a)"
    using dial a by (auto simp: Client_Stat_def query_def dialMDS_def Stat_def ns_def lookup_def)
  show "flags AND O_EXCL \<noteq> 0 \<or> e_isDir a \<Longrightarrow> (\<exists>err. res = Inl err) \<and> w' = w"
    using run stat by (cases "flags AND O_EXCL = 0") (auto simp: Open_def file_info_def)
  show "w' = w \<and> res = (if e_status a = StatusRecovering \<and> for_writing flags
        then Inl (''open: file is recovering, write not allowed: '' @ path)
        else Inr \<lparr>fh_path = path, fh_fileID = e_fileID a, fh_flags = flags, fh_replicas = e_replicas a,
                  fh_size = e_size a, fh_status = e_status a\<rparr>)"
    if "flags AND O_EXCL = 0" "\<not> e_isDir a" "flags AND O_TRUNC = 0"
  proof -
    have "w' = w \<and> res = open_located ?api c path flags [] [] (e_size a) w"
      using run stat that by (auto simp: Open_def file_info_def simp del: append.simps)
    then show ?thesis
      by (simp add: open_located_cluster [where dial = dial, OF dial a that(2) refl refl] del: append.simps)
  qed
  show "(res, w') = (case truncateAllReplicas ?api c path 0 w of
         (Some err, w) \<Rightarrow> (Inl (''open: truncate replicas failed: '' @ err), w)
       | (None, w) \<Rightarrow> (case updateSize ?api c path 0 w of
            (Some err, w) \<Rightarrow> (Inl (''open: update size failed: '' @ err), w)
          | (None, w) \<Rightarrow> (open_located ?api c path flags [] [] 0 w, w)))"
    if "flags AND O_EXCL = 0" "\<not> e_isDir a" "flags AND O_TRUNC \<noteq> 0"
    using run stat that by (simp add: Open_def file_info_def del: append.simps)
qed

lemma open_truncating:
  assumes run: "Open (cluster_rpcs codec raft rnd env now dial) c path flags w = (res, w')" and dial: "dial c = None"
    and raft: "commits codec raft [] t" "\<And>p. carries codec p" and inv: "mds_inv (cl_mds w)"
    and a: "ns (root (cl_mds w)) (splitPath path) = Some a" "\<not> e_isDir a" "rs = e_replicas a"
    and rs: "distinct (map r_Addr rs)" "\<forall>r \<in> set rs. dn_inv (cl_nodes w (r_Addr r))"
    and flags: "flags AND O_EXCL = 0" "flags AND O_TRUNC \<noteq> 0"
  shows "(case res of Inl err \<Rightarrow> cl_mds w' = cl_mds w
      | Inr fh \<Rightarrow> e_status a \<noteq> StatusRecovering \<and> (\<forall>r \<in> set rs. holds (cl_nodes w' (r_Addr r)) (r_RemotePath r) = Some []) \<and>
         ns (root (cl_mds w')) = (ns (root (cl_mds w)))(splitPath path \<mapsto> a\<lparr>e_size := 0, e_modTime := t\<rparr>) \<and>
         fh = \<lparr>fh_path = path, fh_fileID = e_fileID a, fh_flags = flags, fh_replicas = rs, fh_size = 0,
               fh_status = e_status a\<rparr>) \<and>
    (e_status a = StatusRecovering \<and> (\<forall>r \<in> set rs. dial (r_Addr r) = None \<and> env (r_Addr r) = calm \<and>
        holds (cl_nodes w (r_Addr r)) (r_RemotePath r) \<noteq> None) \<longrightarrow>
      (\<forall>r \<in> set rs. holds (cl_nodes w' (r_Addr r)) (r_RemotePath r) = Some []))"
proof -
  let ?api = "cluster_rpcs codec raft rnd env now dial"
  obtain e w1 where tr: "truncateAllReplicas ?api c path 0 w = (e, w1)" by (cases "truncateAllReplicas ?api c path 0 w")
  note te = truncate_all_effect [where dial = dial, OF tr dial a(1,2,3) rs]
  note res = open_existing(3) [where dial = dial, OF run dial a(1) flags(1) a(2) flags(2), unfolded tr]
  show ?thesis
  proof (cases e)
    case (Some err)
    with res te show ?thesis by auto
  next
    case None
    obtain e2 w2 where up: "updateSize ?api c path 0 w1 = (e2, w2)" by (cases "updateSize ?api c path 0 w1")
    have at1: "mds_inv (cl_mds w1)" "ns (root (cl_mds w1)) (splitPath path) = Some a" using te inv a(1) by simp_all
    note ue = updateSize_effect [OF up raft at1]
    have w': "w' = w2" "cl_nodes w2 = cl_nodes w1" using res None up ue by (auto split: option.splits)
    show ?thesis
    proof (cases e2)
      case (Some err)
      with None res up ue te show ?thesis by auto
    next
      case e2: None
      let ?a = "a\<lparr>e_size := 0, e_modTime := t\<rparr>"
      have s2: "ns (root (cl_mds w2)) (splitPath path) = Some ?a" "e_status a \<noteq> StatusRecovering"
        "ns (root (cl_mds w2)) = (ns (root (cl_mds w)))(splitPath path \<mapsto> ?a)" using ue e2 te by simp_all
      have "res = open_located ?api c path flags [] [] 0 w2" using res None up e2 by simp
      then have "res = Inr \<lparr>fh_path = path, fh_fileID = e_fileID a, fh_flags = flags, fh_replicas = rs, fh_size = 0,
               fh_status = e_status a\<rparr>"
        using s2(2) a(2,3)
        by (simp add: open_located_cluster [where dial = dial, OF dial s2(1) _ refl refl] del: append.simps)
      with s2 w' None te show ?thesis by simp
    qed
  qed
qed

text \<open>
  C15 (opening). A missing path is refused, or created when the flags ask for it: then the handle is on
  a pending, empty file with a new identity and its replicas. An existing path is refused for an
  exclusive creation, for a directory, and for writing while it is recovering; otherwise the handle
  carries identity, replicas, size and status of the file, and nothing has changed, unless the flags ask
  for truncation: then every replica is empty and so is the size, or the call fails and the metadata is
  as before. On a recovering file whose nodes all work such a call fails only after it has emptied every
  replica: the file keeps its size and has lost its content.
\<close>

theorem open_outcome:
  assumes "Open (cluster_rpcs codec raft (Inr rnd) env now dial) c path flags w = (res, w')" "dial c = None"
    and "commits codec raft [] t" "\<And>p. carries codec p" "mds_inv (cl_mds w)" "length rnd = 16"
    and "m = ns (root (cl_mds w))" "m' = ns (root (cl_mds w'))" "q = splitPath path"
    and "\<And>a. m q = Some a \<Longrightarrow> \<not> e_isDir a \<Longrightarrow>
      distinct (map r_Addr (e_replicas a)) \<and> (\<forall>r \<in> set (e_replicas a). dn_inv (cl_nodes w (r_Addr r)))"
  shows "case m q of
      None \<Rightarrow>
        if flags AND O_CREAT = 0 then res = Inl (''open: no such file or directory: '' @ path) \<and> w' = w
        else (case res of Inl err \<Rightarrow> w' = w
          | Inr fh \<Rightarrow> cl_nodes w' = cl_nodes w \<and>
             (\<exists>a. m' q = Some a \<and> \<not> e_isDir a \<and> e_fileID a = hex_encode rnd \<and> e_status a = StatusPending \<and>
               e_replicas a \<noteq> [] \<and> fh = \<lparr>fh_path = path, fh_fileID = e_fileID a, fh_flags = flags,
                 fh_replicas = e_replicas a, fh_size = 0, fh_status = StatusPending\<rparr>))
    | Some a \<Rightarrow>
        if flags AND O_EXCL \<noteq> 0 \<or> e_isDir a then (\<exists>err. res = Inl err) \<and> w' = w
        else if flags AND O_TRUNC = 0 then w' = w \<and>
          res = (if e_status a = StatusRecovering \<and> for_writing flags
            then Inl (''open: file is recovering, write not allowed: '' @ path)
            else Inr \<lparr>fh_path = path, fh_fileID = e_fileID a, fh_flags = flags, fh_replicas = e_replicas a,
                      fh_size = e_size a, fh_status = e_status a\<rparr>)
        else (case res of Inl err \<Rightarrow> m' = m
          | Inr fh \<Rightarrow> e_status a \<noteq> StatusRecovering \<and>
             (\<forall>r \<in> set (e_replicas a). holds (cl_nodes w' (r_Addr r)) (r_RemotePath r) = Some []) \<and>
             m' = m(q \<mapsto> a\<lparr>e_size := 0, e_modTime := t\<rparr>) \<and>
             fh = \<lparr>fh_path = path, fh_fileID = e_fileID a, fh_flags = flags, fh_replicas = e_replicas a,
                   fh_size = 0, fh_status = e_status a\<rparr>) \<and>
          (e_status a = StatusRecovering \<and> (\<forall>r \<in> set (e_replicas a). dial (r_Addr r) = None \<and> env (r_Addr r) = calm \<and>
              holds (cl_nodes w (r_Addr r)) (r_RemotePath r) \<noteq> None) \<longrightarrow>
            (\<exists>err. res = Inl err) \<and>
            (\<forall>r \<in> set (e_replicas a). holds (cl_nodes w' (r_Addr r)) (r_RemotePath r) = Some []))"
proof (cases "m q")
  case None
  then have none: "ns (root (cl_mds w)) (splitPath path) = None" by (simp add: assms(7,9))
  show ?thesis unfolding assms(7-9) unfolding none option.case
    by (rule open_missing [where dial = dial, OF assms(1-6) none])
next
  case (Some a)
  then have a: "ns (root (cl_mds w)) (splitPath path) = Some a" by (simp add: assms(7,9))
  note ex = open_existing [where dial = dial, OF assms(1,2) a]
  consider "flags AND O_EXCL \<noteq> 0 \<or> e_isDir a" | "flags AND O_EXCL = 0" "\<not> e_isDir a" "flags AND O_TRUNC = 0"
    | "flags AND O_EXCL = 0" "\<not> e_isDir a" "flags AND O_TRUNC \<noteq> 0" by blast
  then show ?thesis
  proof cases
    case 1
    with ex(1) Some show ?thesis by simp
  next
    case 2
    with ex(2) Some show ?thesis by (simp del: append.simps)
  next
    case 3
    with assms(10) [OF Some] have "distinct (map r_Addr (e_replicas a))"
      "\<forall>r \<in> set (e_replicas a). dn_inv (cl_nodes w (r_Addr r))" by simp_all
    from open_truncating [where dial = dial, OF assms(1-5) a 3(2) refl this 3(1,3)] 3 Some
    show ?thesis by (cases res) (auto simp: assms(7-9))
  qed
qed

theorem open_outcome_witness:
  "\<exists>err w'. Client_Handle.Open demo_rpcs ''mds'' ''/d/f'' (O_RDWR OR O_TRUNC) recovering_cluster = (Inl err, w') \<and>
     holds (cl_nodes recovering_cluster ''n1'') ''/data/F'' = Some [1, 2, 3] \<and>
     holds (cl_nodes w' ''n1'') ''/data/F'' = Some [] \<and>
     ns (root (cl_mds w')) = ns (root (cl_mds recovering_cluster))"
proof -
  let ?flags = "O_RDWR OR O_TRUNC"
  let ?run = "Client_Handle.Open demo_rpcs ''mds'' ''/d/f'' ?flags recovering_cluster"
  obtain res w' where run: "?run = (res, w')" by (cases ?run)
  obtain a where a: "ns (root (cl_mds recovering_cluster)) (splitPath ''/d/f'') = Some a" "\<not> e_isDir a"
    "e_status a = StatusRecovering" "e_replicas a = [rep ''n1'' ''F'']" using recovering_file by blast
  have fl: "?flags AND O_EXCL = 0" "?flags AND O_TRUNC \<noteq> 0" by (simp_all add: open_flags)
  have "distinct (map r_Addr (e_replicas b)) \<and> (\<forall>r \<in> set (e_replicas b). dn_inv (cl_nodes recovering_cluster (r_Addr r)))"
    if "ns (root (cl_mds recovering_cluster)) (splitPath ''/d/f'') = Some b" for b
    using a that recovering_cluster_facts(2) by simp
  from open_outcome [OF run [unfolded demo_rpcs_def] _ solo_commits direct_carries recovering_cluster_facts(1) _ refl refl refl this]
    a fl recovering_cluster_facts(3)
  have "(\<exists>err. res = Inl err) \<and> ns (root (cl_mds w')) = ns (root (cl_mds recovering_cluster)) \<and>
    holds (cl_nodes w' ''n1'') ''/data/F'' = Some []" by (auto simp: rep_path)
  with run recovering_cluster_facts(3) show ?thesis by auto
qed

end
