(* ===== verification/Command_Props.thy ===== *)
theory Command_Props
  imports Command_Line Client_Files
begin

text \<open>What the exit status of the command line client says, against the cluster.\<close>

subsection \<open>Operations behind the commands\<close>

lemma spec_mkdir_at: "spec_mkdir now q fid m = Some m' \<Longrightarrow> is_dir_at m' q"
  by (auto simp: spec_mkdir_def is_dir_at_def new_dir_def split: if_splits)

lemma spec_delete_at: "spec_delete now q m = Some m' \<Longrightarrow> m q \<noteq> None \<and> m' q = None"
  by (auto simp: spec_delete_def split: if_splits)

lemma Mkdir_done:
  assumes "Mkdir codec raft rnd path s = (Inr x, s')" "commits codec raft [] t" "\<And>p. carries codec p" "mds_inv s"
  shows "is_dir_at (ns (root s')) (splitPath path)"
proof -
  obtain fid where "apply_payload t OpMkdir (zero_payload\<lparr>p_Op := OpMkdir, p_Path := path, p_FileID := fid\<rparr>) s = Inr s'"
    using assms(1) submit_carried [OF assms(2,3), where s = s]
    by (auto simp: Mkdir_def Let_def split: option.splits sum.splits elim!: returning.elims)
  from apply_payload_ns [OF inv_wf [OF assms(4)] this] show ?thesis
    by (auto simp: spec_apply_def op_names Let_def intro: spec_mkdir_at)
qed

lemma Client_Mkdir_cluster:
  assumes "Client_Mkdir (cluster_rpcs codec raft rnd env now dial) c path w = (res, w')"
    and "commits codec raft [] t" "\<And>p. carries codec p" "mds_inv (cl_mds w)"
  shows "case res of Some err \<Rightarrow> w' = w | None \<Rightarrow> is_dir_at (ns (root (cl_mds w'))) (splitPath path)"
proof -
  let ?api = "cluster_rpcs codec raft rnd env now dial"
  let ?call = "via_leader ?api c ''MetadataService.Mkdir'' (\<lambda>a. rpc_Mkdir ?api a path) w"
  obtain r w1 where v: "?call = (r, w1)" by (cases ?call)
  note d = via_mds [OF v [unfolded rpcs_simps] writes_fail(6) [OF assms(2,3)]]
  from v assms(1) d show ?thesis
    by (cases r) (auto simp: Client_Mkdir_def dest: Mkdir_done [OF _ assms(2-4)])
qed

lemma clean_keeps_mds: "cl_mds (clean_replicas (cluster_rpcs codec raft rnd env now dial) rs w) = cl_mds w"
  by (induction rs arbitrary: w) (auto simp: on_node_def split: option.splits prod.splits)

lemma Client_Delete_cluster:
  assumes "Client_Delete (cluster_rpcs codec raft rnd env now dial) c path w = (res, w')"
    and "commits codec raft [] t" "\<And>p. carries codec p" "mds_inv (cl_mds w)"
  shows "case res of Some err \<Rightarrow> w' = w
    | None \<Rightarrow> ns (root (cl_mds w)) (splitPath path) \<noteq> None \<and> ns (root (cl_mds w')) (splitPath path) = None"
proof -
  let ?api = "cluster_rpcs codec raft rnd env now dial"
  let ?call = "via_leader ?api c ''MetadataService.Delete'' (\<lambda>a. rpc_Delete ?api a path) w"
  obtain r w1 where v: "?call = (r, w1)" by (cases ?call)
  note d = via_mds [OF v [unfolded rpcs_simps] writes_fail(4) [OF assms(2,3)]]
  show ?thesis
  proof (cases r)
    case (Inl err)
    with assms(1) v d show ?thesis by (auto simp: Client_Delete_def)
  next
    case (Inr reply)
    with d obtain s' where s': "Delete codec raft path (cl_mds w) = (Inr reply, s')" "w1 = w\<lparr>cl_mds := s'\<rparr>" by auto
    from Delete_done [OF s'(1) assms(2-4)] have
      "ns (root (cl_mds w)) (splitPath path) \<noteq> None" "ns (root s') (splitPath path) = None"
      by (auto dest!: spec_delete_at)
    moreover have "res = None" "cl_mds w' = s'"
      using assms(1) v Inr s'(2) by (auto simp: Client_Delete_def clean_keeps_mds split: if_splits)
    ultimately show ?thesis by simp
  qed
qed

lemma Delete_succeeds:
  assumes "IsLeader raft" "commits codec raft [] t" "\<And>p. carries codec p" "mds_inv s"
    and "ns (root s) (splitPath path) \<noteq> None" "splitPath path \<noteq> []"
  shows "\<exists>reply s'. Delete codec raft path s = (Inr reply, s')"
proof -
  obtain e where e: "lookup s path = Some e" using assms(5) by (auto simp: ns_def lookup_def)
  let ?p = "zero_payload\<lparr>p_Op := OpDelete, p_Path := path, p_IsDir := isDir e, p_Replicas := e_replicas (attr e)\<rparr>"
  have "result_ns (apply_payload t OpDelete ?p s) \<noteq> None"
    using assms(5,6) apply_payload_refines [OF inv_wf [OF assms(4)], of t OpDelete ?p]
    by (auto simp: spec_apply_def op_names spec_delete_def Let_def)
  then obtain s' where "apply_payload t OpDelete ?p s = Inr s'"
    by (cases "apply_payload t OpDelete ?p s") (simp_all add: result_ns_def)
  with e assms(1) submit_carried [OF assms(2,3), of ?p s] show ?thesis
    by (simp add: Delete_def checkLeader_def Let_def)
qed

lemma spec_create_facts: "spec_create now q p m = Some m' \<Longrightarrow>
    q \<noteq> [] \<and> is_file_at m' q \<and> (m q = None \<or> p_CreateMode p = OverwriteIfExists)"
  by (auto simp: spec_create_def is_file_at_def is_dir_at_def new_file_def split: if_splits option.splits)

lemma spec_complete_at: "spec_update ok (\<lambda>a. a\<lparr>e_status := st, e_modTime := now\<rparr>) q m = Some m' \<Longrightarrow> is_file_at m' q"
  by (auto simp: spec_update_def is_file_at_def split: if_splits option.splits)

lemma CreateFile_done:
  assumes "CreateFile codec raft rnd args s = (Inr reply, s')" "commits codec raft [] t" "\<And>p. carries codec p" "mds_inv s"
  shows "IsLeader raft \<and> mds_inv s' \<and> splitPath (cf_Path args) \<noteq> [] \<and>
    is_file_at (ns (root s')) (splitPath (cf_Path args)) \<and>
    (ns (root s) (splitPath (cf_Path args)) = None \<or> cf_CreateMode args = OverwriteIfExists)"
proof -
  obtain fid rs where "IsLeader raft" and
    a: "apply_payload t OpCreateFile (create_payload args fid rs) s = Inr s'"
    using assms(1) submit_carried [OF assms(2,3), where s = s]
    by (auto simp: CreateFile_def checkLeader_def Let_def create_payload_def
        split: option.splits sum.splits if_splits elim!: returning.elims)
  moreover have "spec_create t (splitPath (cf_Path args)) (create_payload args fid rs) (ns (root s)) = Some (ns (root s'))"
    using apply_payload_ns [OF inv_wf [OF assms(4)] a] by (simp add: spec_apply_def op_names create_payload_def)
  from spec_create_facts [OF this] have "splitPath (cf_Path args) \<noteq> []" "is_file_at (ns (root s')) (splitPath (cf_Path args))"
    "ns (root s) (splitPath (cf_Path args)) = None \<or> cf_CreateMode args = OverwriteIfExists"
    by (simp_all add: create_payload_def)
  ultimately show ?thesis using apply_payload_inv [OF assms(4) a] by simp
qed

lemma CompleteFile_done:
  assumes "CompleteFile codec raft path s = (Inr x, s')" "commits codec raft [] t" "\<And>p. carries codec p" "mds_inv s"
  shows "is_file_at (ns (root s')) (splitPath path)"
proof -
  let ?p = "zero_payload\<lparr>p_Op := OpCompleteFile, p_Path := path\<rparr>"
  have "apply_payload t OpCompleteFile ?p s = Inr s'"
    using assms(1) submit_carried [OF assms(2,3), of ?p s]
    by (auto simp: CompleteFile_def Let_def split: option.splits sum.splits elim!: returning.elims)
  from apply_payload_ns [OF inv_wf [OF assms(4)] this] show ?thesis
    by (auto simp: spec_apply_def op_names Let_def dest: spec_complete_at)
qed

lemma stores_keep_mds:
  "store_replicas (cluster_rpcs codec raft rnd env now dial) data rs w = (es, w') \<Longrightarrow> cl_mds w' = cl_mds w"
  by (induction rs arbitrary: w es) (auto split: option.splits prod.splits dest: on_node_mds)

text \<open>
  An upload that fails has left the cluster as it was, or created its file (over another one only when
  it was told to) and removed it again.
\<close>

lemma PutFile_cluster:
  assumes "PutFile (cluster_rpcs codec raft rnd env now dial) env0 c disk lp rp mode w = (res, w')"
    and "commits codec raft [] t" "\<And>p. carries codec p" "mds_inv (cl_mds w)"
  shows "case res of None \<Rightarrow> is_file_at (ns (root (cl_mds w'))) (splitPath rp)
    | Some err \<Rightarrow> w' = w \<or> ns (root (cl_mds w')) (splitPath rp) = None \<and>
        (ns (root (cl_mds w)) (splitPath rp) = None \<or> mode = OverwriteIfExists)"
proof (cases "ReadFile env0 lp disk")
  case (Inl err)
  with assms(1) show ?thesis by (auto simp: PutFile_def)
next
  case (Inr data)
  let ?api = "cluster_rpcs codec raft rnd env now dial"
  let ?args = "\<lparr>cf_Path = rp, cf_Size = of_nat (length data), cf_CreateMode = mode\<rparr>"
  let ?create = "via_leader ?api c ''MetadataService.CreateFile'' (\<lambda>a. rpc_CreateFile ?api a ?args) w"
  obtain r w1 where cr: "?create = (r, w1)" by (cases ?create)
  note d = via_mds [OF cr [unfolded rpcs_simps] writes_fail(1) [OF assms(2,3)]]
  show ?thesis
  proof (cases r)
    case (Inl err)
    with assms(1) Inr cr d show ?thesis by (auto simp: PutFile_def)
  next
    case (Inr reply)
    with d obtain s1 where s1: "CreateFile codec raft rnd ?args (cl_mds w) = (Inr reply, s1)"
      "w1 = w\<lparr>cl_mds := s1\<rparr>" "dial c = None" by auto
    note c = CreateFile_done [OF s1(1) assms(2-4), simplified]
    obtain es w2 where st: "store_replicas ?api data (cfr_Replicas reply) w1 = (es, w2)"
      by (cases "store_replicas ?api data (cfr_Replicas reply) w1")
    have m2: "cl_mds w2 = s1" using stores_keep_mds [OF st] s1(2) by simp
    show ?thesis
    proof (cases "successes es = 0")
      case True
      then have run: "res \<noteq> None" "w' = snd (Client_Delete ?api c rp w2)"
        using assms(1) \<open>ReadFile env0 lp disk = Inr data\<close> cr Inr st by (auto simp: PutFile_def)
      have "ns (root s1) (splitPath rp) \<noteq> None" using c by (auto simp: is_file_at_def split: option.splits)
      then obtain reply' s2 where "Delete codec raft rp (cl_mds w2) = (Inr reply', s2)"
        using Delete_succeeds [OF _ assms(2,3), of "cl_mds w2" rp] c m2 by auto
      then have "via_leader ?api c ''MetadataService.Delete'' (\<lambda>a. rpc_Delete ?api a rp) w2 =
          (Inr reply', w2\<lparr>cl_mds := s2\<rparr>)"
        unfolding rpcs_simps by (intro via_mds_done [where dial = dial, OF s1(3)])
      then have "fst (Client_Delete ?api c rp w2) = None" by (simp add: Client_Delete_def)
      with Client_Delete_cluster [of codec raft rnd env now dial c rp w2 None w', OF _ assms(2,3)] run(2) c m2
      have "ns (root (cl_mds w')) (splitPath rp) = None" by (simp add: prod_eq_iff)
      with run(1) c show ?thesis by auto
    next
      case False
      let ?call = "via_leader ?api c ''MetadataService.CompleteFile'' (\<lambda>a. rpc_CompleteFile ?api a rp) w2"
      from False have run: "res = None" "w' = snd ?call"
        using assms(1) \<open>ReadFile env0 lp disk = Inr data\<close> cr Inr st by (auto simp: PutFile_def)
      obtain x w3 where v: "?call = (x, w3)" by (cases ?call)
      from via_mds [OF v [unfolded rpcs_simps] writes_fail(5) [OF assms(2,3)]] c m2 v run
      have "is_file_at (ns (root (cl_mds w'))) (splitPath rp)"
        by (cases x) (auto dest: CompleteFile_done [OF _ assms(2,3)])
      with run(1) show ?thesis by simp
    qed
  qed
qed

lemma Client_TriggerGC_cluster:
  assumes "Client_TriggerGC (cluster_rpcs codec raft rnd env now dial) c w = (res, w')"
  shows "w' = w"
proof -
  let ?api = "cluster_rpcs codec raft rnd env now dial"
  let ?call = "via_leader ?api c ''MetadataService.TriggerGC'' (rpc_TriggerGC ?api) w"
  obtain r w1 where v: "?call = (r, w1)" by (cases ?call)
  have "w1 = w" by (rule via_leader_keeps [where P = "\<lambda>x. x = w", OF _ refl v]) simp
  with assms v show ?thesis by (cases r) (auto simp: Client_TriggerGC_def)
qed

subsection \<open>Commands\<close>

text \<open>The commands that only read, and the others.\<close>

definition reading :: "string set" where
  "reading = {''ls'', ''stat'', ''replicas'', ''nodes''}"

definition changing :: "string set" where
  "changing = {''mkdir'', ''rm'', ''gc''}"

definition copying :: "string set" where
  "copying = {''put'', ''get'', ''mount''}"

definition unchanged :: "'w process \<Rightarrow> 'w process \<Rightarrow> bool" where
  "unchanged p p' \<longleftrightarrow> pr_world p' = pr_world p \<and> pr_disk p' = pr_disk p"

text \<open>Zero exactly when there was no error.\<close>

definition status_of :: "error option \<Rightarrow> nat" where
  "status_of e = (if e = None then 0 else 1)"

text \<open>When the server at \<open>c\<close> answers a reading command, in state \<open>s\<close>.\<close>

definition answered :: "(string \<Rightarrow> error option) \<Rightarrow> string \<Rightarrow> mds \<Rightarrow> string \<Rightarrow> string list \<Rightarrow> bool" where
  "answered dial c s cmd args \<longleftrightarrow> dial c = None \<and>
     (cmd = ''nodes'' \<or> cmd = ''ls'' \<and> is_ok (ListDir (if args = [] then ''/'' else hd args) s) \<or>
      args \<noteq> [] \<and> (cmd = ''stat'' \<and> is_ok (Stat (hd args) s) \<or>
        cmd = ''replicas'' \<and> is_ok (GetFileLocation (hd args) s)))"

text \<open>
  What an upload, a download and a mount do, from the arguments behind the command: the exit status and
  what has become of cluster and disk. \<open>m\<close> and \<open>m'\<close> are the namespaces before and after.
\<close>

definition put_result ::
  "cluster host \<Rightarrow> string \<Rightarrow> string list \<Rightarrow> cluster process \<Rightarrow> nat \<Rightarrow> cluster process \<Rightarrow> bool" where
  "put_result h c args p status p' \<longleftrightarrow>
     (let m = ns (root (cl_mds (pr_world p))); m' = ns (root (cl_mds (pr_world p'))) in
      case parse_flags [(''overwrite'', BoolFlag)] args of
        Inl e \<Rightarrow> status = (if e = HelpWanted then 0 else 2) \<and> unchanged p p'
      | Inr (st, source # remote # _) \<Rightarrow>
          (let overwrite = bool_flag st ''overwrite'';
               run = PutFile (h_api h) (h_env h) c (pr_disk p) source remote
                 (if overwrite then OverwriteIfExists else CreateIfNotExist) (pr_world p)
           in status = status_of (fst run) \<and> pr_world p' = snd run \<and> pr_disk p' = pr_disk p \<and>
              (status = 0 \<longrightarrow> is_file_at m' (splitPath remote)) \<and>
              (status \<noteq> 0 \<longrightarrow> pr_world p' = pr_world p \<or>
                 m' (splitPath remote) = None \<and> (m (splitPath remote) = None \<or> overwrite)))
      | Inr _ \<Rightarrow> status = 1 \<and> unchanged p p')"

definition get_result :: "'w host \<Rightarrow> string \<Rightarrow> string list \<Rightarrow> 'w process \<Rightarrow> nat \<Rightarrow> 'w process \<Rightarrow> bool" where
  "get_result h c args p status p' \<longleftrightarrow>
     (case args of
        remote # target # _ \<Rightarrow>
          (let run = GetFile (h_api h) (h_env h) (h_now h) c remote target (pr_world p) (pr_disk p)
           in status = status_of (fst run) \<and> pr_world p' = pr_world p \<and> pr_disk p' = snd run)
      | _ \<Rightarrow> status = 1 \<and> unchanged p p')"

definition mount_result :: "'w host \<Rightarrow> string \<Rightarrow> string list \<Rightarrow> 'w process \<Rightarrow> nat \<Rightarrow> 'w process \<Rightarrow> bool" where
  "mount_result h c args p status p' \<longleftrightarrow>
     (if args = [] \<or> \<not> is_mount_point (h_env h) (hd args) (pr_disk p) then status = 1 \<and> unchanged p p'
      else (case Mount (h_Mount h) c (hd args) of
          Inl _ \<Rightarrow> status = 1 \<and> unchanged p p'
        | Inr server \<Rightarrow> status = status_of (fs_Unmount server) \<and>
            pr_world p' = fs_serve server (pr_world p) \<and> pr_disk p' = pr_disk p))"

lemmas ends = failing_def usage_def finish_def say_def

lemma dispatch_reading:
  "dispatch h c (''ls'' # args) p = cmd_ls h c (''ls'' # args) p"
  "dispatch h c (''stat'' # args) p = cmd_stat h c (''stat'' # args) p"
  "dispatch h c (''replicas'' # args) p = cmd_replicas h c (''replicas'' # args) p"
  "dispatch h c (''nodes'' # args) p = cmd_nodes h c p"
  by (simp_all add: dispatch_def)

lemma reading_commands:
  assumes "dispatch h c (cmd # args) p = (status, p')" "cmd \<in> reading"
    and "h_api h = cluster_rpcs codec raft rnd env now dial"
  shows "status = (if answered dial c (cl_mds (pr_world p)) cmd args then 0 else 1) \<and> unchanged p p'"
proof -
  have q: "Client_ListDir (h_api h) c path w = (case dialMDS (h_api h) c of Some err \<Rightarrow> Inl err
      | None \<Rightarrow> map_sum ((@) ''list dir failed: '') id (ListDir path (cl_mds w)))"
    "Client_Stat (h_api h) c path w = (case dialMDS (h_api h) c of Some err \<Rightarrow> Inl err
      | None \<Rightarrow> map_sum ((@) ''stat failed: '') id (Stat path (cl_mds w)))"
    "GetReplicas (h_api h) c path w = (case dialMDS (h_api h) c of Some err \<Rightarrow> Inl err
      | None \<Rightarrow> map_sum ((@) ''get file location failed: '') fl_Replicas (GetFileLocation path (cl_mds w)))"
    "Client_ListDataNodes (h_api h) c w = (case dialMDS (h_api h) c of Some err \<Rightarrow> Inl err
      | None \<Rightarrow> Inr (dataNodes (cl_mds w)))"
    "dialMDS (h_api h) c = None \<longleftrightarrow> dial c = None" for path w
    by (auto simp: Client_ListDir_def Client_Stat_def GetReplicas_def Client_ListDataNodes_def query_def
        dialMDS_def assms(3) cluster_rpcs_def ListDataNodes_def split: option.splits sum.splits)
  consider "cmd = ''ls''" | "cmd = ''stat''" | "cmd = ''replicas''" | "cmd = ''nodes''"
    using assms(2) by (auto simp: reading_def)
  then show ?thesis
  proof cases
    case 1
    let ?path = "if args = [] then ''/'' else hd args"
    have path: "(if 2 \<le> length (''ls'' # args) then (''ls'' # args) ! 1 else ''/'') = ?path" by (cases args) simp_all
    have "(status, p') = (case Client_ListDir (h_api h) c ?path (pr_world p) of Inl err \<Rightarrow> failing ''ls failed'' err p
      | Inr infos \<Rightarrow> if infos = [] then finish [Line ''(empty)''] p
          else finish [Table ([''NAME'', ''SIZE'', ''MODIFIED'', ''TYPE''] # map (ls_row (h_RFC3339 h)) infos)] p)"
      using assms(1) unfolding 1 dispatch_reading cmd_ls_def path Let_def by simp
    then show ?thesis
      unfolding q(1) answered_def unchanged_def 1 using q(5)
      by (cases "dialMDS (h_api h) c"; cases "ListDir ?path (cl_mds (pr_world p))")
        (simp_all add: ends split: if_splits)
  next
    case 2
    show ?thesis
      using assms(1) q(5) unfolding 2 dispatch_reading cmd_stat_def answered_def unchanged_def q(2)
      by (cases args; cases "dialMDS (h_api h) c"; cases "Stat (hd args) (cl_mds (pr_world p))")
        (auto simp: ends)
  next
    case 3
    show ?thesis
      using assms(1) q(5) unfolding 3 dispatch_reading cmd_replicas_def answered_def unchanged_def q(3)
      by (cases args; cases "dialMDS (h_api h) c"; cases "GetFileLocation (hd args) (cl_mds (pr_world p))")
        (auto simp: ends)
  next
    case 4
    show ?thesis
      using assms(1) q(5) unfolding 4 dispatch_reading cmd_nodes_def answered_def unchanged_def q(4)
      by (cases "dialMDS (h_api h) c") (auto simp: ends)
  qed
qed

lemma changing_commands:
  assumes "dispatch h c (cmd # args) p = (status, p')" "cmd \<in> changing"
    and "h_api h = cluster_rpcs codec raft rnd env now dial"
    and "commits codec raft [] t" "\<And>p. carries codec p" "mds_inv (cl_mds (pr_world p))"
  shows "status \<le> 1 \<and> pr_disk p' = pr_disk p \<and> (status \<noteq> 0 \<or> cmd = ''gc'' \<longrightarrow> pr_world p' = pr_world p) \<and>
    (status = 0 \<and> cmd = ''mkdir'' \<longrightarrow> args \<noteq> [] \<and> is_dir_at (ns (root (cl_mds (pr_world p')))) (splitPath (hd args))) \<and>
    (status = 0 \<and> cmd = ''rm'' \<longrightarrow> args \<noteq> [] \<and> ns (root (cl_mds (pr_world p))) (splitPath (hd args)) \<noteq> None \<and>
       ns (root (cl_mds (pr_world p'))) (splitPath (hd args)) = None)"
    "cmd = ''mkdir'' \<Longrightarrow> args \<noteq> [] \<Longrightarrow> status = status_of (fst (Client_Mkdir (h_api h) c (hd args) (pr_world p)))"
    "cmd = ''rm'' \<Longrightarrow> args \<noteq> [] \<Longrightarrow> status = status_of (fst (Client_Delete (h_api h) c (hd args) (pr_world p)))"
    "cmd = ''gc'' \<Longrightarrow> status = status_of (fst (Client_TriggerGC (h_api h) c (pr_world p)))"
proof -
  note mk = Client_Mkdir_cluster [OF _ assms(4-6)] and rm = Client_Delete_cluster [OF _ assms(4-6)]
  show "status \<le> 1 \<and> pr_disk p' = pr_disk p \<and> (status \<noteq> 0 \<or> cmd = ''gc'' \<longrightarrow> pr_world p' = pr_world p) \<and>
    (status = 0 \<and> cmd = ''mkdir'' \<longrightarrow> args \<noteq> [] \<and> is_dir_at (ns (root (cl_mds (pr_world p')))) (splitPath (hd args))) \<and>
    (status = 0 \<and> cmd = ''rm'' \<longrightarrow> args \<noteq> [] \<and> ns (root (cl_mds (pr_world p))) (splitPath (hd args)) \<noteq> None \<and>
       ns (root (cl_mds (pr_world p'))) (splitPath (hd args)) = None)"
    using assms(1-3)
    by (cases args)
      (auto simp: changing_def dispatch_def cmd_mkdir_def cmd_rm_def cmd_gc_def ends split: prod.splits option.splits if_splits
        dest!: mk rm Client_TriggerGC_cluster)
  show "cmd = ''mkdir'' \<Longrightarrow> args \<noteq> [] \<Longrightarrow> status = status_of (fst (Client_Mkdir (h_api h) c (hd args) (pr_world p)))"
    "cmd = ''rm'' \<Longrightarrow> args \<noteq> [] \<Longrightarrow> status = status_of (fst (Client_Delete (h_api h) c (hd args) (pr_world p)))"
    "cmd = ''gc'' \<Longrightarrow> status = status_of (fst (Client_TriggerGC (h_api h) c (pr_world p)))"
    using assms(1)
    by (cases args; auto simp: dispatch_def cmd_mkdir_def cmd_rm_def cmd_gc_def ends status_of_def
        split: prod.splits option.splits)+
qed

lemma put_command:
  assumes "dispatch h c (''put'' # args) p = (status, p')" "h_api h = cluster_rpcs codec raft rnd env now dial"
    and "commits codec raft [] t" "\<And>p. carries codec p" "mds_inv (cl_mds (pr_world p))"
  shows "put_result h c args p status p'"
proof (cases "parse_flags [(''overwrite'', BoolFlag)] args")
  case (Inl e)
  with assms(1) show ?thesis by (auto simp: dispatch_def cmd_put_def put_result_def exit_on_error_def unchanged_def)
next
  case (Inr parsed)
  then obtain st rest where f: "parse_flags [(''overwrite'', BoolFlag)] args = Inr (st, rest)" by (cases parsed) auto
  show ?thesis
  proof (cases "length rest < 2")
    case True
    then have "rest = [] \<or> (\<exists>x. rest = [x])" by (cases rest; cases "tl rest") auto
    with f assms(1) show ?thesis
      by (auto simp: dispatch_def cmd_put_def put_result_def ends unchanged_def)
  next
    case False
    then obtain source remote others where rest: "rest = source # remote # others"
      by (cases rest; cases "tl rest") auto
    let ?mode = "if bool_flag st ''overwrite'' then OverwriteIfExists else CreateIfNotExist"
    obtain e w where run: "PutFile (h_api h) (h_env h) c (pr_disk p) source remote ?mode (pr_world p) = (e, w)"
      by (cases "PutFile (h_api h) (h_env h) c (pr_disk p) source remote ?mode (pr_world p)")
    have "status = status_of e \<and> pr_world p' = w \<and> pr_disk p' = pr_disk p"
      using f rest run assms(1)
      by (auto simp: dispatch_def cmd_put_def ends status_of_def Let_def split: option.splits)
    moreover have "?mode = OverwriteIfExists \<longleftrightarrow> bool_flag st ''overwrite''"
      by (simp add: OverwriteIfExists_def CreateIfNotExist_def)
    ultimately show ?thesis
      using f rest run PutFile_cluster [OF run [unfolded assms(2)] assms(3-5)]
      by (auto simp: put_result_def status_of_def Let_def split: option.splits)
  qed
qed

lemma get_command:
  "dispatch h c (''get'' # args) p = (status, p') \<Longrightarrow> get_result h c args p status p'"
  by (cases args; cases "tl args")
    (auto simp: dispatch_def cmd_get_def get_result_def ends status_of_def unchanged_def Let_def
      split: prod.splits option.splits)

lemma mount_command:
  "dispatch h c (''mount'' # args) p = (status, p') \<Longrightarrow> mount_result h c args p status p'"
  by (cases args)
    (auto simp: dispatch_def cmd_mount_def mount_result_def ends status_of_def unchanged_def Let_def
      split: sum.splits option.splits if_splits)

lemma unknown_command:
  assumes "dispatch h c (cmd # args) p = (status, p')"
    and "cmd \<notin> reading \<union> changing \<union> copying"
  shows "status = 1 \<and> unchanged p p'"
  using assms by (auto simp: reading_def changing_def copying_def dispatch_def ends unchanged_def)

text \<open>
  C17 (exit status). Flags that do not parse end the client with status 2, or 0 for a request for
  help, before it does anything; a missing or unknown command, or a missing argument, ends it with
  status 1 and changes nothing. With nothing else in flight, the status of a command is 0 exactly when
  its operation had no error, and it is honest. A reading command changes nothing, and its status is 0
  exactly when the server can be reached and answers. When mkdir, rm or gc ends with another status the
  cluster is as it was; after mkdir with status 0 the directory is there, and after rm with status 0 the
  path, which was there, is gone. After a put with status 0 the file is there; after a failing one the
  cluster is as it was, or the path is gone, and then it was not there before or the put was told to
  overwrite it. A get changes nothing but the local disk, and no other command changes the local disk.
  A mount changes nothing unless it is served, and then reports whether it could be taken down.
\<close>

theorem exit_status:
  assumes "fstorex_main h argv p = (status, p')" "h_api h = cluster_rpcs codec raft rnd env now dial"
    and "commits codec raft [] t" "\<And>p. carries codec p" "mds_inv (cl_mds (pr_world p))"
    and "m = ns (root (cl_mds (pr_world p)))" "m' = ns (root (cl_mds (pr_world p')))"
  shows "case parse_flags main_flags argv of
      Inl e \<Rightarrow> status = (if e = HelpWanted then 0 else 2) \<and> p' = p
    | Inr (st, []) \<Rightarrow> status = 1 \<and> unchanged p p'
    | Inr (st, cmd # args) \<Rightarrow>
       (let c = string_flag st ''mds'' ''localhost:9001'' in
        (cmd \<notin> reading \<union> changing \<union> copying \<longrightarrow> status = 1 \<and> unchanged p p') \<and>
        (cmd \<in> reading \<longrightarrow> status = (if answered dial c (cl_mds (pr_world p)) cmd args then 0 else 1) \<and> unchanged p p') \<and>
        (cmd \<in> changing \<longrightarrow> status \<le> 1 \<and> pr_disk p' = pr_disk p \<and> (status = 1 \<longrightarrow> unchanged p p')) \<and>
        (cmd = ''mkdir'' \<longrightarrow>
           (args \<noteq> [] \<longrightarrow> status = status_of (fst (Client_Mkdir (h_api h) c (hd args) (pr_world p)))) \<and>
           (status = 0 \<longrightarrow> args \<noteq> [] \<and> is_dir_at m' (splitPath (hd args)))) \<and>
        (cmd = ''rm'' \<longrightarrow>
           (args \<noteq> [] \<longrightarrow> status = status_of (fst (Client_Delete (h_api h) c (hd args) (pr_world p)))) \<and>
           (status = 0 \<longrightarrow> args \<noteq> [] \<and> m (splitPath (hd args)) \<noteq> None \<and> m' (splitPath (hd args)) = None)) \<and>
        (cmd = ''gc'' \<longrightarrow> status = status_of (fst (Client_TriggerGC (h_api h) c (pr_world p))) \<and> unchanged p p') \<and>
        (cmd = ''put'' \<longrightarrow> put_result h c args p status p') \<and>
        (cmd = ''get'' \<longrightarrow> get_result h c args p status p') \<and>
        (cmd = ''mount'' \<longrightarrow> mount_result h c args p status p'))"
proof (cases "parse_flags main_flags argv")
  case (Inl e)
  with assms(1) show ?thesis by (auto simp: fstorex_main_def exit_on_error_def)
next
  case (Inr parsed)
  then obtain st args0 where f: "parse_flags main_flags argv = Inr (st, args0)" by (cases parsed) auto
  show ?thesis
  proof (cases args0)
    case Nil
    with f assms(1) show ?thesis by (auto simp: fstorex_main_def say_def unchanged_def)
  next
    case (Cons cmd args)
    let ?c = "string_flag st ''mds'' ''localhost:9001''"
    have run: "dispatch h ?c (cmd # args) p = (status, p')" using assms(1) f Cons by (simp add: fstorex_main_def)
    consider "cmd \<in> reading" | "cmd \<in> changing" | "cmd \<in> copying" | "cmd \<notin> reading \<union> changing \<union> copying"
      by blast
    then show ?thesis
    proof cases
      case 1
      with reading_commands [OF run 1 assms(2)] show ?thesis
        by (auto simp: f Cons reading_def changing_def copying_def Let_def)
    next
      case 2
      note ch = changing_commands [OF run 2 assms(2-5)]
      from ch(1) have ok: "status \<le> 1" "pr_disk p' = pr_disk p" "status = 1 \<longrightarrow> unchanged p p'"
        by (simp_all add: unchanged_def)
      from 2 consider "cmd = ''mkdir''" | "cmd = ''rm''" | "cmd = ''gc''" by (auto simp: changing_def)
      then show ?thesis
      proof cases
        case 1
        have "args \<noteq> [] \<longrightarrow> status = status_of (fst (Client_Mkdir (h_api h) ?c (hd args) (pr_world p)))"
          "status = 0 \<longrightarrow> args \<noteq> [] \<and> is_dir_at m' (splitPath (hd args))"
          using ch(1) ch(2) [OF 1] by (simp_all add: 1 assms(7))
        with ok show ?thesis by (simp add: f Cons 1 reading_def changing_def copying_def)
      next
        case 2
        have "args \<noteq> [] \<longrightarrow> status = status_of (fst (Client_Delete (h_api h) ?c (hd args) (pr_world p)))"
          "status = 0 \<longrightarrow> args \<noteq> [] \<and> m (splitPath (hd args)) \<noteq> None \<and> m' (splitPath (hd args)) = None"
          using ch(1) ch(3) [OF 2] by (simp_all add: 2 assms(6,7))
        with ok show ?thesis by (simp add: f Cons 2 reading_def changing_def copying_def)
      next
        case 3
        with ok ch(1) ch(4) [OF 3] show ?thesis
          by (simp add: f Cons 3 reading_def changing_def copying_def unchanged_def)
      qed
    next
      case 3
      then consider "cmd = ''put''" | "cmd = ''get''" | "cmd = ''mount''" by (auto simp: copying_def)
      then show ?thesis
      proof cases
        case 1
        from put_command [OF run [unfolded 1] assms(2-5)] show ?thesis
          by (simp add: f Cons 1 reading_def changing_def copying_def)
      next
        case 2
        from get_command [OF run [unfolded 2]] show ?thesis
          by (simp add: f Cons 2 reading_def changing_def copying_def)
      next
        case 3
        from mount_command [OF run [unfolded 3]] show ?thesis
          by (simp add: f Cons 3 reading_def changing_def copying_def)
      qed
    next
      case 4
      with unknown_command [OF run 4] show ?thesis
        by (auto simp: f Cons reading_def changing_def copying_def Let_def)
    qed
  qed
qed

definition demo_host :: "cluster host" where
  "demo_host = \<lparr>h_api = demo_rpcs, h_env = calm, h_now = 9, h_RFC3339 = (\<lambda>_. []),
     h_Mount = (\<lambda>_ _ _ _. Inl ''no fuse'')\<rparr>"

definition demo_process :: "cluster process" where
  "demo_process = \<lparr>pr_out = [], pr_world = demo_cluster, pr_disk = local_disk\<rparr>"

theorem exit_status_witness:
  "\<exists>p'. fstorex_main demo_host [''-mds=m1'', ''rm'', ''/d''] demo_process = (0, p') \<and>
     ns (root (cl_mds (pr_world p'))) [''d''] = None \<and>
   pr_world (snd (fstorex_main demo_host [''-mds'', ''m1'', ''mkdir'', ''/x/y''] demo_process)) = demo_cluster"
proof -
  let ?rm = "fstorex_main demo_host [''-mds=m1'', ''rm'', ''/d''] demo_process"
  let ?mk = "fstorex_main demo_host [''-mds'', ''m1'', ''mkdir'', ''/x/y''] demo_process"
  have st: "fst ?rm = 0" "fst ?mk = 1"
    "parse_flags main_flags [''-mds=m1'', ''rm'', ''/d''] = Inr ([(''mds'', ''m1'')], [''rm'', ''/d''])"
    "parse_flags main_flags [''-mds'', ''m1'', ''mkdir'', ''/x/y''] = Inr ([(''mds'', ''m1'')], [''mkdir'', ''/x/y''])"
    "splitPath ''/d'' = [''d'']" by code_simp+
  then obtain p1 p2 where run: "?rm = (0, p1)" "?mk = (1, p2)" by (metis prod.collapse)
  have api: "h_api demo_host = cluster_rpcs direct_codec (solo_raft direct_codec 7) (Inr (replicate 16 255))
      (\<lambda>_. calm) 7 (\<lambda>_. None)" by (simp add: demo_host_def demo_rpcs_def)
  have inv: "mds_inv (cl_mds (pr_world demo_process))"
    by (simp add: demo_process_def demo_cluster_def demo_server_inv)
  note rule = exit_status [OF _ api solo_commits direct_carries inv refl refl]
  have "ns (root (cl_mds (pr_world p1))) [''d''] = None" using rule [OF run(1), unfolded st(3)] st(5) by (simp add: Let_def)
  moreover have "pr_world p2 = demo_cluster" using rule [OF run(2), unfolded st(4)]
    by (simp add: demo_process_def changing_def unchanged_def Let_def)
  ultimately show ?thesis using run by simp
qed

end
