(* ===== verification/Server_Programs.thy ===== *)
theory Server_Programs
  imports Redirect Command_Line
begin

text \<open>
  The two server programs (\<^verbatim>\<open>cmd/fstorex-mds/main.go\<close>,
  \<^verbatim>\<open>cmd/fstorex-dn/main.go\<close>): flags, configuration, and the start-up in the order of
  the code, each failure of which ends the process with status 1. What the start-up asks of the Raft
  library, of \<^verbatim>\<open>net/rpc\<close> and of the network are arguments. The end of both programs, a
  signal that two goroutines wait for, is a state machine of its own.
\<close>

subsection \<open>The metadata server\<close>

record raft_config =
  LocalID :: string
  Peers :: "string list"
  WalDir :: string
  SnapDir :: string
  MaxIndexSpan :: uint64
  ElectionTimeout :: duration

record server_env =
  se_env :: os_env
  se_InitServer :: "raft_config \<Rightarrow> error option"
  se_Register :: "string \<Rightarrow> error option"
  se_Listen :: "string \<Rightarrow> error option"

text \<open>How a start-up ends: with an exit status, or with a server that takes connections.\<close>

datatype 's started = Exited nat | Serving 's

definition start_metadata_server ::
  "(raft_config \<Rightarrow> error option) \<Rightarrow> raft_config \<Rightarrow> time \<Rightarrow> time \<Rightarrow> mds result" where
  "start_metadata_server init cfg created modified =
     (case init cfg of
        Some err \<Rightarrow> Inl (''init raft server failed: '' @ err)
      | None \<Rightarrow> Inr (NewMetadataServer created modified))"

definition mds_flags :: "(string \<times> flag_kind) list" where
  "mds_flags = [(''id'', StringFlag), (''peers'', StringFlag), (''waldir'', StringFlag),
     (''snapdir'', StringFlag), (''maxindexspan'', Uint64Flag)]"

definition parse_peers :: "string \<Rightarrow> string \<Rightarrow> string list" where
  "parse_peers self peersStr =
     (if peersStr \<noteq> [] then filter (\<lambda>p. p \<noteq> [] \<and> p \<noteq> self) (map TrimSpace (Split CHR '','' peersStr)) else [])"

definition mds_config :: "settings \<Rightarrow> raft_config" where
  "mds_config st =
     (let self = string_flag st ''id'' ''localhost:9001'' in
      \<lparr>LocalID = self, Peers = parse_peers self (string_flag st ''peers'' []),
       WalDir = string_flag st ''waldir'' ''/tmp/mds/wal'', SnapDir = string_flag st ''snapdir'' ''/tmp/mds/snap'',
       MaxIndexSpan = uint64_flag st ''maxindexspan'' 1000, ElectionTimeout = 3 * second\<rparr>)"

text \<open>The errors of \<^verbatim>\<open>os.MkdirAll\<close> are ignored.\<close>

definition ensure_dir :: "os_env \<Rightarrow> string \<Rightarrow> disk \<Rightarrow> disk" where
  "ensure_dir env p d = (case MkdirAll env p d of Inl err \<Rightarrow> d | Inr d \<Rightarrow> d)"

text \<open>One step of a start-up: an error is logged and ends the process.\<close>

definition attempt :: "string \<Rightarrow> error option \<Rightarrow> 's started \<times> shown list \<Rightarrow> 's started \<times> shown list" where
  "attempt msg e rest = (case e of Some err \<Rightarrow> (Exited 1, [LogError msg err]) | None \<Rightarrow> rest)"

definition mds_main ::
  "server_env \<Rightarrow> time \<Rightarrow> time \<Rightarrow> string list \<Rightarrow> disk \<Rightarrow> ((raft_config \<times> mds) started \<times> shown list) \<times> disk" where
  "mds_main e created modified argv d =
     (case parse_flags mds_flags argv of
        Inl err \<Rightarrow> ((Exited (exit_on_error err), []), d)
      | Inr (st, _) \<Rightarrow>
         (let cfg = mds_config st;
              d = ensure_dir (se_env e) (WalDir cfg) d;
              d = ensure_dir (se_env e) (SnapDir cfg) d
          in (case start_metadata_server (se_InitServer e) cfg created modified of
                Inl err \<Rightarrow> (Exited 1, [LogError ''failed to create metadata server'' err])
              | Inr s \<Rightarrow>
                  attempt ''failed to register raft rpc service'' (se_Register e ''Server'')
                   (attempt ''failed to register metadata rpc service'' (se_Register e ''MetadataService'')
                     (attempt ''failed to listen'' (se_Listen e (LocalID cfg))
                       (Serving (cfg, s),
                        [LogInfo ''metadata server (raft node) starting'',
                         Line (''Metadata Server (Raft) listening on '' @ LocalID cfg)]))),
              d)))"

subsection \<open>The data node\<close>

definition dn_flags :: "(string \<times> flag_kind) list" where
  "dn_flags = [(''addr'', StringFlag), (''mds'', StringFlag), (''datadir'', StringFlag)]"

definition RegisterRPC :: "server_env \<Rightarrow> error option" where
  "RegisterRPC e = se_Register e ''DataService''"

definition dn_main :: "server_env \<Rightarrow> string list \<Rightarrow> disk \<Rightarrow> data_node started \<times> shown list" where
  "dn_main e argv d =
     (case parse_flags dn_flags argv of
        Inl err \<Rightarrow> (Exited (exit_on_error err), [])
      | Inr (st, _) \<Rightarrow>
         (let addr = string_flag st ''addr'' '':9101'';
              mds_addr = string_flag st ''mds'' ''localhost:9001'';
              data_dir = string_flag st ''datadir'' ''/tmp/dn1''
          in case NewDataNode (se_env e) data_dir mds_addr addr d of
               Inl err \<Rightarrow> (Exited 1, [LogError ''failed to create data node'' err])
             | Inr dn \<Rightarrow>
                 attempt ''failed to register RPC'' (RegisterRPC e)
                  (attempt ''failed to listen'' (se_Listen e addr)
                    (Serving dn, [LogInfo ''data node starting'', Line (''Data Node listening on '' @ addr)]))))"

text \<open>A data node that serves has sent its first heartbeat, and sends one at each tick.\<close>

definition dn_serve ::
  "nat \<Rightarrow> (string \<Rightarrow> error option) \<Rightarrow> (string \<Rightarrow> string \<Rightarrow> 'w \<Rightarrow> HeartbeatReply result \<times> 'w) \<Rightarrow> data_node started \<Rightarrow>
   'w \<Rightarrow> 'w" where
  "dn_serve ticks dial call r w = (case r of Exited _ \<Rightarrow> w | Serving dn \<Rightarrow> StartHeartbeat ticks dial call dn w)"

subsection \<open>Shutting down\<close>

text \<open>
  \<^verbatim>\<open>sigCh\<close> has room for one signal; \<^verbatim>\<open>signal.Notify\<close> drops what does not fit.
  The goroutine that accepts connections and \<^verbatim>\<open>main\<close> both receive from it. The goroutine
  does when \<^verbatim>\<open>Accept\<close> has failed, and takes a signal only if one is there. \<^verbatim>\<open>main\<close>
  reaches its receive at some time after it has started the goroutine: it takes the signal that is
  there by then, or parks, and a signal that comes later is handed to it directly. Behind its
  receive it closes the listener and ends.
\<close>

record shutdown =
  sd_signals :: nat      \<comment> \<open>signals sent to the process\<close>
  sd_pending :: bool     \<comment> \<open>a signal in \<^verbatim>\<open>sigCh\<close>\<close>
  sd_accepting :: bool   \<comment> \<open>the accept loop runs\<close>
  sd_parked :: bool      \<comment> \<open>\<^verbatim>\<open>main\<close> waits at its receive\<close>
  sd_ended :: bool       \<comment> \<open>\<^verbatim>\<open>main\<close> is past its receive\<close>

definition running :: shutdown where
  "running = \<lparr>sd_signals = 0, sd_pending = False, sd_accepting = True, sd_parked = False, sd_ended = False\<rparr>"

inductive shutdown_step :: "shutdown \<Rightarrow> shutdown \<Rightarrow> bool" where
  signal: "\<not> sd_ended s \<Longrightarrow> \<not> sd_parked s \<Longrightarrow>
    shutdown_step s (s\<lparr>sd_signals := Suc (sd_signals s), sd_pending := True\<rparr>)"
| signal_handed: "\<not> sd_ended s \<Longrightarrow> sd_parked s \<Longrightarrow>
    shutdown_step s (s\<lparr>sd_signals := Suc (sd_signals s), sd_parked := False, sd_ended := True\<rparr>)"
| accept: "sd_accepting s \<Longrightarrow> \<not> sd_ended s \<Longrightarrow> shutdown_step s s"
| accept_fails: "sd_accepting s \<Longrightarrow> \<not> sd_ended s \<Longrightarrow>
    shutdown_step s (if sd_pending s then s\<lparr>sd_pending := False, sd_accepting := False\<rparr> else s)"
| main_receives: "\<not> sd_ended s \<Longrightarrow> \<not> sd_parked s \<Longrightarrow>
    shutdown_step s (if sd_pending s then s\<lparr>sd_pending := False, sd_ended := True\<rparr> else s\<lparr>sd_parked := True\<rparr>)"

inductive shuts_down :: "shutdown \<Rightarrow> bool" where
  run: "shuts_down running"
| step: "shuts_down s \<Longrightarrow> shutdown_step s s' \<Longrightarrow> shuts_down s'"

text \<open>A list of addresses, the own one included or not, gives the others as the peers.\<close>

fun comma_list :: "string list \<Rightarrow> string" where
  "comma_list [] = []"
| "comma_list [a] = a"
| "comma_list (a # b # as) = a @ CHR '','' # comma_list (b # as)"

lemma Split_comma_list:
  "as \<noteq> [] \<Longrightarrow> \<forall>a \<in> set as. CHR '','' \<notin> set a \<Longrightarrow> Split CHR '','' (comma_list as) = as"
  by (induction as rule: comma_list.induct) (simp_all add: Split_single Split_append)

lemma peers_listed:
  assumes "\<forall>a \<in> set as. plain_addr a \<and> CHR '','' \<notin> set a"
  shows "parse_peers self (comma_list as) = filter (\<lambda>a. a \<noteq> self) as"
proof (cases "as = []")
  case False
  have "map TrimSpace as = as" using assms by (intro map_idI) (auto simp: plain_addr_def intro: TrimSpace_id)
  moreover have "comma_list as \<noteq> []" using False assms
    by (cases as rule: comma_list.cases) (auto simp: plain_addr_def)
  ultimately show ?thesis using Split_comma_list [OF False] assms
    by (auto simp: parse_peers_def plain_addr_def intro: filter_cong)
qed (simp add: parse_peers_def)

inductive_cases shutdown_stepE: "shutdown_step s s'"

definition lost :: "shutdown \<Rightarrow> bool" where
  "lost s \<longleftrightarrow> sd_signals s > 0 \<and> \<not> sd_accepting s \<and> \<not> sd_pending s \<and> \<not> sd_ended s"

lemma shutdown_inv:
  assumes "shuts_down s"
  shows "(sd_ended s \<or> sd_pending s \<or> \<not> sd_accepting s \<longleftrightarrow> sd_signals s > 0) \<and> (sd_ended s \<longrightarrow> sd_signals s > 0) \<and>
    (sd_parked s \<longrightarrow> \<not> sd_pending s)"
  using assms
proof induction
  case run
  show ?case by (simp add: running_def)
next
  case (step s s')
  from step(2,3) show ?case by cases auto
qed

lemma lost_next:
  assumes "lost s" "shutdown_step s s'"
  shows "s' = s\<lparr>sd_parked := True\<rparr> \<or>
    sd_signals s' = Suc (sd_signals s) \<and> (sd_ended s' \<or> (\<exists>s''. shutdown_step s' s'' \<and> sd_ended s''))"
  using assms(2)
proof cases
  case signal
  then have "sd_ended s'' \<and> shutdown_step s' s''" if "s'' = s'\<lparr>sd_pending := False, sd_ended := True\<rparr>" for s''
    using shutdown_step.main_receives [of s'] that by simp
  with signal show ?thesis by auto
qed (use assms(1) in \<open>simp_all add: lost_def\<close>)

text \<open>
  C39 (shutting down). A server program ends only after a signal, and as long as its accept loop runs
  a signal is either waiting for main or has been received by it. Once main waits at its receive, no
  signal stays in the channel and the next one ends the program. But a signal that comes before can
  be lost: when accepting fails while it is in the channel, the accept loop takes it and stops, and
  the process neither takes connections nor ends until another signal comes, which main then
  receives.
\<close>

theorem signal_lost:
  "(\<exists>s. shuts_down s \<and> sd_signals s = 1 \<and> \<not> sd_accepting s \<and> \<not> sd_pending s \<and> \<not> sd_ended s) \<and>
   (\<forall>s. shuts_down s \<longrightarrow>
      (sd_ended s \<longrightarrow> sd_signals s > 0) \<and>
      (sd_signals s > 0 \<and> sd_accepting s \<longrightarrow> sd_pending s \<or> sd_ended s) \<and>
      (sd_parked s \<and> \<not> sd_ended s \<longrightarrow> \<not> sd_pending s \<and>
         (\<forall>s'. shutdown_step s s' \<longrightarrow> sd_signals s' = sd_signals s \<or> sd_ended s')) \<and>
      (sd_signals s > 0 \<and> \<not> sd_accepting s \<and> \<not> sd_pending s \<and> \<not> sd_ended s \<longrightarrow>
         (\<forall>s'. shutdown_step s s' \<longrightarrow> s' = s\<lparr>sd_parked := True\<rparr> \<or>
            sd_signals s' = Suc (sd_signals s) \<and> (sd_ended s' \<or> (\<exists>s''. shutdown_step s' s'' \<and> sd_ended s'')))))"
proof -
  have "shuts_down (running\<lparr>sd_signals := Suc 0, sd_pending := True\<rparr>)" (is "shuts_down ?s1")
    using shuts_down.step [OF shuts_down.run shutdown_step.signal [of running]] by (simp add: running_def)
  from shuts_down.step [OF this shutdown_step.accept_fails]
  have taken: "shuts_down (?s1\<lparr>sd_pending := False, sd_accepting := False\<rparr>)" by (simp add: running_def)
  have "\<exists>s. shuts_down s \<and> sd_signals s = 1 \<and> \<not> sd_accepting s \<and> \<not> sd_pending s \<and> \<not> sd_ended s"
    using taken by (intro exI conjI) (assumption, simp_all add: running_def)
  moreover have "sd_signals s' = sd_signals s \<or> sd_ended s'" if "sd_parked s" "shutdown_step s s'" for s s'
    using that(2,1) by cases auto
  ultimately show ?thesis using shutdown_inv lost_next unfolding lost_def by blast
qed

theorem signal_lost_witness:
  "\<exists>s s'. shuts_down s \<and> shutdown_step s s' \<and> \<not> sd_pending s \<and> sd_signals s = 1 \<and> sd_signals s' = 2 \<and>
     (sd_ended s' \<or> (\<exists>s''. shutdown_step s' s'' \<and> sd_ended s''))"
proof -
  obtain s where s: "shuts_down s" "sd_signals s = 1" "\<not> sd_accepting s" "\<not> sd_pending s" "\<not> sd_ended s"
    using signal_lost by blast
  obtain s' where s': "shutdown_step s s'" "sd_signals s' = Suc (sd_signals s)"
  proof (cases "sd_parked s")
    case True
    from shutdown_step.signal_handed [OF s(5) True] show ?thesis by (rule that) simp
  next
    case False
    from shutdown_step.signal [OF s(5) False] show ?thesis by (rule that) simp
  qed
  moreover have "s' \<noteq> s\<lparr>sd_parked := True\<rparr>" using s'(2) by auto
  ultimately have "sd_ended s' \<or> (\<exists>s''. shutdown_step s' s'' \<and> sd_ended s'')"
    using signal_lost s by (metis One_nat_def zero_less_one)
  with s s' show ?thesis by (intro exI [of _ s] exI [of _ s']) simp
qed

end
