(* ===== verification/Spec2Isabelle.thy ===== *)
theory Spec2Isabelle
  imports Namespace_Props Cluster_Props Gc_Props Overwrite_Loss Repair_Race Replication_Ends
    Service_Runs Fuse_Props Command_Props Server_Programs
begin

text \<open>
  FStoreX is a replicated file store. A metadata server keeps the directory tree and is replicated
  with Raft; data nodes keep file contents below a local directory; clients ask the leading metadata
  server where a file lies and talk to the data nodes; a FUSE adapter mounts the store. This
  development models these parts and proves what makes each of them correct, and what their
  composition promises to a user.

  \<^bold>\<open>How the code is modelled.\<close> Structs are records, Go's integers are words of their
  width, strings are byte strings, errors are their texts in a sum type (callers of the program match on
  the text), and state is passed explicitly. A map whose order matters is an association list. A loop
  that may not end is a partial function with \<^const>\<open>None\<close> for a call that never
  returns. Time is an argument: each operation gets the clock it would read. Libraries are arguments:
  the Raft node (\<open>raft_node\<close>, with the hypothesis \<open>commits\<close> that a submitted
  command is applied after those in flight), JSON (\<open>codec\<close>, with \<open>carries\<close>: a payload
  comes back as it was, which \<^verbatim>\<open>encoding/json\<close> keeps for strings that are valid UTF-8, so
  theorems that assume it for all payloads are about clients that send such paths), the random
  source, the network of a data node (\<open>net\<close>), the RPC calls of a client
  (\<open>rpcs\<close>), and the inode tree of go-fuse (\<open>go_fuse\<close>). The file system below a
  data node is a model of the \<^verbatim>\<open>os\<close> calls the code makes, with an environment that
  makes any of them fail, and with the length beyond which \<^verbatim>\<open>make\<close> panics; a handler
  that panics ends the process, and its caller sees the connection drop.

  \<^bold>\<open>Shared parts.\<close> \<open>Prelude\<close> has types, collections and lemmas on lists and
  words; \<open>Go_Strings\<close>, \<open>Paths\<close> and \<open>Os_Paths\<close> the functions of
  \<^verbatim>\<open>strings\<close> and \<^verbatim>\<open>path/filepath\<close> with \<open>splitPath\<close> and
  \<open>joinPath\<close>; \<open>Fs_Types\<close> the structs of \<^verbatim>\<open>internal/types/types.go\<close>.

  \<^bold>\<open>Metadata state machine\<close> (\<^verbatim>\<open>metadata/mds.go\<close>,
  \<^verbatim>\<open>apply.go\<close>, \<^verbatim>\<open>state_machine.go\<close>). \<open>Entry_Tree\<close> is the tree of
  entries and the walks over it, \<open>Mds_State\<close> the server, \<open>Apply_Ops\<close> every command of
  the log and the dispatch \<open>Apply\<close>, \<open>Snapshot_Restore\<close> the snapshots.
  \<open>Namespace_Spec\<close> states the operations on a partial map from paths to attributes, and
  \<open>Apply_Refines\<close> shows that the tree operations compute them; \<open>Apply_Invariants\<close> has
  the invariant of a server, \<open>Clock_Erasure\<close> what does not depend on clocks,
  \<open>Replica_Log\<close> the interface of a replicated log, which \<open>Replicas\<close> interprets on the
  state machine. \<open>Namespace_Props\<close> and \<open>Cluster_Props\<close> hold the properties: the outcome
  of each operation on every branch, the invariant of replayed logs, refinement, agreement of
  replicas, and recovery from snapshots.

  \<^bold>\<open>Metadata service\<close> (\<^verbatim>\<open>mds.go\<close>). \<open>Placement\<close> is the choice of
  data nodes with its 64-bit hash, where a negative index would panic, \<open>Mds_Service\<close> the handlers, \<open>Service_Laws\<close> what they
  rely on from Raft, \<open>Service_Props\<close> registration by heartbeat (at the leader, and through the log at the other
  servers), creation and listings.

  \<^bold>\<open>Data node\<close> (\<^verbatim>\<open>datanode/datanode.go\<close>). \<open>Os_Disk\<close> and
  \<open>Disk_Laws\<close> are the local disk, \<open>Data_Node\<close> the handlers, \<open>Replicate_File\<close> the
  copy from another node. \<open>Data_Node_Laws\<close> shows the effect of each handler on the contents,
  \<open>Data_Node_Props\<close> the properties; \<open>Blob_Store\<close> is the interface others rely on,
  interpreted in \<open>Data_Service\<close>. A copy uses chunks of \<open>replicateChunkSize\<close>; it ends when
  the source has the announced bytes, and provably not when the source is shorter.

  \<^bold>\<open>Background work\<close> (\<^verbatim>\<open>gc.go\<close>, \<^verbatim>\<open>replicator.go\<close>).
  \<open>Gc_Cycle\<close> and \<open>Gc_Props\<close> are the health check and the collection of orphans;
  \<open>Overwrite_Loss\<close> shows how a creation over an existing file loses its data to the collector.
  \<open>Replicator\<close>, \<open>Replicator_Laws\<close>, \<open>Replicator_Props\<close> and
  \<open>Replication_Cycles\<close> are the repair: the scan in batches of 16, the choice of targets, the
  copies, the commit of the result, and the cycle with its deadline, whose clock is a function of the
  turn. \<open>Replication_Ends\<close> shows when a cycle returns, \<open>Repair_Race\<close> what commands that
  commit during a repair do to it.

  \<^bold>\<open>Client\<close> (\<^verbatim>\<open>client/client.go\<close>,
  \<^verbatim>\<open>file_handle.go\<close>). \<open>Redirect\<close> follows the leader, at most three tries as in
  the code, for clients and for heartbeats; \<open>Client\<close> and \<open>Client_Handle\<close> have every
  operation of the library. \<open>Client_Reads\<close> shows that reads in parallel segments are serial
  reads. \<open>Cluster_World\<close> puts the client before the modelled servers; \<open>Client_Props\<close>
  and \<open>Client_Transfer\<close> prove that what is written through a handle, or uploaded, is what is
  read, or downloaded; \<open>Client_Files\<close> has the outcomes of opening, truncating and deleting.

  \<^bold>\<open>FUSE adapter\<close> (\<^verbatim>\<open>fuse/node.go\<close>,
  \<^verbatim>\<open>file_handle.go\<close>). \<open>Fuse_Node\<close> has the callbacks, \<open>Fuse_Props\<close>
  shows that listings and lookups agree and what a rename does to inodes.

  \<^bold>\<open>Sequential reading.\<close> Handlers run under their locks and are single steps. Goroutines
  that go to different data nodes run one after the other. Between the steps of a handler other
  commands may commit, as \<open>commits\<close> says. The repair of several files is sequential in the code
  too.

  \<^bold>\<open>Command line client\<close> (\<^verbatim>\<open>cmd/fstorex/main.go\<close>,
  \<^verbatim>\<open>fuse/filesystem.go\<close>). \<open>Go_Flags\<close> is the part of the
  \<^verbatim>\<open>flag\<close> package it uses, \<open>Command_Line\<close> the program with every command and its
  exit status, the mount included, and \<open>Command_Props\<close> says what the status promises for
  each command.

  \<^bold>\<open>The service over time.\<close> \<open>Identities\<close> follows the identities of files through
  every command. \<open>Sound_States\<close> shows that every handler and collection, with the commands of
  other clients in flight (\<open>orderly\<close>), and every repair with nothing else in flight
  (\<open>prompt\<close>) keeps the states sound that the rest relies on. \<open>Service_Runs\<close> has the step
  relation of a server, with the commands of other nodes and restored snapshots, and what holds in each
  reachable state. Its parameter \<open>over\<close> says whether creations may overwrite files: then replicas
  need not lie under their file's identity. A repair with commands in flight is left out of it, since
  \<open>Repair_Race\<close> shows what it breaks.

  \<^bold>\<open>Server programs\<close> (\<^verbatim>\<open>cmd/fstorex-mds/main.go\<close>,
  \<^verbatim>\<open>cmd/fstorex-dn/main.go\<close>). \<open>Server_Programs\<close> has the flags, the
  configuration, the start-up with its failures, and the shutdown as a step relation: a signal goes
  to a main that waits at its receive, else into the channel, from which the accept loop may take it.

  \<^bold>\<open>Not modelled.\<close> Raft itself, gob, JSON and the network are parameters.
  Logging has no effect on the state. The interfaces of \<^verbatim>\<open>types.go\<close> are the
  handlers named above. Timers are the ticks \<open>gc_tick\<close>, \<open>replicator_tick\<close> and the
  number of ticks of \<open>heartbeats\<close>.
\<close>

end
